(* ===== verification/Bridge_Prelude.thy ===== *)
theory Bridge_Prelude
  imports Main "HOL-Library.Word"
begin

unbundle bit_operations_syntax

section \<open>Shared vocabulary of the model\<close>

text \<open>
  The types and operators every component shares: Rust's fixed-width integers, its
  \<open>Result\<close> with the question-mark operator (plain and over an explicit world), the
  standard library's \<open>io::Error\<close>, \<open>Duration\<close> arithmetic, and the checked and
  saturating integer operations.  A text (\<open>str\<close>, \<open>String\<close>) is the list of its
  Unicode scalar values; a path is the list of its bytes, as \<open>OsStr\<close> is on Unix.
\<close>

named_theorems io_simps \<open>unfolding rules of the world-passing Result combinators\<close>
named_theorems io_splits \<open>inversion rules: how a world-passing computation can end\<close>

type_synonym u8 = "8 word"
type_synonym u16 = "16 word"
type_synonym u32 = "32 word"
type_synonym u64 = "64 word"
type_synonym rstr = "nat list"
type_synonym path = string

text \<open>A source literal as the list of its scalar values.\<close>

definition lit :: "string \<Rightarrow> rstr" where
  "lit s = map of_char s"

lemma lit_append: "lit (a @ b) = lit a @ lit b"
  by (simp add: lit_def)

lemma lit_Nil [simp]: "lit [] = []"
  by (simp add: lit_def)

lemma lit_Cons: "lit (c # s) = of_char c # lit s"
  by (simp add: lit_def)


subsection \<open>Result\<close>

datatype ('a, 'e) result = Ok 'a | Err 'e

fun bind_result :: "('a, 'e) result \<Rightarrow> ('a \<Rightarrow> ('b, 'e) result) \<Rightarrow> ('b, 'e) result" where
  "bind_result (Ok a) k = k a"
| "bind_result (Err e) k = Err e"

fun map_err :: "('e \<Rightarrow> 'f) \<Rightarrow> ('a, 'e) result \<Rightarrow> ('a, 'f) result" where
  "map_err f (Ok a) = Ok a"
| "map_err f (Err e) = Err (f e)"

fun map_ok :: "('a \<Rightarrow> 'b) \<Rightarrow> ('a, 'e) result \<Rightarrow> ('b, 'e) result" where
  "map_ok f (Ok a) = Ok (f a)"
| "map_ok f (Err e) = Err e"

fun is_ok :: "('a, 'e) result \<Rightarrow> bool" where
  "is_ok (Ok _) = True"
| "is_ok (Err _) = False"

text \<open>\<open>collect::<Result<Vec<_>, _>>()\<close>: all values, or the first error.\<close>

fun collect_results :: "('a, 'e) result list \<Rightarrow> ('a list, 'e) result" where
  "collect_results [] = Ok []"
| "collect_results (Err e # rs) = Err e"
| "collect_results (Ok a # rs) = map_ok (Cons a) (collect_results rs)"

lemma bind_result_Ok_iff: "bind_result r k = Ok b \<longleftrightarrow> (\<exists>a. r = Ok a \<and> k a = Ok b)"
  by (cases r) auto

lemma bind_result_Err_iff:
  "bind_result r k = Err e \<longleftrightarrow> r = Err e \<or> (\<exists>a. r = Ok a \<and> k a = Err e)"
  by (cases r) auto

lemma map_err_Ok_iff [simp]: "map_err f r = Ok a \<longleftrightarrow> r = Ok a"
  by (cases r) auto

lemma map_err_Err_iff: "map_err f r = Err e \<longleftrightarrow> (\<exists>d. r = Err d \<and> e = f d)"
  by (cases r) auto

lemma map_ok_Ok_iff: "map_ok f r = Ok b \<longleftrightarrow> (\<exists>a. r = Ok a \<and> b = f a)"
  by (cases r) auto

lemma map_ok_Err_iff [simp]: "map_ok f r = Err e \<longleftrightarrow> r = Err e"
  by (cases r) auto

lemma collect_results_Ok_iff: "collect_results rs = Ok xs \<longleftrightarrow> rs = map Ok xs"
  by (induction rs arbitrary: xs rule: collect_results.induct) (auto simp: map_ok_Ok_iff)

lemma collect_results_Err_iff:
  "collect_results rs = Err e \<longleftrightarrow> (\<exists>xs rest. rs = map Ok xs @ Err e # rest)"
proof (induction rs rule: collect_results.induct)
  case 1
  then show ?case by simp
next
  case (2 e' rs)
  have "Err e' # rs = map Ok xs @ Err e # rest \<longleftrightarrow> xs = [] \<and> e' = e \<and> rest = rs" for xs rest
    by (cases xs) auto
  then show ?case by auto
next
  case (3 a rs)
  have "Ok a # rs = map Ok xs @ Err e # rest \<longleftrightarrow>
      (\<exists>ys. xs = a # ys \<and> rs = map Ok ys @ Err e # rest)" for xs rest
    by (cases xs) auto
  with "3.IH" show ?case by auto
qed


subsection \<open>Computations over a world\<close>

text \<open>
  An operation of the operating system or of a third-party library is a function that takes the
  state of the world outside the program and returns its result and the world after it.  The
  world's type is a parameter, so that anything else may happen in it meanwhile.
\<close>

type_synonym ('w, 'a, 'e) io = "'w \<Rightarrow> ('a, 'e) result \<times> 'w"

definition return_io :: "('a, 'e) result \<Rightarrow> ('w, 'a, 'e) io" where
  "return_io r w = (r, w)"

text \<open>The question-mark operator on an awaited call.\<close>

definition bind_io :: "('w, 'a, 'e) io \<Rightarrow> ('a \<Rightarrow> ('w, 'b, 'e) io) \<Rightarrow> ('w, 'b, 'e) io" where
  "bind_io m k w = (case m w of (Ok a, w') \<Rightarrow> k a w' | (Err e, w') \<Rightarrow> (Err e, w'))"

definition map_err_io :: "('e \<Rightarrow> 'f) \<Rightarrow> ('w, 'a, 'e) io \<Rightarrow> ('w, 'a, 'f) io" where
  "map_err_io f m w = (case m w of (r, w') \<Rightarrow> (map_err f r, w'))"

lemma return_io_eq [io_simps]: "return_io r w = (r, w)"
  by (simp add: return_io_def)

lemma bind_io_Ok [io_simps]: "m w = (Ok a, w') \<Longrightarrow> bind_io m k w = k a w'"
  by (simp add: bind_io_def)

lemma bind_io_Err [io_simps]: "m w = (Err e, w') \<Longrightarrow> bind_io m k w = (Err e, w')"
  by (simp add: bind_io_def)

lemma map_err_io_Ok [io_simps]: "m w = (Ok a, w') \<Longrightarrow> map_err_io f m w = (Ok a, w')"
  by (simp add: map_err_io_def)

lemma map_err_io_Err [io_simps]: "m w = (Err e, w') \<Longrightarrow> map_err_io f m w = (Err (f e), w')"
  by (simp add: map_err_io_def)

lemma bind_io_eq_Ok [io_splits]:
  "bind_io m k w = (Ok b, w2) \<longleftrightarrow> (\<exists>a w1. m w = (Ok a, w1) \<and> k a w1 = (Ok b, w2))"
  by (auto simp: bind_io_def split: prod.splits result.splits)

lemma bind_io_eq_Err [io_splits]:
  "bind_io m k w = (Err e, w2) \<longleftrightarrow>
     m w = (Err e, w2) \<or> (\<exists>a w1. m w = (Ok a, w1) \<and> k a w1 = (Err e, w2))"
  by (auto simp: bind_io_def split: prod.splits result.splits)

lemma map_err_io_eq_Ok [io_splits]: "map_err_io f m w = (Ok a, w2) \<longleftrightarrow> m w = (Ok a, w2)"
  by (auto simp: map_err_io_def split: prod.splits)

lemma map_err_io_eq_Err [io_splits]:
  "map_err_io f m w = (Err e, w2) \<longleftrightarrow> (\<exists>d. m w = (Err d, w2) \<and> e = f d)"
  by (auto simp: map_err_io_def map_err_Err_iff split: prod.splits)

lemma return_io_eq_iff [io_splits]: "return_io r w = (s, w2) \<longleftrightarrow> r = s \<and> w = w2"
  by (auto simp: return_io_def)


subsection \<open>The standard library's I/O errors\<close>

datatype error_kind =
    NotFound | PermissionDenied | ConnectionRefused | ConnectionReset | HostUnreachable
  | NetworkUnreachable | ConnectionAborted | NotConnected | AddrInUse | AddrNotAvailable
  | NetworkDown | BrokenPipe | AlreadyExists | WouldBlock | InvalidInput | InvalidData
  | TimedOut | WriteZero | Interrupted | Unsupported | UnexpectedEof | OutOfMemory
  | OtherKind | Uncategorized

record io_error =
  io_kind :: error_kind
  io_message :: rstr

definition io_error_new :: "error_kind \<Rightarrow> rstr \<Rightarrow> io_error" where
  "io_error_new k m = \<lparr>io_kind = k, io_message = m\<rparr>"

definition io_error_other :: "rstr \<Rightarrow> io_error" where
  "io_error_other m = io_error_new OtherKind m"

lemma io_error_new_sel [simp]:
  "io_kind (io_error_new k m) = k" "io_message (io_error_new k m) = m"
  by (simp_all add: io_error_new_def)


subsection \<open>Durations\<close>

text \<open>
  A \<open>Duration\<close> is its number of nanoseconds.  Rust keeps whole seconds in a \<open>u64\<close>,
  so the largest one is one nanosecond below \<open>2 ^ 64\<close> seconds; \<open>checked_mul\<close> is
  \<open>None\<close> beyond it and \<open>saturating_add\<close> stops at it.
\<close>

type_synonym duration = nat

definition duration_max :: duration where
  "duration_max = 2 ^ 64 * 10 ^ 9 - 1"

definition from_nanos :: "nat \<Rightarrow> duration" where
  "from_nanos n = n"

definition from_millis :: "nat \<Rightarrow> duration" where
  "from_millis n = n * 10 ^ 6"

definition from_secs :: "nat \<Rightarrow> duration" where
  "from_secs n = n * 10 ^ 9"

definition duration_checked_mul :: "duration \<Rightarrow> nat \<Rightarrow> duration option" where
  "duration_checked_mul d k = (if d * k \<le> duration_max then Some (d * k) else None)"

definition duration_saturating_add :: "duration \<Rightarrow> duration \<Rightarrow> duration" where
  "duration_saturating_add a b = min (a + b) duration_max"

lemmas duration_defs = from_nanos_def from_millis_def from_secs_def

lemma duration_saturating_add_ge_iff:
  assumes "c \<le> duration_max"
  shows "c \<le> duration_saturating_add a b \<longleftrightarrow> c \<le> a + b"
  using assms by (auto simp: duration_saturating_add_def)


subsection \<open>Checked and saturating integer arithmetic\<close>

definition checked_mul :: "'n::len word \<Rightarrow> 'n word \<Rightarrow> 'n word option" where
  "checked_mul a b = (if unat a * unat b < 2 ^ LENGTH('n) then Some (a * b) else None)"

definition checked_add :: "'n::len word \<Rightarrow> 'n word \<Rightarrow> 'n word option" where
  "checked_add a b = (if unat a + unat b < 2 ^ LENGTH('n) then Some (a + b) else None)"

definition saturating_add :: "'n::len word \<Rightarrow> 'n word \<Rightarrow> 'n word" where
  "saturating_add a b = (if unat a + unat b < 2 ^ LENGTH('n) then a + b else - 1)"

lemma checked_mul_Some_iff:
  "checked_mul a b = Some c \<longleftrightarrow> unat a * unat b = unat c"
  for a b c :: "'n::len word"
  by (auto simp: checked_mul_def unat_word_ariths word_unat_eq_iff intro: unsigned_less)

lemma checked_add_Some_iff:
  "checked_add a b = Some c \<longleftrightarrow> unat a + unat b = unat c"
  for a b c :: "'n::len word"
  by (auto simp: checked_add_def unat_word_ariths word_unat_eq_iff)

lemma unat_saturating_add:
  "unat (saturating_add a b) = min (unat a + unat b) (2 ^ LENGTH('n) - 1)"
  for a b :: "'n::len word"
  by (auto simp: saturating_add_def unat_word_ariths unsigned_minus_1_eq_mask mask_eq_exp_minus_1)

end
