(* ===== verification/Runtime.thy ===== *)
theory Runtime
  imports Bridge_Prelude "HOL-Library.Multiset"
begin

section \<open>Interfaces of the asynchronous runtime\<close>

text \<open>
  The runtime is a third-party library: the components take its primitives as parameters, and
  the locales here state what its documentation promises of them.  \<open>watch_channel\<close> is the
  shutdown signal (\<open>tokio::sync::watch\<close>), \<open>semaphore\<close> the connection limit
  (\<open>tokio::sync::Semaphore\<close>), \<open>join_set\<close> the set of running session tasks
  (\<open>tokio::task::JoinSet\<close>).  Each has an instance built from its documentation.
\<close>

subsection \<open>The watch channel\<close>

text \<open>
  A send makes a new version, the receiver remembers the version it has seen, and a clone
  remembers the same one.  Polling \<open>changed\<close> is \<open>None\<close> while it would wait, \<open>Some (Ok ())\<close>
  when there is an unseen version (which counts as seen from then on), and \<open>Some (Err ())\<close> when
  there is none and the sender has been dropped.
\<close>

record ('c, 'r) watch_ops =
  wt_channel :: "bool \<Rightarrow> 'c \<times> 'r"
  wt_send :: "bool \<Rightarrow> 'c \<Rightarrow> 'c"
  wt_drop_sender :: "'c \<Rightarrow> 'c"
  wt_changed :: "'c \<Rightarrow> 'r \<Rightarrow> ((unit, unit) result \<times> 'r) option"

locale watch_channel =
  fixes ops :: "('c, 'r) watch_ops"
    and version :: "'c \<Rightarrow> nat"
    and closed :: "'c \<Rightarrow> bool"
    and seen :: "'r \<Rightarrow> nat"
  assumes channel_fresh: "wt_channel ops v = (c, r) \<Longrightarrow> version c = 0 \<and> seen r = 0 \<and> \<not> closed c"
    and version_send [simp]: "version (wt_send ops v c) = Suc (version c)"
    and closed_send [simp]: "closed (wt_send ops v c) = closed c"
    and version_drop [simp]: "version (wt_drop_sender ops c) = version c"
    and closed_drop [simp]: "closed (wt_drop_sender ops c)"
    and changed_pending: "wt_changed ops c r = None \<longleftrightarrow> version c \<le> seen r \<and> \<not> closed c"
    and changed_seen: "wt_changed ops c r = Some (Ok (), r') \<Longrightarrow> seen r < version c \<and> seen r' = version c"
    and changed_closed: "wt_changed ops c r = Some (Err (), r') \<Longrightarrow> closed c \<and> version c \<le> seen r"
begin

lemma fresh_pending: "wt_channel ops v = (c, r) \<Longrightarrow> wt_changed ops c r = None"
  using channel_fresh by (simp add: changed_pending)

lemma signalled_ready: "seen r \<le> version c \<Longrightarrow> wt_changed ops (wt_send ops v c) r \<noteq> None"
  by (simp add: changed_pending)

lemma dropped_ready: "wt_changed ops (wt_drop_sender ops c) r \<noteq> None"
  by (simp add: changed_pending)

end

record watch_chan =
  wc_version :: nat
  wc_closed :: bool

definition versioned_watch :: "(watch_chan, nat) watch_ops" where
  "versioned_watch =
     \<lparr>wt_channel = (\<lambda>v. (\<lparr>wc_version = 0, wc_closed = False\<rparr>, 0)),
      wt_send = (\<lambda>v c. c\<lparr>wc_version := Suc (wc_version c)\<rparr>),
      wt_drop_sender = (\<lambda>c. c\<lparr>wc_closed := True\<rparr>),
      wt_changed = (\<lambda>c r.
        if r < wc_version c then Some (Ok (), wc_version c)
        else if wc_closed c then Some (Err (), r) else None)\<rparr>"

interpretation vw: watch_channel versioned_watch wc_version wc_closed "\<lambda>r. r"
  by unfold_locales (auto simp: versioned_watch_def split: if_splits)


subsection \<open>The semaphore\<close>

text \<open>
  \<open>Semaphore::new\<close> panics (\<open>None\<close>) above \<open>MAX_PERMITS\<close>, which is \<open>usize::MAX >> 3\<close>.  A
  permit goes back when it is dropped.
\<close>

definition MAX_PERMITS :: nat where
  "MAX_PERMITS = 2 ^ 61 - 1"

record 'sem semaphore_ops =
  sm_new :: "nat \<Rightarrow> 'sem option"
  sm_try_acquire :: "'sem \<Rightarrow> 'sem option"
  sm_release :: "'sem \<Rightarrow> 'sem"

locale semaphore =
  fixes ops :: "'sem semaphore_ops"
    and available :: "'sem \<Rightarrow> nat"
  assumes new_panics: "sm_new ops n = None \<longleftrightarrow> MAX_PERMITS < n"
    and new_available: "sm_new ops n = Some s \<Longrightarrow> available s = n"
    and acquire_fails: "sm_try_acquire ops s = None \<longleftrightarrow> available s = 0"
    and acquire_takes: "sm_try_acquire ops s = Some s' \<Longrightarrow> available s = Suc (available s')"
    and release_returns: "available (sm_release ops s) = Suc (available s)"

definition counting_semaphore :: "nat semaphore_ops" where
  "counting_semaphore =
     \<lparr>sm_new = (\<lambda>n. if MAX_PERMITS < n then None else Some n),
      sm_try_acquire = (\<lambda>s. case s of 0 \<Rightarrow> None | Suc n \<Rightarrow> Some n),
      sm_release = Suc\<rparr>"

interpretation cs: semaphore counting_semaphore "\<lambda>s. s"
  by unfold_locales (auto simp: counting_semaphore_def split: nat.splits if_splits)


subsection \<open>The set of session tasks\<close>

text \<open>
  A task is known by the key it was spawned with.  The runtime finishes running tasks on its own
  (\<open>js_finish\<close>, \<open>None\<close> for a key that is not running); \<open>join_next\<close> hands out a finished one and
  is \<open>None\<close> while it would wait; \<open>abort_all\<close> ends every running task; the runtime
  only schedules that, but both loops return right after it, and no task is looked at again.
\<close>

record ('js, 'k) join_ops =
  js_new :: 'js
  js_spawn :: "'k \<Rightarrow> 'js \<Rightarrow> 'js"
  js_finish :: "'k \<Rightarrow> 'js \<Rightarrow> 'js option"
  js_join_next :: "'js \<Rightarrow> ('k \<times> 'js) option"
  js_is_empty :: "'js \<Rightarrow> bool"
  js_abort_all :: "'js \<Rightarrow> 'js"

locale join_set =
  fixes ops :: "('js, 'k) join_ops"
    and running :: "'js \<Rightarrow> 'k multiset"
    and finished :: "'js \<Rightarrow> 'k multiset"
  assumes new_empty: "running (js_new ops) = {#} \<and> finished (js_new ops) = {#}"
    and spawn_running: "running (js_spawn ops k s) = add_mset k (running s)"
    and spawn_finished: "finished (js_spawn ops k s) = finished s"
    and finish_None: "js_finish ops k s = None \<longleftrightarrow> k \<notin># running s"
    and finish_Some: "js_finish ops k s = Some s' \<Longrightarrow>
      running s = add_mset k (running s') \<and> finished s' = add_mset k (finished s)"
    and join_None: "js_join_next ops s = None \<longleftrightarrow> finished s = {#}"
    and join_Some: "js_join_next ops s = Some (k, s') \<Longrightarrow>
      running s' = running s \<and> finished s = add_mset k (finished s')"
    and is_empty_iff: "js_is_empty ops s \<longleftrightarrow> running s = {#} \<and> finished s = {#}"
    and abort_running: "running (js_abort_all ops s) = {#}"

definition list_join_set :: "('k list \<times> 'k list, 'k) join_ops" where
  "list_join_set =
     \<lparr>js_new = ([], []),
      js_spawn = (\<lambda>k (rs, fs). (k # rs, fs)),
      js_finish = (\<lambda>k (rs, fs). if k \<in> set rs then Some (remove1 k rs, fs @ [k]) else None),
      js_join_next = (\<lambda>(rs, fs). case fs of [] \<Rightarrow> None | k # fs' \<Rightarrow> Some (k, (rs, fs'))),
      js_is_empty = (\<lambda>(rs, fs). rs = [] \<and> fs = []),
      js_abort_all = (\<lambda>(rs, fs). ([], fs @ rs))\<rparr>"

interpretation ljs: join_set list_join_set "\<lambda>s. mset (fst s)" "\<lambda>s. mset (snd s)"
  by unfold_locales (auto simp: list_join_set_def split: list.splits if_splits)

end
