(* ===== verification/Relay.thy ===== *)
theory Relay
  imports Runtime
begin

section \<open>The byte relay and the shutdown signal (src/relay.rs, src/shutdown.rs)\<close>

text \<open>
  \<open>relay\<close> races the runtime's \<open>copy_bidirectional\<close> against the shutdown signal.  Its
  \<open>select!\<close> polls the two branches, in an order drawn anew at every wake-up, until one is
  ready: \<open>relay_poll\<close> is one such round, and \<open>relay\<close> repeats it.  \<open>None\<close> is a relay that
  never ends.  The shutdown handler waits for a signal of the platform and then notifies every
  receiver of the channel.
\<close>

subsection \<open>The relay\<close>

record relay_stats =
  left_to_right :: u64
  right_to_left :: u64

definition relay_cancelled :: io_error where
  "relay_cancelled = io_error_new Interrupted (lit ''relay cancelled'')"

definition relay_poll ::
  "bool \<Rightarrow> (u64 \<times> u64, io_error) result option \<Rightarrow> (unit, unit) result option \<Rightarrow>
     (relay_stats, io_error) result option" where
  "relay_poll copy_first copy changed =
     (let copied = map_option
            (map_ok (\<lambda>(l2r, r2l). \<lparr>left_to_right = l2r, right_to_left = r2l\<rparr>)) copy;
          cancelled = map_option (\<lambda>result. case result of
            Ok _ \<Rightarrow> Err relay_cancelled | Err _ \<Rightarrow> Err relay_cancelled) changed
      in if copy_first then (case copied of Some r \<Rightarrow> Some r | None \<Rightarrow> cancelled)
         else (case cancelled of Some r \<Rightarrow> Some r | None \<Rightarrow> copied))"

lemma relay_poll_changed:
  "relay_poll b copy (Some s) =
     Some (if b \<and> copy \<noteq> None
           then map_ok (\<lambda>(l2r, r2l). \<lparr>left_to_right = l2r, right_to_left = r2l\<rparr>) (the copy)
           else Err relay_cancelled)"
  by (cases copy) (auto simp: relay_poll_def Let_def split: result.splits)

text \<open>
  The environment of a relay: the next wake-up, with the drawn order, what polling the copy and
  the signal gives, and the world after the bytes moved meanwhile.
\<close>

type_synonym ('l, 'r, 'w) relay_env =
  "'l \<Rightarrow> 'r \<Rightarrow> 'w \<Rightarrow>
     bool \<times> (u64 \<times> u64, io_error) result option \<times> (unit, unit) result option \<times> 'w"

partial_function (option) relay ::
  "('l, 'r, 'w) relay_env \<Rightarrow> 'l \<Rightarrow> 'r \<Rightarrow> 'w \<Rightarrow> ((relay_stats, io_error) result \<times> 'w) option" where
  "relay env left right w =
     (case env left right w of
        (copy_first, copy, changed, w') \<Rightarrow>
          (case relay_poll copy_first copy changed of
             Some r \<Rightarrow> Some (r, w')
           | None \<Rightarrow> relay env left right w'))"

lemma relay_poll_None_iff: "relay_poll b copy changed = None \<longleftrightarrow> copy = None \<and> changed = None"
  by (cases copy; cases changed) (auto simp: relay_poll_def Let_def)

lemma relay_poll_Ok:
  "relay_poll b copy changed = Some (Ok st) \<Longrightarrow>
     copy = Some (Ok (left_to_right st, right_to_left st))"
  by (cases copy; cases changed)
     (auto simp: relay_poll_def Let_def map_ok_Ok_iff split: if_splits result.splits)

lemma relay_poll_Err:
  "relay_poll b copy changed = Some (Err e) \<Longrightarrow>
     copy = Some (Err e) \<or> (changed \<noteq> None \<and> e = relay_cancelled)"
  by (cases copy; cases changed) (auto simp: relay_poll_def Let_def split: if_splits result.splits)

text \<open>How a relay can end: by one of the two branches at its last wake-up.\<close>

definition relay_ended ::
  "('l, 'r, 'w) relay_env \<Rightarrow> 'l \<Rightarrow> 'r \<Rightarrow> (relay_stats, io_error) result \<Rightarrow> 'w \<Rightarrow> bool" where
  "relay_ended env left right r w' \<longleftrightarrow>
     (\<exists>w0 b copy changed. env left right w0 = (b, copy, changed, w') \<and>
        (case r of
           Ok st \<Rightarrow> copy = Some (Ok (left_to_right st, right_to_left st))
         | Err e \<Rightarrow> copy = Some (Err e) \<or> (changed \<noteq> None \<and> e = relay_cancelled)))"

lemma relay_poll_ended:
  "env left right w0 = (b, copy, changed, w') \<Longrightarrow> relay_poll b copy changed = Some r \<Longrightarrow>
     relay_ended env left right r w'"
  unfolding relay_ended_def by (cases r) (fastforce dest: relay_poll_Ok relay_poll_Err)+

lemma relay_ends:
  assumes "relay env left right w = Some (r, w')"
  shows "relay_ended env left right r w'"
proof -
  have "relay_ended env left right (fst y) (snd y)" if "relay env left right w = Some y" for y
  proof (rule relay.raw_induct [where
        P = "\<lambda>env left right w y. relay_ended env left right (fst y) (snd y)", OF _ that])
    fix f env left right w y
    assume "\<And>env left right w y. f env left right w = Some y \<Longrightarrow>
        relay_ended env left right (fst y) (snd y)"
      and "(case env left right w of
        (copy_first, copy, changed, w') \<Rightarrow>
          (case relay_poll copy_first copy changed of
             Some r \<Rightarrow> Some (r, w')
           | None \<Rightarrow> f env left right w')) = Some y"
    then show "relay_ended env left right (fst y) (snd y)"
      by (auto split: prod.splits option.splits dest: relay_poll_ended)
  qed
  from this [OF assms] show ?thesis by simp
qed


text \<open>Cancellation is prompt: at the first wake-up at which the shutdown signal is ready, the
  relay ends, with the cancellation error unless the copy completed at the same wake-up and was
  polled first.\<close>

lemma relay_cancellation_prompt:
  assumes "env left right w = (b, copy, Some s, w')"
  shows "relay env left right w =
     Some (if b \<and> copy \<noteq> None
           then map_ok (\<lambda>(l2r, r2l). \<lparr>left_to_right = l2r, right_to_left = r2l\<rparr>) (the copy)
           else Err relay_cancelled, w')"
  using assms
  by (subst relay.simps) (simp add: relay_poll_changed)


subsection \<open>The shutdown signal\<close>

datatype shutdown_event = CtrlC "(unit, io_error) result" | Terminated

text \<open>Registering the SIGTERM handler, and waiting for whichever signal comes first.\<close>

record 'w signal_ops =
  sg_register_terminate :: "('w, unit, io_error) io"
  sg_wait :: "'w \<Rightarrow> shutdown_event \<times> 'w"

definition wait_for_shutdown :: "'w signal_ops \<Rightarrow> ('w, unit, io_error) io" where
  "wait_for_shutdown ops =
     bind_io (sg_register_terminate ops) (\<lambda>_ w.
       case sg_wait ops w of
         (CtrlC result, w') \<Rightarrow> (result, w')
       | (Terminated, w') \<Rightarrow> (Ok (), w'))"

text \<open>The sender is moved in, so it is dropped when the function returns, on every path.\<close>

definition notify_shutdown ::
  "('c, 'r) watch_ops \<Rightarrow> 'w signal_ops \<Rightarrow> 'c \<Rightarrow> 'w \<Rightarrow> (unit, io_error) result \<times> 'c \<times> 'w" where
  "notify_shutdown watch ops sender w =
     (case wait_for_shutdown ops w of
        (Err e, w') \<Rightarrow> (Err e, wt_drop_sender watch sender, w')
      | (Ok _, w') \<Rightarrow> (Ok (), wt_drop_sender watch (wt_send watch True sender), w'))"

context watch_channel
begin

lemma notify_shutdown_ready:
  "notify_shutdown ops sig sender w = (r, sender', w') \<Longrightarrow> wt_changed ops sender' rx \<noteq> None"
  by (auto simp: notify_shutdown_def changed_pending split: prod.splits result.splits)

lemma notify_shutdown_closed:
  "notify_shutdown ops sig sender w = (r, sender', w') \<Longrightarrow> closed sender'"
  by (auto simp: notify_shutdown_def split: prod.splits result.splits)

end


text \<open>The shutdown handler always stops the program.  Whether the signal arrived or the handler
  failed, when \<open>notify_shutdown\<close> has returned, every receiver of the channel, whatever it has
  already seen, finds its \<open>changed\<close> ready.\<close>

lemma notify_shutdown_reaches_all:
  assumes "watch_channel watch version closed seen"
    and "notify_shutdown watch sig sender w = (r, sender', w')"
  shows "wt_changed watch sender' receiver \<noteq> None"
  using watch_channel.notify_shutdown_ready [OF assms] .

end
