(* ===== verification/Session_Gate.thy ===== *)
theory Session_Gate
  imports Relay
begin

section \<open>The state both accept loops share\<close>

text \<open>
  The server's and the client's accept loop keep the same things: the connection limit, the set
  of session tasks, the shutdown receiver, and whether they still accept.  This theory has that
  state, the changes the two loops make to it with the runtime's primitives, and what they keep:
  permits are never lost or duplicated, and no session misses the shutdown signal.
\<close>

datatype loop_phase = Accepting | Draining | Stopped

text \<open>The phases in the order a loop goes through them.\<close>

instantiation loop_phase :: linorder
begin

fun phase_rank :: "loop_phase \<Rightarrow> nat" where
  "phase_rank Accepting = 0"
| "phase_rank Draining = 1"
| "phase_rank Stopped = 2"

definition less_eq_loop_phase :: "loop_phase \<Rightarrow> loop_phase \<Rightarrow> bool" where
  "p \<le> q \<longleftrightarrow> phase_rank p \<le> phase_rank q"

definition less_loop_phase :: "loop_phase \<Rightarrow> loop_phase \<Rightarrow> bool" where
  "p < q \<longleftrightarrow> phase_rank p < phase_rank q"

instance
proof
  fix p q :: loop_phase
  assume "p \<le> q" "q \<le> p"
  then show "p = q" by (cases p; cases q) (simp_all add: less_eq_loop_phase_def)
qed (auto simp: less_eq_loop_phase_def less_loop_phase_def)

end

lemma phase_bounds [simp]: "Accepting \<le> p" "p \<le> Stopped"
  by (cases p; simp add: less_eq_loop_phase_def)+

datatype loop_warning = LimitReached | AcceptFailed io_error | TaskFailed

record ('sem, 'js, 'c, 'r) loop_state =
  l_permits :: 'sem
  l_sessions :: 'js
  l_channel :: 'c
  l_receiver :: 'r
  l_phase :: loop_phase
  l_log :: "loop_warning list"

record ('sem, 'js, 'k, 'c, 'r) runtime_ops =
  rt_semaphore :: "'sem semaphore_ops"
  rt_join_set :: "('js, 'k) join_ops"
  rt_watch :: "('c, 'r) watch_ops"

definition warn ::
  "loop_warning \<Rightarrow> ('sem, 'js, 'c, 'r, 'x) loop_state_scheme \<Rightarrow>
     ('sem, 'js, 'c, 'r, 'x) loop_state_scheme" where
  "warn m s = s\<lparr>l_log := l_log s @ [m]\<rparr>"

text \<open>The state before the loop: \<open>None\<close> is the panic of \<open>Semaphore::new\<close>.\<close>

definition loop_start ::
  "('sem, 'js, 'k, 'c, 'r) runtime_ops \<Rightarrow> nat \<Rightarrow> 'c \<Rightarrow> 'r \<Rightarrow> ('sem, 'js, 'c, 'r) loop_state option"
  where
  "loop_start rt max_connections channel receiver =
     map_option (\<lambda>permits.
         \<lparr>l_permits = permits, l_sessions = js_new (rt_join_set rt), l_channel = channel,
          l_receiver = receiver, l_phase = Accepting, l_log = []\<rparr>)
       (sm_new (rt_semaphore rt) max_connections)"

text \<open>An accepted connection: a permit and a task, or a warning and nothing else.\<close>

definition admit ::
  "('sem, 'js, 'k, 'c, 'r) runtime_ops \<Rightarrow> 'k \<Rightarrow> ('sem, 'js, 'c, 'r, 'x) loop_state_scheme \<Rightarrow>
     ('sem, 'js, 'c, 'r, 'x) loop_state_scheme" where
  "admit rt task s =
     (case sm_try_acquire (rt_semaphore rt) (l_permits s) of
        Some permits \<Rightarrow>
          s\<lparr>l_permits := permits, l_sessions := js_spawn (rt_join_set rt) task (l_sessions s)\<rparr>
      | None \<Rightarrow> warn LimitReached s)"

text \<open>A task ends, returning or panicking: its permit is dropped with it.\<close>

definition task_ends ::
  "('sem, 'js, 'k, 'c, 'r) runtime_ops \<Rightarrow> 'k \<Rightarrow> ('sem, 'js, 'c, 'r, 'x) loop_state_scheme \<Rightarrow>
     ('sem, 'js, 'c, 'r, 'x) loop_state_scheme option" where
  "task_ends rt task s =
     map_option (\<lambda>sessions.
         s\<lparr>l_sessions := sessions, l_permits := sm_release (rt_semaphore rt) (l_permits s)\<rparr>)
       (js_finish (rt_join_set rt) task (l_sessions s))"

text \<open>The \<open>join_next\<close> branch, with its guard; the result says whether the task had panicked.\<close>

definition join_branch ::
  "('sem, 'js, 'k, 'c, 'r) runtime_ops \<Rightarrow> bool \<Rightarrow> ('sem, 'js, 'c, 'r, 'x) loop_state_scheme \<Rightarrow>
     ('sem, 'js, 'c, 'r, 'x) loop_state_scheme option" where
  "join_branch rt panicked s =
     (if js_is_empty (rt_join_set rt) (l_sessions s) then None
      else map_option (\<lambda>(_, sessions).
          (if panicked then warn TaskFailed else id) (s\<lparr>l_sessions := sessions\<rparr>))
        (js_join_next (rt_join_set rt) (l_sessions s)))"

text \<open>The \<open>changed\<close> branch: its result is ignored, and the loop is left.\<close>

definition shutdown_branch ::
  "('sem, 'js, 'k, 'c, 'r) runtime_ops \<Rightarrow> ('sem, 'js, 'c, 'r, 'x) loop_state_scheme \<Rightarrow>
     ('sem, 'js, 'c, 'r, 'x) loop_state_scheme option" where
  "shutdown_branch rt s =
     map_option (\<lambda>(_, receiver). s\<lparr>l_receiver := receiver, l_phase := Draining\<rparr>)
       (wt_changed (rt_watch rt) (l_channel s) (l_receiver s))"

text \<open>One round of the drain, and the end of the function after it or after its timeout.\<close>

definition drain_one ::
  "('sem, 'js, 'k, 'c, 'r) runtime_ops \<Rightarrow> ('sem, 'js, 'c, 'r, 'x) loop_state_scheme \<Rightarrow>
     ('sem, 'js, 'c, 'r, 'x) loop_state_scheme option" where
  "drain_one rt s =
     map_option (\<lambda>(_, sessions). s\<lparr>l_sessions := sessions\<rparr>)
       (js_join_next (rt_join_set rt) (l_sessions s))"

definition abort_sessions ::
  "('sem, 'js, 'k, 'c, 'r) runtime_ops \<Rightarrow> ('sem, 'js, 'c, 'r, 'x) loop_state_scheme \<Rightarrow>
     ('sem, 'js, 'c, 'r, 'x) loop_state_scheme" where
  "abort_sessions rt s =
     s\<lparr>l_sessions := js_abort_all (rt_join_set rt) (l_sessions s), l_phase := Stopped\<rparr>"


subsection \<open>The abstract gate\<close>

text \<open>
  What the loops are for: at most \<open>limit\<close> sessions at a time, new ones only while accepting, and
  none left in the end.  The state is the phase and the number of running sessions.
\<close>

inductive gate_step :: "nat \<Rightarrow> loop_phase \<times> nat \<Rightarrow> loop_phase \<times> nat \<Rightarrow> bool" for limit where
  enter: "n < limit \<Longrightarrow> gate_step limit (Accepting, n) (Accepting, Suc n)"
| leave: "p \<noteq> Stopped \<Longrightarrow> gate_step limit (p, Suc n) (p, n)"
| close: "gate_step limit (Accepting, n) (Draining, n)"
| stop: "p \<noteq> Stopped \<Longrightarrow> gate_step limit (p, n) (Stopped, 0)"
| stay: "gate_step limit (p, n) (p, n)"

inductive_cases gate_stepE: "gate_step limit x y"

inductive_simps gate_step_Stopped: "gate_step limit (Stopped, n) y"

lemma gate_stay [intro]: "gate_step limit x x"
  by (cases x) (simp add: gate_step.stay)

lemma gate_steps_bounded:
  "(gate_step limit)\<^sup>*\<^sup>* x y \<Longrightarrow> snd x \<le> limit \<Longrightarrow> snd y \<le> limit"
  by (induction rule: rtranclp_induct) (auto elim!: gate_stepE)

text \<open>
  The phase only goes forward; a loop that is not accepting admits nobody; a stopped one stays as
  it is.
\<close>

lemma gate_step_phase: "gate_step limit x y \<Longrightarrow> fst x \<le> fst y"
  by (erule gate_stepE) simp_all

lemma gate_steps_phase: "(gate_step limit)\<^sup>*\<^sup>* x y \<Longrightarrow> fst x \<le> fst y"
  by (induction rule: rtranclp_induct) (auto dest: gate_step_phase)

lemma gate_steps_closed:
  "(gate_step limit)\<^sup>*\<^sup>* x y \<Longrightarrow> Accepting < fst x \<Longrightarrow> snd y \<le> snd x"
proof (induction rule: rtranclp_induct)
  case base
  then show ?case by simp
next
  case (step y z)
  then have "Accepting < fst y" using gate_steps_phase [OF step(1)] by simp
  with step show ?case by (auto elim!: gate_stepE simp: less_loop_phase_def)
qed

lemma gate_steps_Stopped: "(gate_step limit)\<^sup>*\<^sup>* (Stopped, n) y \<Longrightarrow> y = (Stopped, n)"
  by (induction rule: rtranclp_induct) (auto simp: gate_step_Stopped)


subsection \<open>What every change keeps\<close>

locale loop_runtime =
  sem: semaphore "rt_semaphore rt" available +
  tasks: join_set "rt_join_set rt" running finished +
  watch: watch_channel "rt_watch rt" version closed seen
  for rt :: "('sem, 'js, 'k, 'c, 'r) runtime_ops"
    and available :: "'sem \<Rightarrow> nat"
    and running finished :: "'js \<Rightarrow> 'k multiset"
    and version :: "'c \<Rightarrow> nat" and closed :: "'c \<Rightarrow> bool" and seen :: "'r \<Rightarrow> nat" +
  fixes task_receiver :: "'k \<Rightarrow> 'r"
begin

text \<open>
  Permits are conserved, and while the loop accepts, its receiver has seen as much as every
  task's; afterwards every running task's receiver finds the signal.
\<close>

definition loop_inv :: "nat \<Rightarrow> ('sem, 'js, 'c, 'r, 'x) loop_state_scheme \<Rightarrow> bool" where
  "loop_inv limit s \<longleftrightarrow>
     (l_phase s \<noteq> Stopped \<longrightarrow> available (l_permits s) + size (running (l_sessions s)) = limit) \<and>
     (l_phase s = Stopped \<longrightarrow> running (l_sessions s) = {#}) \<and>
     (\<forall>k \<in># running (l_sessions s).
        (l_phase s = Accepting \<longrightarrow> seen (task_receiver k) = seen (l_receiver s)) \<and>
        (l_phase s = Draining \<longrightarrow>
           seen (task_receiver k) < version (l_channel s) \<or> closed (l_channel s)))"

definition abs_gate :: "('sem, 'js, 'c, 'r, 'x) loop_state_scheme \<Rightarrow> loop_phase \<times> nat" where
  "abs_gate s = (l_phase s, size (running (l_sessions s)))"

lemma warn_inv [simp]: "loop_inv limit (warn m s) = loop_inv limit s"
  by (simp add: warn_def loop_inv_def)

lemma warn_gate [simp]: "abs_gate (warn m s) = abs_gate s"
  by (simp add: warn_def abs_gate_def)

lemma start_inv: "loop_start rt limit c r = Some s \<Longrightarrow> loop_inv limit s"
  by (auto simp: loop_start_def loop_inv_def tasks.new_empty sem.new_available)

lemma start_gate: "loop_start rt limit c r = Some s \<Longrightarrow> abs_gate s = (Accepting, 0)"
  by (auto simp: loop_start_def abs_gate_def tasks.new_empty)

lemma start_panics: "loop_start rt limit c r = None \<longleftrightarrow> MAX_PERMITS < limit"
  by (simp add: loop_start_def sem.new_panics)

lemma admit_inv:
  "loop_inv limit s \<Longrightarrow> l_phase s = Accepting \<Longrightarrow> seen (task_receiver k) = seen (l_receiver s) \<Longrightarrow>
     loop_inv limit (admit rt k s)"
  by (auto simp: admit_def loop_inv_def tasks.spawn_running warn_def
      dest: sem.acquire_takes split: option.splits)

lemma admit_gate:
  assumes "loop_inv limit s" "l_phase s = Accepting"
  shows "gate_step limit (abs_gate s) (abs_gate (admit rt k s))"
proof (cases "sm_try_acquire (rt_semaphore rt) (l_permits s)")
  case None
  then show ?thesis by (simp add: admit_def gate_stay)
next
  case (Some permits)
  with assms sem.acquire_takes [OF Some] show ?thesis
    by (auto simp: admit_def abs_gate_def loop_inv_def tasks.spawn_running
        intro!: gate_step.enter)
qed

lemma task_ends_inv:
  "loop_inv limit s \<Longrightarrow> task_ends rt k s = Some s' \<Longrightarrow> l_phase s \<noteq> Stopped \<Longrightarrow> loop_inv limit s'"
  by (auto simp: task_ends_def loop_inv_def sem.release_returns dest: tasks.finish_Some)

lemma task_ends_gate:
  "task_ends rt k s = Some s' \<Longrightarrow> l_phase s \<noteq> Stopped \<Longrightarrow>
     gate_step limit (abs_gate s) (abs_gate s')"
  by (auto simp: task_ends_def abs_gate_def dest!: tasks.finish_Some intro: gate_step.leave)

lemma join_running:
  "js_join_next (rt_join_set rt) js = Some (k, js') \<Longrightarrow> running js' = running js"
  using tasks.join_Some by blast

lemma join_branch_eq:
  "join_branch rt panicked s = Some s' \<Longrightarrow>
     running (l_sessions s') = running (l_sessions s) \<and> l_permits s' = l_permits s \<and>
     l_phase s' = l_phase s \<and> l_receiver s' = l_receiver s \<and> l_channel s' = l_channel s"
  by (auto simp: join_branch_def warn_def dest: join_running split: if_splits)

lemma join_branch_inv: "loop_inv limit s \<Longrightarrow> join_branch rt panicked s = Some s' \<Longrightarrow> loop_inv limit s'"
  by (drule join_branch_eq) (simp add: loop_inv_def)

lemma join_branch_gate:
  "join_branch rt panicked s = Some s' \<Longrightarrow> gate_step limit (abs_gate s) (abs_gate s')"
  by (drule join_branch_eq) (simp add: abs_gate_def gate_step.stay)

lemma drain_one_inv: "loop_inv limit s \<Longrightarrow> drain_one rt s = Some s' \<Longrightarrow> loop_inv limit s'"
  by (auto simp: drain_one_def loop_inv_def dest!: join_running)

lemma drain_one_gate: "drain_one rt s = Some s' \<Longrightarrow> gate_step limit (abs_gate s) (abs_gate s')"
  by (auto simp: drain_one_def abs_gate_def dest!: join_running intro: gate_step.stay)

lemma shutdown_branch_inv:
  assumes "loop_inv limit s" "l_phase s = Accepting" "shutdown_branch rt s = Some s'"
  shows "loop_inv limit s'"
proof -
  from assms(3) obtain r rx where r: "wt_changed (rt_watch rt) (l_channel s) (l_receiver s) = Some (r, rx)"
    and s': "s' = s\<lparr>l_receiver := rx, l_phase := Draining\<rparr>"
    by (auto simp: shutdown_branch_def)
  have "seen (l_receiver s) < version (l_channel s) \<or> closed (l_channel s)"
    using r by (cases r) (auto dest: watch.changed_seen watch.changed_closed)
  with assms(1,2) show ?thesis by (auto simp: loop_inv_def s')
qed

lemma shutdown_branch_gate:
  "l_phase s = Accepting \<Longrightarrow> shutdown_branch rt s = Some s' \<Longrightarrow>
     gate_step limit (abs_gate s) (abs_gate s')"
  by (auto simp: shutdown_branch_def abs_gate_def intro: gate_step.close)

lemma shutdown_branch_closed:
  assumes "closed (l_channel s)"
  shows "\<exists>rx. shutdown_branch rt s = Some (s\<lparr>l_receiver := rx, l_phase := Draining\<rparr>)"
proof -
  obtain r rx where "wt_changed (rt_watch rt) (l_channel s) (l_receiver s) = Some (r, rx)"
    using assms watch.changed_pending by fastforce
  then show ?thesis by (auto simp: shutdown_branch_def)
qed

lemma abort_inv: "loop_inv limit (abort_sessions rt s)"
  by (simp add: abort_sessions_def loop_inv_def tasks.abort_running)

lemma abort_gate: "l_phase s \<noteq> Stopped \<Longrightarrow> gate_step limit (abs_gate s) (abs_gate (abort_sessions rt s))"
  by (simp add: abort_sessions_def abs_gate_def tasks.abort_running gate_step.stop)

lemma send_inv: "loop_inv limit s \<Longrightarrow> loop_inv limit (s\<lparr>l_channel := wt_send (rt_watch rt) v (l_channel s)\<rparr>)"
  by (auto simp: loop_inv_def)

lemma drop_inv:
  "loop_inv limit s \<Longrightarrow> loop_inv limit (s\<lparr>l_channel := wt_drop_sender (rt_watch rt) (l_channel s)\<rparr>)"
  by (auto simp: loop_inv_def)

lemma channel_gate: "gate_step limit (abs_gate s) (abs_gate (s\<lparr>l_channel := c\<rparr>))"
  by (simp add: abs_gate_def gate_step.stay)

lemma admit_room:
  assumes "loop_inv limit s" "l_phase s = Accepting"
  shows "if size (running (l_sessions s)) < limit
     then running (l_sessions (admit rt k s)) = add_mset k (running (l_sessions s)) \<and>
       l_log (admit rt k s) = l_log s
     else l_sessions (admit rt k s) = l_sessions s \<and>
       l_log (admit rt k s) = l_log s @ [LimitReached]"
proof (cases "sm_try_acquire (rt_semaphore rt) (l_permits s)")
  case None
  with sem.acquire_fails have "available (l_permits s) = 0" by simp
  with None assms show ?thesis by (simp add: admit_def loop_inv_def warn_def)
next
  case (Some permits)
  with assms sem.acquire_takes [OF Some] show ?thesis
    by (simp add: admit_def loop_inv_def tasks.spawn_running)
qed

text \<open>Which tasks can be running after a change.\<close>

lemma admit_running: "set_mset (running (l_sessions (admit rt k s))) \<subseteq>
    insert k (set_mset (running (l_sessions s)))"
  by (auto simp: admit_def warn_def tasks.spawn_running split: option.splits)

lemma task_ends_running:
  "task_ends rt k s = Some s' \<Longrightarrow>
     set_mset (running (l_sessions s')) \<subseteq> set_mset (running (l_sessions s))"
  by (auto simp: task_ends_def dest: tasks.finish_Some)

lemma shutdown_running:
  "shutdown_branch rt s = Some s' \<Longrightarrow> running (l_sessions s') = running (l_sessions s)"
  by (auto simp: shutdown_branch_def)

lemma drain_running:
  "drain_one rt s = Some s' \<Longrightarrow> running (l_sessions s') = running (l_sessions s)"
  by (auto simp: drain_one_def dest: join_running)

lemma abort_running: "running (l_sessions (abort_sessions rt s)) = {#}"
  by (simp add: abort_sessions_def tasks.abort_running)

lemma start_running: "loop_start rt limit c r = Some s \<Longrightarrow> running (l_sessions s) = {#}"
  by (auto simp: loop_start_def tasks.new_empty)

lemma inv_permits:
  "loop_inv limit s \<Longrightarrow>
     (l_phase s \<noteq> Stopped \<longrightarrow> available (l_permits s) + size (running (l_sessions s)) = limit) \<and>
     (l_phase s = Stopped \<longrightarrow> running (l_sessions s) = {#})"
  by (simp add: loop_inv_def)

lemma inv_signalled:
  "loop_inv limit s \<Longrightarrow> l_phase s = Draining \<Longrightarrow> k \<in># running (l_sessions s) \<Longrightarrow>
     wt_changed (rt_watch rt) (l_channel s) (task_receiver k) \<noteq> None"
  by (auto simp: loop_inv_def watch.changed_pending not_le)

end

subsection \<open>The runtime's own primitives\<close>

text \<open>The documented instances of the three primitives together, for any kind of task.\<close>

definition demo_runtime :: "(nat, 'k list \<times> 'k list, 'k, watch_chan, nat) runtime_ops" where
  "demo_runtime = \<lparr>rt_semaphore = counting_semaphore, rt_join_set = list_join_set,
     rt_watch = versioned_watch\<rparr>"

interpretation rt: loop_runtime demo_runtime "\<lambda>s. s" "\<lambda>js. mset (fst js)" "\<lambda>js. mset (snd js)"
    wc_version wc_closed "\<lambda>r. r" task_receiver
  for task_receiver :: "'k \<Rightarrow> nat"
  unfolding loop_runtime_def demo_runtime_def
  using cs.semaphore_axioms ljs.join_set_axioms vw.watch_channel_axioms by simp

lemmas demo_runtime_defs = demo_runtime_def counting_semaphore_def list_join_set_def
  versioned_watch_def

end
