(* ===== verification/Rust_Text.thy ===== *)
theory Rust_Text
  imports Bridge_Prelude
begin

section \<open>Text of the Rust standard library\<close>

text \<open>
  The parts of the standard library's text handling that the program's parsers use:
  \<open>str::from_utf8\<close> and \<open>String::from_utf8_lossy\<close>, \<open>str::trim\<close>, \<open>str::lines\<close>,
  \<open>u16::from_str\<close>, \<open>Ipv4Addr::from_str\<close>, and the decimal printing of integers.
\<close>

subsection \<open>UTF-8\<close>

text \<open>
  One step of the decoder: the scalar value at the front with its width, or the length of the
  maximal valid prefix of an ill-formed sequence (at least one byte), as \<open>Utf8Chunks\<close> cuts it.
  The byte ranges are the standard library's table: no overlong forms, no surrogates, nothing
  above \<open>10FFFF\<close>.
\<close>

datatype utf8_item = Utf8Char nat nat | Utf8Bad nat

definition is_cont :: "nat \<Rightarrow> bool" where
  "is_cont b \<longleftrightarrow> 0x80 \<le> b \<and> b \<le> 0xBF"

definition second3 :: "nat \<Rightarrow> nat \<Rightarrow> bool" where
  "second3 b0 b1 \<longleftrightarrow>
     (if b0 = 0xE0 then 0xA0 \<le> b1 \<and> b1 \<le> 0xBF
      else if b0 = 0xED then 0x80 \<le> b1 \<and> b1 \<le> 0x9F
      else is_cont b1)"

definition second4 :: "nat \<Rightarrow> nat \<Rightarrow> bool" where
  "second4 b0 b1 \<longleftrightarrow>
     (if b0 = 0xF0 then 0x90 \<le> b1 \<and> b1 \<le> 0xBF
      else if b0 = 0xF4 then 0x80 \<le> b1 \<and> b1 \<le> 0x8F
      else is_cont b1)"

fun utf8_next :: "nat \<Rightarrow> nat list \<Rightarrow> utf8_item" where
  "utf8_next b0 bs =
     (if b0 < 0x80 then Utf8Char b0 1
      else if 0xC2 \<le> b0 \<and> b0 \<le> 0xDF then
        (case bs of
           b1 # _ \<Rightarrow> if is_cont b1 then Utf8Char ((b0 - 0xC0) * 64 + (b1 - 0x80)) 2 else Utf8Bad 1
         | [] \<Rightarrow> Utf8Bad 1)
      else if 0xE0 \<le> b0 \<and> b0 \<le> 0xEF then
        (case bs of
           b1 # cs \<Rightarrow>
             if second3 b0 b1 then
               (case cs of
                  b2 # _ \<Rightarrow>
                    if is_cont b2
                    then Utf8Char ((b0 - 0xE0) * 4096 + (b1 - 0x80) * 64 + (b2 - 0x80)) 3
                    else Utf8Bad 2
                | [] \<Rightarrow> Utf8Bad 2)
             else Utf8Bad 1
         | [] \<Rightarrow> Utf8Bad 1)
      else if 0xF0 \<le> b0 \<and> b0 \<le> 0xF4 then
        (case bs of
           b1 # cs \<Rightarrow>
             if second4 b0 b1 then
               (case cs of
                  b2 # ds \<Rightarrow>
                    if is_cont b2 then
                      (case ds of
                         b3 # _ \<Rightarrow>
                           if is_cont b3
                           then Utf8Char ((b0 - 0xF0) * 262144 + (b1 - 0x80) * 4096
                                  + (b2 - 0x80) * 64 + (b3 - 0x80)) 4
                           else Utf8Bad 3
                       | [] \<Rightarrow> Utf8Bad 3)
                    else Utf8Bad 2
                | [] \<Rightarrow> Utf8Bad 2)
             else Utf8Bad 1
         | [] \<Rightarrow> Utf8Bad 1)
      else Utf8Bad 1)"

declare utf8_next.simps [simp del]

function utf8_decode :: "nat list \<Rightarrow> rstr option" where
  "utf8_decode [] = Some []"
| "utf8_decode (b # bs) =
     (case utf8_next b bs of
        Utf8Char c n \<Rightarrow> map_option (Cons c) (utf8_decode (drop (n - 1) bs))
      | Utf8Bad _ \<Rightarrow> None)"
  by pat_completeness auto
termination
  by (relation "measure length") auto

function utf8_decode_lossy :: "nat list \<Rightarrow> rstr" where
  "utf8_decode_lossy [] = []"
| "utf8_decode_lossy (b # bs) =
     (case utf8_next b bs of
        Utf8Char c n \<Rightarrow> c # utf8_decode_lossy (drop (n - 1) bs)
      | Utf8Bad n \<Rightarrow> 0xFFFD # utf8_decode_lossy (drop (n - 1) bs))"
  by pat_completeness auto
termination
  by (relation "measure length") auto

definition from_utf8 :: "u8 list \<Rightarrow> rstr option" where
  "from_utf8 bs = utf8_decode (map unat bs)"

definition from_utf8_lossy :: "u8 list \<Rightarrow> rstr" where
  "from_utf8_lossy bs = utf8_decode_lossy (map unat bs)"

text \<open>The bytes of an ASCII text, and \<open>Path::display\<close> of a Unix path.\<close>

definition ascii_bytes :: "rstr \<Rightarrow> u8 list" where
  "ascii_bytes s = map of_nat s"

definition path_display :: "path \<Rightarrow> rstr" where
  "path_display p = utf8_decode_lossy (map of_char p)"

lemma utf8_next_ascii: "b < 0x80 \<Longrightarrow> utf8_next b bs = Utf8Char b 1"
  by (simp add: utf8_next.simps)

lemma utf8_decode_ascii_append:
  "\<forall>b \<in> set xs. b < 0x80 \<Longrightarrow> utf8_decode (xs @ ys) = map_option ((@) xs) (utf8_decode ys)"
  by (cases "utf8_decode ys"; induction xs) (auto simp: utf8_next_ascii)

lemma utf8_decode_ascii: "\<forall>b \<in> set xs. b < 0x80 \<Longrightarrow> utf8_decode xs = Some xs"
  using utf8_decode_ascii_append [of xs "[]"] by simp

lemma map_unat_ascii_bytes: "\<forall>c \<in> set s. c < 0x80 \<Longrightarrow> map unat (ascii_bytes s) = s"
  by (induction s) (auto simp: ascii_bytes_def unat_of_nat take_bit_nat_eq_self)

lemma from_utf8_ascii: "\<forall>c \<in> set s. c < 0x80 \<Longrightarrow> from_utf8 (ascii_bytes s) = Some s"
  by (simp add: from_utf8_def map_unat_ascii_bytes utf8_decode_ascii)

text \<open>Where strict decoding succeeds, lossy decoding replaces nothing.\<close>

lemma utf8_decode_lossy_eq: "utf8_decode bs = Some s \<Longrightarrow> utf8_decode_lossy bs = s"
  by (induction bs arbitrary: s rule: utf8_decode.induct) (auto split: utf8_item.splits)


subsection \<open>Trimming and lines\<close>

text \<open>\<open>char::is_whitespace\<close>: the code points with the Unicode property White\_Space.\<close>

definition is_whitespace :: "nat \<Rightarrow> bool" where
  "is_whitespace c \<longleftrightarrow>
     (9 \<le> c \<and> c \<le> 13) \<or> c = 0x20 \<or> c = 0x85 \<or> c = 0xA0 \<or> c = 0x1680 \<or>
     (0x2000 \<le> c \<and> c \<le> 0x200A) \<or> c = 0x2028 \<or> c = 0x2029 \<or> c = 0x202F \<or> c = 0x205F \<or>
     c = 0x3000"

definition trim :: "rstr \<Rightarrow> rstr" where
  "trim s = rev (dropWhile is_whitespace (rev (dropWhile is_whitespace s)))"

text \<open>
  \<open>str::lines\<close>: the pieces ended by a newline, without it and without a carriage return
  before it; a last piece without a newline counts when it is not empty, and keeps a final
  carriage return.
\<close>

fun split_newlines :: "rstr \<Rightarrow> rstr \<Rightarrow> rstr list" where
  "split_newlines acc [] = (if acc = [] then [] else [rev acc])"
| "split_newlines acc (c # cs) =
     (if c = 10 then
        rev (case acc of a # acc' \<Rightarrow> if a = 13 then acc' else acc | [] \<Rightarrow> []) # split_newlines [] cs
      else split_newlines (c # acc) cs)"

definition str_lines :: "rstr \<Rightarrow> rstr list" where
  "str_lines s = split_newlines [] s"

lemma split_newlines_line:
  "10 \<notin> set s \<Longrightarrow> split_newlines acc (s @ [10]) =
     [rev (case rev s @ acc of a # r \<Rightarrow> if a = 13 then r else a # r | [] \<Rightarrow> [])]"
  by (induction s arbitrary: acc) (auto split: list.splits)

text \<open>A line without a newline or a final carriage return, and its newline.\<close>

lemma str_lines_single:
  assumes "10 \<notin> set s" "s = [] \<or> last s \<noteq> 13"
  shows "str_lines (s @ [10]) = [s]"
proof (cases "rev s")
  case Nil
  then show ?thesis by (simp add: str_lines_def)
next
  case (Cons a r)
  then have s: "s = rev r @ [a]" by (metis rev.simps(2) rev_rev_ident)
  show ?thesis
    unfolding str_lines_def split_newlines_line [OF assms(1)] using assms(2) by (simp add: s)
qed

lemma trim_decompose:
  "\<exists>l r. s = l @ trim s @ r \<and> (\<forall>c \<in> set l. is_whitespace c) \<and> (\<forall>c \<in> set r. is_whitespace c)"
proof -
  define t where "t = dropWhile is_whitespace s"
  have s: "s = takeWhile is_whitespace s @ t"
    by (simp add: t_def)
  have "rev t = takeWhile is_whitespace (rev t) @ dropWhile is_whitespace (rev t)"
    by simp
  then have "rev (rev t) = rev (takeWhile is_whitespace (rev t) @ dropWhile is_whitespace (rev t))"
    by (rule arg_cong)
  then have t: "t = trim s @ rev (takeWhile is_whitespace (rev t))"
    by (simp only: rev_rev_ident rev_append) (simp add: trim_def t_def)
  have "s = takeWhile is_whitespace s @ trim s @ rev (takeWhile is_whitespace (rev t))"
    using s t by simp
  moreover have "\<forall>c \<in> set (takeWhile is_whitespace s). is_whitespace c"
    and "\<forall>c \<in> set (rev (takeWhile is_whitespace (rev t))). is_whitespace c"
    by (auto dest: set_takeWhileD)
  ultimately show ?thesis by blast
qed

lemma trim_id:
  assumes "s = [] \<or> \<not> is_whitespace (hd s) \<and> \<not> is_whitespace (last s)"
  shows "trim s = s"
proof (cases s)
  case Nil
  then show ?thesis by (simp add: trim_def)
next
  case (Cons c cs)
  with assms have "dropWhile is_whitespace s = s" by simp
  moreover from Cons assms have "dropWhile is_whitespace (rev s) = rev s"
    by (metis dropWhile_eq_self_iff hd_rev list.distinct(1) rev_is_Nil_conv)
  ultimately show ?thesis by (simp add: trim_def)
qed

lemma trim_ws_left: "\<forall>c \<in> set l. is_whitespace c \<Longrightarrow> trim (l @ s) = trim s"
  by (simp add: trim_def)

lemma trim_ws_right: "\<forall>c \<in> set r. is_whitespace c \<Longrightarrow> trim (s @ r) = trim s"
  by (cases "\<forall>c \<in> set s. is_whitespace c") (auto simp: trim_def dropWhile_append dropWhile_append3 dropWhile_eq_Nil_conv [THEN iffD2])

lemma trim_eq_Nil_iff: "trim s = [] \<longleftrightarrow> (\<forall>c \<in> set s. is_whitespace c)"
  by (auto simp: trim_def dropWhile_eq_Nil_conv dest: set_dropWhileD)
     (metis in_set_conv_decomp dropWhile_append3 list.set_intros(1) append_is_Nil_conv
        dropWhile_eq_Nil_conv)


subsection \<open>Decimal numbers\<close>

definition is_digit :: "nat \<Rightarrow> bool" where
  "is_digit c \<longleftrightarrow> 48 \<le> c \<and> c \<le> 57"

definition digit_val :: "nat \<Rightarrow> nat" where
  "digit_val c = c - 48"

lemma digit_val_less: "is_digit c \<Longrightarrow> digit_val c < 10"
  by (auto simp: is_digit_def digit_val_def)

lemma is_digitE:
  assumes "is_digit c"
  obtains e where "e < 10" "c = 48 + e" "digit_val c = e"
  using assms by (auto simp: is_digit_def digit_val_def intro: that [of "c - 48"])

lemma digit_val_add [simp]: "digit_val (48 + e) = e"
  by (simp add: digit_val_def)

fun dec_nat :: "nat \<Rightarrow> rstr" where
  "dec_nat n = (if n < 10 then [48 + n] else dec_nat (n div 10) @ [48 + n mod 10])"

declare dec_nat.simps [simp del]

definition dec_value :: "nat \<Rightarrow> rstr \<Rightarrow> nat" where
  "dec_value = foldl (\<lambda>a c. a * 10 + digit_val c)"

lemma dec_value_Nil [simp]: "dec_value a [] = a"
  by (simp add: dec_value_def)

lemma dec_value_Cons [simp]: "dec_value a (c # cs) = dec_value (a * 10 + digit_val c) cs"
  by (simp add: dec_value_def)

lemma dec_value_snoc [simp]: "dec_value a (cs @ [c]) = dec_value a cs * 10 + digit_val c"
  by (simp add: dec_value_def)

lemma dec_value_ge: "a \<le> dec_value a cs"
proof (induction cs arbitrary: a)
  case Nil
  then show ?case by simp
next
  case (Cons c cs)
  have "a \<le> a * 10 + digit_val c" by simp
  also have "\<dots> \<le> dec_value (a * 10 + digit_val c) cs" by (rule Cons.IH)
  finally show ?case by simp
qed

lemma dec_nat_digits: "c \<in> set (dec_nat n) \<Longrightarrow> is_digit c"
proof (induction n rule: dec_nat.induct)
  case (1 n)
  then show ?case
    by (cases "n < 10") (auto simp: dec_nat.simps [of n] is_digit_def)
qed

lemma dec_value_dec_nat [simp]: "dec_value 0 (dec_nat n) = n"
proof (induction n rule: dec_nat.induct)
  case (1 n)
  then show ?case
    by (cases "n < 10") (simp_all add: dec_nat.simps [of n])
qed

lemma dec_nat_nonempty [simp]: "dec_nat n \<noteq> []"
  by (subst dec_nat.simps) simp

lemma hd_dec_nat_0: "hd (dec_nat n) = 48 \<longleftrightarrow> n = 0"
proof (induction n rule: dec_nat.induct)
  case (1 n)
  then show ?case
    by (cases "n < 10") (auto simp: dec_nat.simps [of n] hd_append)
qed

lemma length_dec_nat_le: "n < 10 ^ k \<Longrightarrow> 0 < k \<Longrightarrow> length (dec_nat n) \<le> k"
proof (induction k arbitrary: n)
  case 0
  then show ?case by simp
next
  case (Suc k)
  show ?case
  proof (cases "n < 10")
    case True
    then show ?thesis by (simp add: dec_nat.simps [of n])
  next
    case False
    with Suc.prems have "0 < k" by (cases k) auto
    moreover have "n div 10 < 10 ^ k"
      using Suc.prems(1) by (simp add: less_mult_imp_div_less)
    ultimately have "length (dec_nat (n div 10)) \<le> k"
      using Suc.IH by blast
    with False show ?thesis by (simp add: dec_nat.simps [of n])
  qed
qed

text \<open>A digit sequence without a superfluous leading zero is what printing its value gives.\<close>

lemma dec_nat_dec_value:
  "\<forall>c \<in> set ds. is_digit c \<Longrightarrow> ds \<noteq> [] \<Longrightarrow> (hd ds = 48 \<longrightarrow> length ds = 1) \<Longrightarrow>
     dec_nat (dec_value 0 ds) = ds"
proof (induction ds rule: rev_induct)
  case Nil
  then show ?case by simp
next
  case (snoc d ds)
  show ?case
  proof (cases "ds = []")
    case True
    with snoc.prems show ?thesis by (auto simp: dec_nat.simps elim!: is_digitE)
  next
    case False
    then have hd: "hd ds \<noteq> 48" using snoc.prems(3) by (auto simp: hd_append)
    with False snoc have IH: "dec_nat (dec_value 0 ds) = ds" by auto
    with hd have "dec_value 0 ds \<noteq> 0" using hd_dec_nat_0 by metis
    moreover obtain e where "e < 10" "d = 48 + e" "digit_val d = e"
      using snoc.prems(1) by (auto elim: is_digitE)
    ultimately show ?thesis
      by (subst dec_nat.simps) (simp add: IH)
  qed
qed

lemma takeWhile_dec_nat:
  "r = [] \<or> \<not> is_digit (hd r) \<Longrightarrow> takeWhile is_digit (dec_nat n @ r) = dec_nat n"
  "r = [] \<or> \<not> is_digit (hd r) \<Longrightarrow> dropWhile is_digit (dec_nat n @ r) = r"
  by (cases r; simp add: dec_nat_digits takeWhile_append2 dropWhile_append2)+

lemma is_digit_not_whitespace: "is_digit c \<Longrightarrow> \<not> is_whitespace c"
  by (auto simp: is_digit_def is_whitespace_def)

lemma trim_dec_nat [simp]: "trim (dec_nat n) = dec_nat n"
  by (rule trim_id) (simp add: is_digit_not_whitespace dec_nat_digits [of _ n])


subsection \<open>Parsing a 16-bit unsigned integer\<close>

text \<open>
  \<open>u16::from_str\<close>: an optional plus sign, then decimal digits accumulated with checked
  arithmetic; a lone sign, any other character and the empty text are errors.
\<close>

datatype int_error_kind = IntEmpty | InvalidDigit | PosOverflow

fun parse_u16_digits :: "rstr \<Rightarrow> u16 \<Rightarrow> (u16, int_error_kind) result" where
  "parse_u16_digits [] acc = Ok acc"
| "parse_u16_digits (c # cs) acc =
     (if \<not> is_digit c then Err InvalidDigit
      else case checked_mul acc 10 of
        None \<Rightarrow> Err PosOverflow
      | Some m \<Rightarrow> (case checked_add m (of_nat (digit_val c)) of
          None \<Rightarrow> Err PosOverflow
        | Some a \<Rightarrow> parse_u16_digits cs a))"

fun parse_u16 :: "rstr \<Rightarrow> (u16, int_error_kind) result" where
  "parse_u16 [] = Err IntEmpty"
| "parse_u16 [c] = (if c = 43 \<or> c = 45 then Err InvalidDigit else parse_u16_digits [c] 0)"
| "parse_u16 (c # cs) = (if c = 43 then parse_u16_digits cs 0 else parse_u16_digits (c # cs) 0)"

lemma unat_digit: "is_digit c \<Longrightarrow> unat (of_nat (digit_val c) :: u16) = digit_val c"
  by (drule digit_val_less) (simp add: unat_of_nat take_bit_nat_eq_self)

lemma parse_u16_digits_Ok_iff:
  "parse_u16_digits cs acc = Ok v \<longleftrightarrow>
     (\<forall>c \<in> set cs. is_digit c) \<and> unat v = dec_value (unat acc) cs"
proof (induction cs arbitrary: acc)
  case Nil
  then show ?case by (auto simp: word_unat_eq_iff)
next
  case (Cons c cs)
  show ?case
  proof (cases "is_digit c \<and> unat acc * 10 + digit_val c < 65536")
    case True
    then have d: "unat (of_nat (digit_val c) :: u16) = digit_val c"
      and m: "checked_mul acc 10 = Some (acc * 10)" and um: "unat (acc * 10) = unat acc * 10"
      by (auto simp: unat_digit checked_mul_def unat_word_ariths)
    with True have a: "checked_add (acc * 10) (of_nat (digit_val c)) = Some (acc * 10 + of_nat (digit_val c))"
      and ua: "unat (acc * 10 + of_nat (digit_val c)) = unat acc * 10 + digit_val c"
      by (auto simp: checked_add_def unat_word_ariths)
    from True m a ua Cons.IH show ?thesis by simp
  next
    case False
    then consider "\<not> is_digit c" | "is_digit c" "65536 \<le> unat acc * 10 + digit_val c" by linarith
    then show ?thesis
    proof cases
      case 1
      then show ?thesis by simp
    next
      case 2
      have "65536 \<le> dec_value (unat acc * 10 + digit_val c) cs"
        using 2(2) dec_value_ge le_trans by blast
      moreover have "unat v < 65536" using unsigned_less [of v] by simp
      moreover have "parse_u16_digits (c # cs) acc = Err PosOverflow"
        using 2 by (auto simp: checked_mul_def checked_add_def unat_word_ariths unat_digit
            split: option.splits)
      ultimately show ?thesis by simp
    qed
  qed
qed

text \<open>The texts \<open>u16::from_str\<close> accepts, as a grammar.\<close>

lemma parse_u16_Ok_iff:
  "parse_u16 s = Ok v \<longleftrightarrow>
     (\<exists>ds. (s = ds \<or> s = 43 # ds) \<and> ds \<noteq> [] \<and> (\<forall>c \<in> set ds. is_digit c) \<and>
        unat v = dec_value 0 ds)"
proof (cases s rule: parse_u16.cases)
  case 1
  then show ?thesis by simp
next
  case (2 c)
  then show ?thesis
    by (auto simp: parse_u16_digits_Ok_iff is_digit_def simp del: parse_u16_digits.simps)
next
  case (3 c d cs)
  show ?thesis
  proof (cases "c = 43")
    case True
    then have "\<not> is_digit c" by (simp add: is_digit_def)
    with 3 True show ?thesis
      by (auto simp: parse_u16_digits_Ok_iff simp del: parse_u16_digits.simps
          intro!: exI [of _ "d # cs"])
  next
    case False
    with 3 show ?thesis
      by (auto simp: parse_u16_digits_Ok_iff simp del: parse_u16_digits.simps)
  qed
qed

lemma parse_u16_dec_nat:
  assumes "n < 65536"
  shows "parse_u16 (dec_nat n) = Ok (of_nat n)"
  unfolding parse_u16_Ok_iff using assms
  by (intro exI [of _ "dec_nat n"]) (simp add: dec_nat_digits unat_of_nat take_bit_nat_eq_self)



subsection \<open>IPv4 addresses\<close>

text \<open>
  \<open>Ipv4Addr::from_str\<close>: four decimal groups of one to three digits, at most 255 and without
  a leading zero, separated by dots, with nothing after them; a text of more than fifteen bytes
  is refused first.
\<close>

type_synonym ipv4 = "u8 \<times> u8 \<times> u8 \<times> u8"

definition char_width :: "nat \<Rightarrow> nat" where
  "char_width c = (if c < 0x80 then 1 else if c < 0x800 then 2 else if c < 0x10000 then 3 else 4)"

definition str_len :: "rstr \<Rightarrow> nat" where
  "str_len s = sum_list (map char_width s)"

definition read_octet :: "rstr \<Rightarrow> (u8 \<times> rstr) option" where
  "read_octet s =
     (let ds = takeWhile is_digit s; v = dec_value 0 ds
      in if ds = [] \<or> 3 < length ds \<or> (hd ds = 48 \<and> 1 < length ds) \<or> 255 < v then None
         else Some (of_nat v, dropWhile is_digit s))"

fun read_dot_octet :: "rstr \<Rightarrow> (u8 \<times> rstr) option" where
  "read_dot_octet [] = None"
| "read_dot_octet (c # s) = (if c = 46 then read_octet s else None)"

definition parse_ipv4_addr :: "rstr \<Rightarrow> ipv4 option" where
  "parse_ipv4_addr s =
     (if 15 < str_len s then None
      else case read_octet s of None \<Rightarrow> None
      | Some (a, s1) \<Rightarrow> (case read_dot_octet s1 of None \<Rightarrow> None
      | Some (b, s2) \<Rightarrow> (case read_dot_octet s2 of None \<Rightarrow> None
      | Some (c, s3) \<Rightarrow> (case read_dot_octet s3 of None \<Rightarrow> None
      | Some (d, s4) \<Rightarrow> if s4 = [] then Some (a, b, c, d) else None))))"

fun show_ipv4 :: "ipv4 \<Rightarrow> rstr" where
  "show_ipv4 (a, b, c, d) =
     dec_nat (unat a) @ 46 # dec_nat (unat b) @ 46 # dec_nat (unat c) @ 46 # dec_nat (unat d)"

lemma not_digit_46 [simp]: "\<not> is_digit 46"
  by (simp add: is_digit_def)

lemma not_whitespace_46 [simp]: "\<not> is_whitespace 46"
  by (simp add: is_whitespace_def)

lemma unat_u8_less: "unat (a :: u8) < 256"
  using unsigned_less [of a] by simp

lemma read_octet_show:
  assumes "r = [] \<or> \<not> is_digit (hd r)"
  shows "read_octet (dec_nat (unat a) @ r) = Some (a, r)"
proof -
  have "length (dec_nat (unat a)) \<le> 3"
    using unat_u8_less [of a] by (intro length_dec_nat_le) auto
  moreover have "unat a \<le> 255"
    using unat_u8_less [of a] by linarith
  moreover have "\<not> (hd (dec_nat (unat a)) = 48 \<and> 1 < length (dec_nat (unat a)))"
    by (cases "unat a = 0") (simp_all add: hd_dec_nat_0 dec_nat.simps [of 0])
  ultimately show ?thesis
    using assms by (simp add: read_octet_def takeWhile_dec_nat Let_def)
qed

lemma read_octet_Some:
  assumes "read_octet s = Some (a, r)"
  shows "s = dec_nat (unat a) @ r"
proof -
  define ds where "ds = takeWhile is_digit s"
  from assms have "ds \<noteq> []" and lead: "hd ds = 48 \<longrightarrow> length ds = 1"
    and v: "dec_value 0 ds \<le> 255" and a: "a = of_nat (dec_value 0 ds)"
    and r: "r = dropWhile is_digit s"
    by (auto simp: read_octet_def ds_def Let_def not_less le_Suc_eq split: if_splits)
  moreover have "\<forall>c \<in> set ds. is_digit c"
    by (auto simp: ds_def dest: set_takeWhileD)
  moreover have "unat a = dec_value 0 ds"
    using v by (simp add: a unat_of_nat take_bit_nat_eq_self)
  ultimately have "dec_nat (unat a) = ds"
    by (simp add: dec_nat_dec_value)
  then show ?thesis
    by (simp add: r ds_def)
qed

lemma read_dot_octet_Some: "read_dot_octet s = Some (a, r) \<Longrightarrow> s = 46 # dec_nat (unat a) @ r"
  by (cases s) (auto dest: read_octet_Some split: if_splits)

lemma str_len_digits: "\<forall>c \<in> set ds. is_digit c \<Longrightarrow> str_len ds = length ds"
  by (induction ds) (auto simp: str_len_def char_width_def is_digit_def)

lemma str_len_append [simp]: "str_len (s @ t) = str_len s + str_len t"
  by (simp add: str_len_def)

lemma str_len_octet: "str_len (dec_nat (unat (a :: u8))) \<le> 3"
proof -
  have "length (dec_nat (unat a)) \<le> 3"
    using unat_u8_less [of a] by (intro length_dec_nat_le) auto
  then show ?thesis by (simp add: str_len_digits dec_nat_digits)
qed

lemma str_len_show_ipv4: "str_len (show_ipv4 x) \<le> 15"
proof (cases x)
  case (fields a b c d)
  have "str_len (46 # s) = Suc (str_len s)" for s
    by (simp add: str_len_def char_width_def)
  with str_len_octet [of a] str_len_octet [of b] str_len_octet [of c] str_len_octet [of d]
  show ?thesis by (simp add: fields)
qed

text \<open>The parser accepts exactly the printed addresses.\<close>

lemma parse_ipv4_addr_iff: "parse_ipv4_addr s = Some x \<longleftrightarrow> s = show_ipv4 x"
proof
  assume "parse_ipv4_addr s = Some x"
  then obtain a b c d s1 s2 s3 where "x = (a, b, c, d)"
    and "read_octet s = Some (a, s1)" "read_dot_octet s1 = Some (b, s2)"
    and "read_dot_octet s2 = Some (c, s3)" "read_dot_octet s3 = Some (d, [])"
    by (auto simp: parse_ipv4_addr_def split: if_splits option.splits prod.splits)
  then show "s = show_ipv4 x"
    by (auto dest!: read_octet_Some read_dot_octet_Some)
next
  assume s: "s = show_ipv4 x"
  obtain a b c d where x: "x = (a, b, c, d)" by (cases x)
  have "read_octet (dec_nat (unat d)) = Some (d, [])"
    using read_octet_show [of "[]" d] by simp
  then show "parse_ipv4_addr s = Some x"
    using str_len_show_ipv4 [of x] by (simp add: parse_ipv4_addr_def s x read_octet_show)
qed

lemma show_ipv4_no_whitespace: "c \<in> set (show_ipv4 x) \<Longrightarrow> \<not> is_whitespace c"
  by (cases x) (auto dest!: dec_nat_digits is_digit_not_whitespace)

declare show_ipv4.simps [simp del]

end
