(* ===== verification/Agent_Metadata.thy ===== *)
theory Agent_Metadata
  imports Rust_Text
begin

section \<open>The Gpg4win redirect file (src/agent.rs, lines 13 to 118)\<close>

text \<open>
  The redirect file holds a loopback port in decimal text followed by a 16-byte nonce.
  \<open>parse_metadata\<close> is the pure parser, \<open>load_metadata\<close> reads the file with a bound on its
  size.  The file operations are those of \<open>tokio::fs\<close>, a parameter of the model.
\<close>

definition MAX_REDIRECT_FILE_SIZE :: nat where
  "MAX_REDIRECT_FILE_SIZE = 128"

datatype agent_error =
    MetadataIo path io_error
  | MetadataTooLarge path
  | MetadataTooShort
  | InvalidPortEncoding
  | EmptyPort
  | InvalidPort
  | ZeroPort
  | AgentConnect io_error
  | ConnectTimeout
  | UnixConnect path io_error
  | StartupWindowExpired rstr

text \<open>The \<open>Display\<close> texts of the \<open>#[error(...)]\<close> attributes.\<close>

fun agent_error_display :: "agent_error \<Rightarrow> rstr" where
  "agent_error_display (MetadataIo p e) =
     lit ''failed to inspect Gpg4win redirect file '' @ path_display p @ lit '': '' @ io_message e"
| "agent_error_display (MetadataTooLarge p) =
     lit ''Gpg4win redirect file '' @ path_display p @ lit '' is too large''"
| "agent_error_display MetadataTooShort =
     lit ''Gpg4win redirect file is shorter than its 16-byte nonce''"
| "agent_error_display InvalidPortEncoding =
     lit ''Gpg4win redirect file port prefix is not valid UTF-8''"
| "agent_error_display EmptyPort = lit ''Gpg4win redirect file port prefix is empty''"
| "agent_error_display InvalidPort = lit ''Gpg4win redirect file contains an invalid TCP port''"
| "agent_error_display ZeroPort = lit ''Gpg4win redirect file contains TCP port zero''"
| "agent_error_display (AgentConnect e) =
     lit ''failed to connect to the local Gpg4win agent: '' @ io_message e"
| "agent_error_display ConnectTimeout = lit ''timed out connecting to the local Gpg4win agent''"
| "agent_error_display (UnixConnect p e) =
     lit ''failed to connect to the local Unix GnuPG agent socket '' @ path_display p @ lit '': ''
       @ io_message e"
| "agent_error_display (StartupWindowExpired s) =
     lit ''interactive Gpg4win agent did not become ready within the retry window: '' @ s"

record agent_metadata =
  md_port :: u16
  md_nonce :: "u8 list"

definition parse_metadata :: "u8 list \<Rightarrow> (agent_metadata, agent_error) result" where
  "parse_metadata contents =
     (if length contents < 16 then Err MetadataTooShort
      else case from_utf8 (take (length contents - 16) contents) of
        None \<Rightarrow> Err InvalidPortEncoding
      | Some text \<Rightarrow>
          (let port_text = trim text
           in if port_text = [] then Err EmptyPort
              else case parse_u16 port_text of
                Err _ \<Rightarrow> Err InvalidPort
              | Ok port \<Rightarrow>
                  if port = 0 then Err ZeroPort
                  else Ok \<lparr>md_port = port, md_nonce = drop (length contents - 16) contents\<rparr>))"

text \<open>
  The file operations: the length \<open>tokio::fs::metadata\<close> reports, opening, and
  \<open>file.take(limit).read_to_end\<close>.
\<close>

record ('w, 'h) file_ops =
  f_metadata_len :: "path \<Rightarrow> ('w, u64, io_error) io"
  f_open :: "path \<Rightarrow> ('w, 'h, io_error) io"
  f_read_limited :: "'h \<Rightarrow> nat \<Rightarrow> ('w, u8 list, io_error) io"

definition load_metadata ::
  "('w, 'h, 'x) file_ops_scheme \<Rightarrow> path \<Rightarrow> ('w, agent_metadata, agent_error) io" where
  "load_metadata ops p =
     bind_io (map_err_io (MetadataIo p) (f_metadata_len ops p)) (\<lambda>len.
       if MAX_REDIRECT_FILE_SIZE < unat len then return_io (Err (MetadataTooLarge p))
       else bind_io (map_err_io (MetadataIo p) (f_open ops p)) (\<lambda>file.
         bind_io (map_err_io (MetadataIo p) (f_read_limited ops file (MAX_REDIRECT_FILE_SIZE + 1)))
           (\<lambda>contents.
             if MAX_REDIRECT_FILE_SIZE < length contents
             then return_io (Err (MetadataTooLarge p))
             else return_io (parse_metadata contents))))"


subsection \<open>The parser against its grammar\<close>

text \<open>
  The layout of the file: port text that decodes, with optional white space around an optional
  plus sign and decimal digits of value \<open>n\<close>, then any sixteen bytes.
\<close>

definition signed_digits :: "rstr \<Rightarrow> nat \<Rightarrow> bool" where
  "signed_digits t n \<longleftrightarrow>
     (\<exists>ds. (t = ds \<or> t = 43 # ds) \<and> ds \<noteq> [] \<and> (\<forall>c \<in> set ds. is_digit c) \<and>
        dec_value 0 ds = n)"

definition redirect_layout :: "u8 list \<Rightarrow> nat \<Rightarrow> u8 list \<Rightarrow> bool" where
  "redirect_layout contents n nonce \<longleftrightarrow>
     length nonce = 16 \<and>
     (\<exists>prefix l t r.
        contents = prefix @ nonce \<and> from_utf8 prefix = Some (l @ t @ r) \<and>
        (\<forall>c \<in> set (l @ r). is_whitespace c) \<and> signed_digits t n)"

lemma parse_u16_signed_digits: "parse_u16 t = Ok v \<longleftrightarrow> signed_digits t (unat v)"
  by (auto simp: parse_u16_Ok_iff signed_digits_def)

lemma parse_u16_signed_digits_less:
  assumes "signed_digits t n" "n < 65536"
  shows "parse_u16 t = Ok (of_nat n)"
  using assms by (simp add: parse_u16_signed_digits unat_of_nat take_bit_nat_eq_self)

lemma signed_digits_inj: "signed_digits t n \<Longrightarrow> signed_digits t k \<Longrightarrow> n = k"
  by (auto simp: signed_digits_def is_digit_def)

lemma trim_signed_digits: "signed_digits t n \<Longrightarrow> trim t = t"
proof -
  assume "signed_digits t n"
  then obtain ds where t: "t = ds \<or> t = 43 # ds"
    and ds: "ds \<noteq> []" "\<forall>c \<in> set ds. is_digit c"
    by (auto simp: signed_digits_def)
  have "\<not> is_whitespace 43" by (simp add: is_whitespace_def)
  moreover have "\<not> is_whitespace (hd ds)" "\<not> is_whitespace (last ds)"
    using ds by (simp_all add: is_digit_not_whitespace)
  ultimately show "trim t = t"
    using t ds(1) by (intro trim_id) auto
qed

text \<open>On a file of at least sixteen bytes the layout is decided by the trimmed prefix.\<close>

lemma redirect_layout_iff:
  assumes "16 \<le> length contents"
  shows "redirect_layout contents n nonce \<longleftrightarrow>
     nonce = drop (length contents - 16) contents \<and>
     (\<exists>s. from_utf8 (take (length contents - 16) contents) = Some s \<and> signed_digits (trim s) n)"
proof
  assume "redirect_layout contents n nonce"
  then obtain prefix l t r where c: "contents = prefix @ nonce" "length nonce = 16"
    and s: "from_utf8 prefix = Some (l @ t @ r)"
    and ws: "\<forall>c \<in> set l. is_whitespace c" "\<forall>c \<in> set r. is_whitespace c"
    and t: "signed_digits t n"
    unfolding redirect_layout_def by auto
  have "trim (l @ t @ r) = t"
    using ws trim_signed_digits [OF t] by (simp add: trim_ws_left trim_ws_right)
  with c s t show "nonce = drop (length contents - 16) contents \<and>
     (\<exists>s. from_utf8 (take (length contents - 16) contents) = Some s \<and> signed_digits (trim s) n)"
    by simp
next
  assume "nonce = drop (length contents - 16) contents \<and>
     (\<exists>s. from_utf8 (take (length contents - 16) contents) = Some s \<and> signed_digits (trim s) n)"
  then obtain s where n: "nonce = drop (length contents - 16) contents"
    and s: "from_utf8 (take (length contents - 16) contents) = Some s"
    and t: "signed_digits (trim s) n"
    by blast
  obtain l r where "s = l @ trim s @ r" "\<forall>c \<in> set (l @ r). is_whitespace c"
    using trim_decompose [of s] by auto
  moreover have "contents = take (length contents - 16) contents @ nonce" using n by simp
  ultimately show "redirect_layout contents n nonce"
    unfolding redirect_layout_def using assms n s t by (metis diff_diff_cancel length_drop)
qed

lemma parse_metadata_Ok_iff:
  "parse_metadata contents = Ok m \<longleftrightarrow>
     redirect_layout contents (unat (md_port m)) (md_nonce m) \<and> md_port m \<noteq> 0"
proof (cases "16 \<le> length contents")
  case True
  have "\<not> signed_digits [] n" for n by (auto simp: signed_digits_def)
  with True show ?thesis
    by (auto simp: parse_metadata_def redirect_layout_iff parse_u16_signed_digits [symmetric]
        Let_def split: option.splits result.splits if_splits)
next
  case False
  then show ?thesis by (auto simp: parse_metadata_def redirect_layout_def)
qed

lemma parse_metadata_ZeroPort_iff:
  "parse_metadata contents = Err ZeroPort \<longleftrightarrow> (\<exists>nonce. redirect_layout contents 0 nonce)"
proof (cases "16 \<le> length contents")
  case True
  have "\<not> signed_digits [] n" for n by (auto simp: signed_digits_def)
  moreover have "signed_digits t 0 \<longleftrightarrow> parse_u16 t = Ok 0" for t
    by (simp add: parse_u16_signed_digits)
  ultimately show ?thesis
    using True by (auto simp: parse_metadata_def redirect_layout_iff Let_def
        split: option.splits result.splits if_splits)
next
  case False
  then show ?thesis by (auto simp: parse_metadata_def redirect_layout_def)
qed


text \<open>The errors, in the order of the checks.\<close>

lemma parse_u16_fails_iff: "(\<exists>k. parse_u16 t = Err k) \<longleftrightarrow> (\<nexists>n. n < 65536 \<and> signed_digits t n)"
proof (cases "parse_u16 t")
  case (Ok v)
  then have "signed_digits t (unat v)" by (simp add: parse_u16_signed_digits)
  moreover have "unat v < 65536" using unsigned_less [of v] by simp
  ultimately show ?thesis using Ok by auto
next
  case (Err k)
  then have "\<not> signed_digits t n" if "n < 65536" for n
    using parse_u16_signed_digits_less [OF _ that] by force
  with Err show ?thesis by auto
qed

definition redirect_error :: "u8 list \<Rightarrow> agent_error \<Rightarrow> bool" where
  "redirect_error contents e \<longleftrightarrow>
     (if length contents < 16 then e = MetadataTooShort
      else case from_utf8 (take (length contents - 16) contents) of
        None \<Rightarrow> e = InvalidPortEncoding
      | Some s \<Rightarrow>
          if list_all is_whitespace s then e = EmptyPort
          else if \<exists>nonce. redirect_layout contents 0 nonce then e = ZeroPort
          else e = InvalidPort \<and> (\<nexists>n nonce. n < 65536 \<and> redirect_layout contents n nonce))"

lemma parse_metadata_Err_iff: "parse_metadata contents = Err e \<longleftrightarrow> redirect_error contents e"
proof (cases "16 \<le> length contents")
  case False
  then show ?thesis by (auto simp: parse_metadata_def redirect_error_def)
next
  case long: True
  show ?thesis
  proof (cases "from_utf8 (take (length contents - 16) contents)")
    case None
    with long show ?thesis by (auto simp: parse_metadata_def redirect_error_def)
  next
    case (Some s)
    define t where "t = trim s"
    have layout: "redirect_layout contents n nonce \<longleftrightarrow>
        nonce = drop (length contents - 16) contents \<and> signed_digits t n" for n nonce
      using long Some by (simp add: redirect_layout_iff t_def)
    have empty: "t = [] \<longleftrightarrow> list_all is_whitespace s"
      by (simp add: t_def trim_eq_Nil_iff list_all_iff)
    have zero: "signed_digits t 0 \<longleftrightarrow> parse_u16 t = Ok 0"
      by (simp add: parse_u16_signed_digits)
    have some_layout: "(\<exists>nonce. redirect_layout contents n nonce) \<longleftrightarrow> signed_digits t n" for n
      by (simp only: layout) simp
    have spec: "redirect_error contents e \<longleftrightarrow>
       (if t = [] then e = EmptyPort else if parse_u16 t = Ok 0 then e = ZeroPort
        else e = InvalidPort \<and> (\<exists>k. parse_u16 t = Err k))"
      using long Some zero by (simp add: redirect_error_def some_layout empty [symmetric]
          parse_u16_fails_iff del: not_ex)
    show ?thesis
      unfolding spec using long Some
      by (auto simp: parse_metadata_def t_def Let_def split: result.splits)
  qed
qed


text \<open>What Gpg4win writes is read back.\<close>

lemma parse_metadata_written:
  assumes "port \<noteq> 0" "length nonce = 16"
    and "list_all (\<lambda>c. is_whitespace c \<and> c < 0x80) (l @ r)"
  shows "parse_metadata (ascii_bytes (l @ dec_nat (unat port) @ r) @ nonce) =
     Ok \<lparr>md_port = port, md_nonce = nonce\<rparr>"
proof -
  have "c < 0x80" if "is_digit c" for c using that by (simp add: is_digit_def)
  then have "\<forall>c \<in> set (l @ dec_nat (unat port) @ r). c < 0x80"
    using assms(3) dec_nat_digits by (auto simp: list_all_iff)
  then have "from_utf8 (ascii_bytes (l @ dec_nat (unat port) @ r)) =
      Some (l @ dec_nat (unat port) @ r)"
    by (rule from_utf8_ascii)
  moreover have "signed_digits (dec_nat (unat port)) (unat port)"
    by (auto simp: signed_digits_def dest: dec_nat_digits)
  ultimately have "redirect_layout (ascii_bytes (l @ dec_nat (unat port) @ r) @ nonce)
      (unat port) nonce"
    using assms(2,3) unfolding redirect_layout_def list_all_iff by blast
  then show ?thesis
    using assms(1) by (simp add: parse_metadata_Ok_iff)
qed

text \<open>The redirect file of the examples: port 4321, sixteen times 42.\<close>

definition demo_redirect :: "u8 list" where
  "demo_redirect = ascii_bytes (dec_nat 4321) @ replicate 16 42"

lemma demo_redirect_facts:
  "length demo_redirect \<le> 128"
  "parse_metadata demo_redirect = Ok \<lparr>md_port = 4321, md_nonce = replicate 16 42\<rparr>"
proof -
  show "length demo_redirect \<le> 128"
    by (simp add: demo_redirect_def ascii_bytes_def length_dec_nat_le [of _ 4, THEN order_trans])
  show "parse_metadata demo_redirect = Ok \<lparr>md_port = 4321, md_nonce = replicate 16 42\<rparr>"
    using parse_metadata_written [of 4321 "replicate 16 42" "[]" "[]"] by (simp add: demo_redirect_def)
qed


subsection \<open>Properties\<close>

text \<open>C13: what the redirect parser decides.  It accepts exactly the contents of the documented
  layout with a port from 1 to 65535, and returns that port and the last sixteen bytes; every
  other content gets the error of the first check it fails: too short, not UTF-8, no port text,
  port zero, or not a 16-bit number.\<close>

theorem parse_metadata_decides:
  "(parse_metadata contents = Ok m) =
     (redirect_layout contents (unat (md_port m)) (md_nonce m) \<and> md_port m \<noteq> 0)
   \<and> (parse_metadata contents = Err e) = redirect_error contents e"
  by (simp only: parse_metadata_Ok_iff parse_metadata_Err_iff)

text \<open>C32: round trip.  What Gpg4win writes, a non-zero port in decimal with any ASCII white space
  around it and then any sixteen nonce bytes, is read back exactly; no byte of the nonce can
  disturb the port.\<close>

theorem parse_metadata_roundtrip:
  assumes "port \<noteq> 0" "length nonce = 16"
    and "list_all (\<lambda>c. is_whitespace c \<and> c < 0x80) (l @ r)"
  shows "parse_metadata (ascii_bytes (l @ dec_nat (unat port) @ r) @ nonce) =
     Ok \<lparr>md_port = port, md_nonce = nonce\<rparr>"
  using assms by (rule parse_metadata_written)

theorem parse_metadata_roundtrip_witness:
  "parse_metadata (ascii_bytes (dec_nat 4321 @ [10]) @ map of_nat [0..<16]) =
     Ok \<lparr>md_port = 4321, md_nonce = map of_nat [0..<16]\<rparr>"
  using parse_metadata_roundtrip [of 4321 "map of_nat [0..<16]" "[]" "[10]"]
  by (simp add: is_whitespace_def)

text \<open>C31: reading the file.  A successful load saw a reported length of at most 128 bytes, opened
  that path, and got contents of at most 128 bytes, a file that grew after the length was taken
  included; the metadata are those of these contents.\<close>

theorem load_metadata_bounded:
  assumes "load_metadata ops p w = (Ok m, w3)"
  shows "\<exists>len w1 file w2 contents.
     f_metadata_len ops p w = (Ok len, w1) \<and> unat len \<le> 128 \<and>
     f_open ops p w1 = (Ok file, w2) \<and> f_read_limited ops file 129 w2 = (Ok contents, w3) \<and>
     length contents \<le> 128 \<and>
     redirect_layout contents (unat (md_port m)) (md_nonce m) \<and> md_port m \<noteq> 0"
  using assms
  by (auto simp: load_metadata_def MAX_REDIRECT_FILE_SIZE_def io_splits not_less
      parse_metadata_Ok_iff split: if_splits)

text \<open>A file system with one redirect file, for the witness.\<close>

definition one_file :: "u8 list \<Rightarrow> (unit, unit) file_ops" where
  "one_file contents =
     \<lparr>f_metadata_len = (\<lambda>p w. (Ok (of_nat (length contents)), w)),
      f_open = (\<lambda>p w. (Ok (), w)),
      f_read_limited = (\<lambda>h n w. (Ok (take n contents), w))\<rparr>"

lemma load_metadata_one_file:
  assumes "length contents \<le> 128"
  shows "load_metadata (one_file contents) p () = (parse_metadata contents, ())"
proof -
  have "unat (of_nat (length contents) :: u64) = length contents"
    using assms by (simp add: unat_of_nat take_bit_nat_eq_self)
  with assms show ?thesis
    by (simp add: load_metadata_def one_file_def MAX_REDIRECT_FILE_SIZE_def bind_io_def
        map_err_io_def return_io_def)
qed

theorem load_metadata_bounded_witness:
  "load_metadata (one_file demo_redirect) ''f'' () =
     (Ok \<lparr>md_port = 4321, md_nonce = replicate 16 42\<rparr>, ())
   \<and> redirect_layout demo_redirect 4321 (replicate 16 42)"
proof -
  have run: "load_metadata (one_file demo_redirect) ''f'' () =
      (Ok \<lparr>md_port = 4321, md_nonce = replicate 16 42\<rparr>, ())"
    by (simp add: load_metadata_one_file demo_redirect_facts)
  from load_metadata_bounded [OF run] have "redirect_layout demo_redirect 4321 (replicate 16 42)"
    by (auto simp: one_file_def)
  with run show ?thesis by blast
qed

end
