(* ===== verification/Agent_Connect.thy ===== *)
theory Agent_Connect
  imports Agent_Metadata
begin

section \<open>Connecting to the local agent (src/agent.rs, lines 14 to 16 and 120 to 212)\<close>

text \<open>
  One attempt loads the redirect file afresh, connects to the loopback port within five seconds
  and sends the nonce; failures before the connection are retried every 200 milliseconds until
  the window is over, failures of the nonce write are final.  The loop is a
  \<open>partial_function\<close>: \<open>None\<close> is a loop that never returns.
\<close>

definition AGENT_STARTUP_WINDOW :: duration where
  "AGENT_STARTUP_WINDOW = from_secs 15"

definition AGENT_CONNECT_TIMEOUT :: duration where
  "AGENT_CONNECT_TIMEOUT = from_secs 5"

definition AGENT_RETRY_DELAY :: duration where
  "AGENT_RETRY_DELAY = from_millis 200"

datatype ('s, 'u) agent_stream = StreamGpg4win 's | StreamUnix 'u

datatype agent_connector = ConnGpg4winRedirect path | ConnUnixSocket path

definition connector_gpg4win :: "path \<Rightarrow> agent_connector" where
  "connector_gpg4win redirect_file = ConnGpg4winRedirect redirect_file"

text \<open>
  The network and clock operations: \<open>timeout(d, TcpStream::connect((\<dots>, port)))\<close> with
  \<open>None\<close> for the elapsed timeout, \<open>write_all\<close>, \<open>flush\<close>, \<open>UnixStream::connect\<close>,
  \<open>Instant::now\<close> in nanoseconds, and \<open>sleep\<close>.
\<close>

record ('w, 'h, 's, 'u) agent_ops = "('w, 'h) file_ops" +
  a_tcp_connect :: "duration \<Rightarrow> u16 \<Rightarrow> 'w \<Rightarrow> ('s, io_error) result option \<times> 'w"
  a_write_all :: "'s \<Rightarrow> u8 list \<Rightarrow> ('w, unit, io_error) io"
  a_flush :: "'s \<Rightarrow> ('w, unit, io_error) io"
  a_unix_connect :: "path \<Rightarrow> ('w, 'u, io_error) io"
  a_now :: "'w \<Rightarrow> nat"
  a_sleep :: "duration \<Rightarrow> 'w \<Rightarrow> 'w"

datatype ('s, 'u) attempt_result =
    Finished "(('s, 'u) agent_stream, agent_error) result"
  | LastError agent_error

definition send_nonce ::
  "('w, 'h, 's, 'u) agent_ops \<Rightarrow> 's \<Rightarrow> u8 list \<Rightarrow> ('w, ('s, 'u) agent_stream, agent_error) io" where
  "send_nonce ops stream nonce =
     bind_io (map_err_io AgentConnect (a_write_all ops stream nonce)) (\<lambda>_.
     bind_io (map_err_io AgentConnect (a_flush ops stream)) (\<lambda>_.
       return_io (Ok (StreamGpg4win stream))))"

definition gpg4win_attempt ::
  "('w, 'h, 's, 'u) agent_ops \<Rightarrow> path \<Rightarrow> 'w \<Rightarrow> ('s, 'u) attempt_result \<times> 'w" where
  "gpg4win_attempt ops redirect_file w =
     (case load_metadata ops redirect_file w of
        (Ok metadata, w1) \<Rightarrow>
          (case a_tcp_connect ops AGENT_CONNECT_TIMEOUT (md_port metadata) w1 of
             (Some (Ok stream), w2) \<Rightarrow>
               (case send_nonce ops stream (md_nonce metadata) w2 of (r, w3) \<Rightarrow> (Finished r, w3))
           | (Some (Err source), w2) \<Rightarrow> (LastError (AgentConnect source), w2)
           | (None, w2) \<Rightarrow> (LastError ConnectTimeout, w2))
      | (Err error, w1) \<Rightarrow> (LastError error, w1))"

partial_function (option) connect_loop ::
  "('w, 'h, 's, 'u) agent_ops \<Rightarrow> path \<Rightarrow> nat \<Rightarrow> 'w \<Rightarrow>
     ((('s, 'u) agent_stream, agent_error) result \<times> 'w) option" where
  "connect_loop ops redirect_file deadline w =
     (case gpg4win_attempt ops redirect_file w of
        (Finished r, w') \<Rightarrow> Some (r, w')
      | (LastError e, w') \<Rightarrow>
          if deadline \<le> a_now ops w'
          then Some (Err (StartupWindowExpired (agent_error_display e)), w')
          else connect_loop ops redirect_file deadline (a_sleep ops AGENT_RETRY_DELAY w'))"

definition connect_gpg4win_with_window ::
  "('w, 'h, 's, 'u) agent_ops \<Rightarrow> path \<Rightarrow> duration \<Rightarrow> 'w \<Rightarrow>
     ((('s, 'u) agent_stream, agent_error) result \<times> 'w) option" where
  "connect_gpg4win_with_window ops redirect_file retry_window w =
     connect_loop ops redirect_file (a_now ops w + retry_window) w"

definition connect_gpg4win ::
  "('w, 'h, 's, 'u) agent_ops \<Rightarrow> path \<Rightarrow> 'w \<Rightarrow>
     ((('s, 'u) agent_stream, agent_error) result \<times> 'w) option" where
  "connect_gpg4win ops redirect_file =
     connect_gpg4win_with_window ops redirect_file AGENT_STARTUP_WINDOW"

fun agent_connect ::
  "('w, 'h, 's, 'u) agent_ops \<Rightarrow> agent_connector \<Rightarrow> 'w \<Rightarrow>
     ((('s, 'u) agent_stream, agent_error) result \<times> 'w) option" where
  "agent_connect ops (ConnGpg4winRedirect redirect_file) w = connect_gpg4win ops redirect_file w"
| "agent_connect ops (ConnUnixSocket socket) w =
     Some (case a_unix_connect ops socket w of
        (Ok stream, w') \<Rightarrow> (Ok (StreamUnix stream), w')
      | (Err source, w') \<Rightarrow> (Err (UnixConnect socket source), w'))"


subsection \<open>One attempt\<close>

lemma send_nonce_Ok_iff:
  "send_nonce ops s nonce w = (Ok str, w') \<longleftrightarrow>
     str = StreamGpg4win s \<and>
     (\<exists>w1. a_write_all ops s nonce w = (Ok (), w1) \<and> a_flush ops s w1 = (Ok (), w'))"
  by (auto simp: send_nonce_def io_splits)

lemma send_nonce_Err_iff:
  "send_nonce ops s nonce w = (Err e, w') \<longleftrightarrow>
     (\<exists>d. e = AgentConnect d \<and>
       (a_write_all ops s nonce w = (Err d, w') \<or>
        (\<exists>w1. a_write_all ops s nonce w = (Ok (), w1) \<and> a_flush ops s w1 = (Err d, w'))))"
  by (auto simp: send_nonce_def io_splits)

definition authenticated_connection ::
  "('w, 'h, 's, 'u) agent_ops \<Rightarrow> path \<Rightarrow> ('s, 'u) agent_stream \<Rightarrow> 'w \<Rightarrow> bool" where
  "authenticated_connection ops p str w' \<longleftrightarrow>
     (\<exists>w0 w1 w2 w3 md s.
        load_metadata ops p w0 = (Ok md, w1) \<and>
        a_tcp_connect ops AGENT_CONNECT_TIMEOUT (md_port md) w1 = (Some (Ok s), w2) \<and>
        a_write_all ops s (md_nonce md) w2 = (Ok (), w3) \<and> a_flush ops s w3 = (Ok (), w') \<and>
        str = StreamGpg4win s)"

text \<open>
  A connection that was there and did not take the nonce; and an attempt that failed before it
  had a connection.
\<close>

definition nonce_failed ::
  "('w, 'h, 's, 'u) agent_ops \<Rightarrow> path \<Rightarrow> agent_error \<Rightarrow> 'w \<Rightarrow> bool" where
  "nonce_failed ops p e w' \<longleftrightarrow>
     (\<exists>w0 w1 w2 md s d. load_metadata ops p w0 = (Ok md, w1) \<and>
        a_tcp_connect ops AGENT_CONNECT_TIMEOUT (md_port md) w1 = (Some (Ok s), w2) \<and>
        e = AgentConnect d \<and>
        (a_write_all ops s (md_nonce md) w2 = (Err d, w') \<or>
         (\<exists>w3. a_write_all ops s (md_nonce md) w2 = (Ok (), w3) \<and> a_flush ops s w3 = (Err d, w'))))"

definition unconnected ::
  "('w, 'h, 's, 'u) agent_ops \<Rightarrow> path \<Rightarrow> agent_error \<Rightarrow> 'w \<Rightarrow> bool" where
  "unconnected ops p e w' \<longleftrightarrow>
     (\<exists>w0. load_metadata ops p w0 = (Err e, w')) \<or>
     (\<exists>w0 w1 md. load_metadata ops p w0 = (Ok md, w1) \<and>
        (a_tcp_connect ops AGENT_CONNECT_TIMEOUT (md_port md) w1 = (None, w') \<and> e = ConnectTimeout \<or>
         (\<exists>d. a_tcp_connect ops AGENT_CONNECT_TIMEOUT (md_port md) w1 = (Some (Err d), w') \<and>
            e = AgentConnect d)))"

lemma attempt_finished_Ok:
  "gpg4win_attempt ops p w = (Finished (Ok str), w') \<Longrightarrow> authenticated_connection ops p str w'"
  unfolding authenticated_connection_def
  by (fastforce simp: gpg4win_attempt_def send_nonce_Ok_iff
      split: prod.splits result.splits option.splits)

lemma attempt_finished_Err:
  "gpg4win_attempt ops p w = (Finished (Err e), w') \<Longrightarrow> nonce_failed ops p e w'"
  unfolding nonce_failed_def
  by (fastforce simp: gpg4win_attempt_def send_nonce_Err_iff
      split: prod.splits result.splits option.splits)

lemma attempt_last_error:
  "gpg4win_attempt ops p w = (LastError e, w') \<Longrightarrow> unconnected ops p e w'"
  unfolding unconnected_def
  by (fastforce simp: gpg4win_attempt_def split: prod.splits result.splits option.splits)

text \<open>What the loop can return, without any assumption on the operations.\<close>

definition connect_outcome ::
  "('w, 'h, 's, 'u) agent_ops \<Rightarrow> path \<Rightarrow> (('s, 'u) agent_stream, agent_error) result \<Rightarrow> 'w \<Rightarrow>
     bool" where
  "connect_outcome ops p r w' \<longleftrightarrow>
     (case r of
        Ok str \<Rightarrow> authenticated_connection ops p str w'
      | Err e \<Rightarrow> nonce_failed ops p e w' \<or>
          (\<exists>d. unconnected ops p d w' \<and> e = StartupWindowExpired (agent_error_display d)))"

lemma nonce_failed_not_expired: "\<not> nonce_failed ops p (StartupWindowExpired s) w'"
  by (simp add: nonce_failed_def)

lemma connect_loop_outcome:
  assumes "connect_loop ops p deadline w = Some (r, w')"
  shows "connect_outcome ops p r w' \<and>
    (\<forall>s. r = Err (StartupWindowExpired s) \<longrightarrow> deadline \<le> a_now ops w')"
proof -
  have "\<forall>r w'. y = (r, w') \<longrightarrow> connect_outcome ops p r w' \<and>
      (\<forall>s. r = Err (StartupWindowExpired s) \<longrightarrow> deadline \<le> a_now ops w')"
    if "connect_loop ops p deadline w = Some y" for y
  proof (rule connect_loop.raw_induct [where P = "\<lambda>ops p deadline w y. \<forall>r w'. y = (r, w') \<longrightarrow>
        connect_outcome ops p r w' \<and>
        (\<forall>s. r = Err (StartupWindowExpired s) \<longrightarrow> deadline \<le> a_now ops w')", OF _ that])
    fix loop ops p deadline w y
    assume IH: "\<And>ops p deadline w y. loop ops p deadline w = Some y \<Longrightarrow> \<forall>r w'. y = (r, w') \<longrightarrow>
        connect_outcome ops p r w' \<and>
        (\<forall>s. r = Err (StartupWindowExpired s) \<longrightarrow> deadline \<le> a_now ops w')"
      and eq: "(case gpg4win_attempt ops p w of
          (Finished r, w') \<Rightarrow> Some (r, w')
        | (LastError e, w') \<Rightarrow>
            if deadline \<le> a_now ops w'
            then Some (Err (StartupWindowExpired (agent_error_display e)), w')
            else loop ops p deadline (a_sleep ops AGENT_RETRY_DELAY w')) = Some y"
    show "\<forall>r w'. y = (r, w') \<longrightarrow> connect_outcome ops p r w' \<and>
        (\<forall>s. r = Err (StartupWindowExpired s) \<longrightarrow> deadline \<le> a_now ops w')"
      using eq IH
      by (auto simp: connect_outcome_def split: prod.splits attempt_result.splits if_splits
            result.splits dest: attempt_finished_Ok attempt_finished_Err attempt_last_error
            simp: nonce_failed_not_expired)
  qed
  with assms show ?thesis by blast
qed


subsection \<open>How long it takes\<close>

text \<open>The loop with a bound on the number of attempts; \<open>None\<close> when the bound is used up.\<close>

fun connect_within ::
  "('w, 'h, 's, 'u) agent_ops \<Rightarrow> path \<Rightarrow> nat \<Rightarrow> nat \<Rightarrow> 'w \<Rightarrow>
     ((('s, 'u) agent_stream, agent_error) result \<times> 'w) option" where
  "connect_within ops p deadline 0 w = None"
| "connect_within ops p deadline (Suc n) w =
     (case gpg4win_attempt ops p w of
        (Finished r, w') \<Rightarrow> Some (r, w')
      | (LastError e, w') \<Rightarrow>
          if deadline \<le> a_now ops w'
          then Some (Err (StartupWindowExpired (agent_error_display e)), w')
          else connect_within ops p deadline n (a_sleep ops AGENT_RETRY_DELAY w'))"

lemma connect_within_loop:
  "connect_within ops p deadline n w = Some y \<Longrightarrow> connect_loop ops p deadline w = Some y"
proof (induction n arbitrary: w)
  case 0
  then show ?case by simp
next
  case (Suc n)
  then show ?case
    by (subst connect_loop.simps)
       (auto split: prod.splits attempt_result.splits if_splits)
qed

text \<open>
  What the loop relies on: the monotonic clock never goes back, and \<open>sleep\<close> lasts at least as
  long as it is asked to.
\<close>

locale agent_clock =
  fixes ops :: "('w, 'h, 's, 'u) agent_ops"
  assumes now_metadata_len: "a_now ops w \<le> a_now ops (snd (f_metadata_len ops p w))"
    and now_open: "a_now ops w \<le> a_now ops (snd (f_open ops p w))"
    and now_read: "a_now ops w \<le> a_now ops (snd (f_read_limited ops h n w))"
    and now_tcp_connect: "a_now ops w \<le> a_now ops (snd (a_tcp_connect ops d port w))"
    and now_write_all: "a_now ops w \<le> a_now ops (snd (a_write_all ops s bs w))"
    and now_flush: "a_now ops w \<le> a_now ops (snd (a_flush ops s w))"
    and now_sleep: "a_now ops w + d \<le> a_now ops (a_sleep ops d w)"
begin

lemma op_now:
  "f_metadata_len ops p w = (r1, w') \<Longrightarrow> a_now ops w \<le> a_now ops w'"
  "f_open ops p w = (r2, w') \<Longrightarrow> a_now ops w \<le> a_now ops w'"
  "f_read_limited ops h n w = (r3, w') \<Longrightarrow> a_now ops w \<le> a_now ops w'"
  "a_tcp_connect ops d port w = (r4, w') \<Longrightarrow> a_now ops w \<le> a_now ops w'"
  "a_write_all ops s bs w = (r5, w') \<Longrightarrow> a_now ops w \<le> a_now ops w'"
  "a_flush ops s w = (r6, w') \<Longrightarrow> a_now ops w \<le> a_now ops w'"
  using now_metadata_len [of w p] now_open [of w p] now_read [of w h n]
    now_tcp_connect [of w d port] now_write_all [of w s bs] now_flush [of w s] by auto

lemma load_now: "load_metadata ops p w = (r, w') \<Longrightarrow> a_now ops w \<le> a_now ops w'"
  by (cases r) (auto simp: load_metadata_def io_splits split: if_splits
      dest!: op_now intro: order_trans)

lemma send_now: "send_nonce ops s nonce w = (r, w') \<Longrightarrow> a_now ops w \<le> a_now ops w'"
  by (cases r) (auto simp: send_nonce_def io_splits dest!: op_now intro: order_trans)

lemma attempt_now: "gpg4win_attempt ops p w = (a, w') \<Longrightarrow> a_now ops w \<le> a_now ops w'"
  by (auto simp: gpg4win_attempt_def split: prod.splits result.splits option.splits
      dest!: load_now op_now(4) send_now intro: order_trans)

lemma connect_within_enough:
  "deadline \<le> a_now ops w + k * AGENT_RETRY_DELAY \<Longrightarrow>
     \<exists>y. connect_within ops p deadline (Suc k) w = Some y"
proof (induction k arbitrary: w)
  case 0
  then show ?case
    by (auto dest: attempt_now split: prod.splits attempt_result.splits)
next
  case (Suc k)
  have "\<exists>y. connect_within ops p deadline (Suc k) (a_sleep ops AGENT_RETRY_DELAY w') = Some y"
    if "gpg4win_attempt ops p w = (a, w')" for a w'
    using Suc.prems attempt_now [OF that] now_sleep [of w' AGENT_RETRY_DELAY]
    by (intro Suc.IH) simp
  then show ?case
    by (subst connect_within.simps) (auto split: prod.splits attempt_result.splits)
qed

end

context agent_clock
begin

lemma connect_gpg4win_eq_within:
  "\<exists>y. connect_within ops p (a_now ops w + AGENT_STARTUP_WINDOW) 76 w = Some y \<and>
     connect_gpg4win ops p w = Some y"
proof -
  have "a_now ops w + AGENT_STARTUP_WINDOW \<le> a_now ops w + 75 * AGENT_RETRY_DELAY"
    by (simp add: AGENT_STARTUP_WINDOW_def AGENT_RETRY_DELAY_def duration_defs)
  from connect_within_enough [OF this, of p] obtain y
    where "connect_within ops p (a_now ops w + AGENT_STARTUP_WINDOW) 76 w = Some y"
    by (auto simp: numeral_eq_Suc simp del: connect_within.simps)
  with connect_within_loop [OF this] show ?thesis
    by (simp add: connect_gpg4win_def connect_gpg4win_with_window_def)
qed

end

text \<open>Upper bounds: an attempt takes at most \<open>attempt_max\<close>, a sleep overshoots by \<open>slack\<close>.\<close>

locale agent_clock_bounded = agent_clock ops
  for ops :: "('w, 'h, 's, 'u) agent_ops" +
  fixes attempt_max slack :: nat
  assumes attempt_le:
      "gpg4win_attempt ops p w = (a, w') \<Longrightarrow> a_now ops w' \<le> a_now ops w + attempt_max"
    and sleep_le: "a_now ops (a_sleep ops d w) \<le> a_now ops w + d + slack"
begin

lemma connect_within_time:
  assumes "connect_within ops p deadline n w = Some (r, w')"
  shows "a_now ops w' \<le>
     max (a_now ops w) (deadline + AGENT_RETRY_DELAY + slack) + attempt_max"
  using assms
proof (induction n arbitrary: w)
  case 0
  then show ?case by simp
next
  case (Suc n)
  obtain a w1 where a: "gpg4win_attempt ops p w = (a, w1)" by fastforce
  show ?case
  proof (cases "w1 = w'")
    case True
    with attempt_le [OF a] show ?thesis by simp
  next
    case False
    with Suc.prems a have lt: "a_now ops w1 < deadline"
      and rest: "connect_within ops p deadline n (a_sleep ops AGENT_RETRY_DELAY w1) = Some (r, w')"
      by (auto split: attempt_result.splits if_splits)
    have "a_now ops (a_sleep ops AGENT_RETRY_DELAY w1) \<le> deadline + AGENT_RETRY_DELAY + slack"
      using sleep_le [of AGENT_RETRY_DELAY w1] lt by simp
    with Suc.IH [OF rest] show ?thesis by simp
  qed
qed

lemma attempt_nonce_taken:
  assumes "\<And>s bs w. \<exists>w'. a_write_all ops s bs w = (Ok (), w')"
    and "\<And>s w. \<exists>w'. a_flush ops s w = (Ok (), w')"
  shows "gpg4win_attempt ops p w \<noteq> (Finished (Err e), w')"
proof
  assume "gpg4win_attempt ops p w = (Finished (Err e), w')"
  then have "nonce_failed ops p e w'" by (rule attempt_finished_Err)
  then obtain w2 w3 s bs d where "a_write_all ops s bs w2 = (Err d, w') \<or>
      a_flush ops s w3 = (Err d, w')"
    unfolding nonce_failed_def by blast
  with assms(1) [of s bs w2] assms(2) [of s w3] show False by auto
qed

lemma attempt_ready:
  assumes "\<And>s bs w. \<exists>w'. a_write_all ops s bs w = (Ok (), w')"
    and "\<And>s w. \<exists>w'. a_flush ops s w = (Ok (), w')"
    and "load_metadata ops p w = (Ok md, w1)"
    and "a_tcp_connect ops AGENT_CONNECT_TIMEOUT (md_port md) w1 = (Some (Ok s), w2)"
  shows "\<exists>str w'. gpg4win_attempt ops p w = (Finished (Ok str), w')"
proof -
  obtain w3 where "a_write_all ops s (md_nonce md) w2 = (Ok (), w3)" using assms(1) by blast
  moreover obtain w4 where "a_flush ops s w3 = (Ok (), w4)" using assms(2) by blast
  ultimately show ?thesis
    using assms(3,4) by (simp add: gpg4win_attempt_def send_nonce_def bind_io_def map_err_io_def
        return_io_def)
qed

lemma connect_within_recovers:
  assumes ready: "\<And>w. ready_at \<le> a_now ops w \<Longrightarrow>
      \<exists>str w'. gpg4win_attempt ops p w = (Finished (Ok str), w')"
    and no_write_failure: "\<And>w e w'. gpg4win_attempt ops p w \<noteq> (Finished (Err e), w')"
    and early: "ready_at + attempt_max < deadline"
    and "connect_within ops p deadline n w = Some (r, w')"
  shows "\<exists>str. r = Ok str"
  using assms(4)
proof (induction n arbitrary: w)
  case 0
  then show ?case by simp
next
  case (Suc n)
  obtain a w1 where a: "gpg4win_attempt ops p w = (a, w1)" by fastforce
  show ?case
  proof (cases a)
    case (Finished r')
    with a no_write_failure Suc.prems show ?thesis by (cases r') auto
  next
    case (LastError e)
    then have "a_now ops w < ready_at" using ready [of w] a by force
    then have "\<not> deadline \<le> a_now ops w1" using attempt_le [OF a] early by simp
    with Suc LastError a show ?thesis by auto
  qed
qed

end


subsection \<open>A host that provides the operations\<close>

text \<open>
  A simulated Windows host: the redirect file and the listening loopback ports as functions of
  the clock, a clock that a connection moves by one millisecond, and the bytes received per port.
\<close>

record sim_host =
  sim_clock :: nat
  sim_sent :: "(u16 \<times> u8 list) list"

definition host_ops ::
  "(nat \<Rightarrow> u8 list option) \<Rightarrow> (nat \<Rightarrow> u16 \<Rightarrow> bool) \<Rightarrow> (sim_host, u8 list, u16, unit) agent_ops" where
  "host_ops redirect listening =
     \<lparr>f_metadata_len = (\<lambda>p h. (case redirect (sim_clock h) of
          None \<Rightarrow> Err (io_error_new NotFound (lit ''not found''))
        | Some bs \<Rightarrow> Ok (of_nat (length bs)), h)),
      f_open = (\<lambda>p h. (case redirect (sim_clock h) of
          None \<Rightarrow> Err (io_error_new NotFound (lit ''not found'')) | Some bs \<Rightarrow> Ok bs, h)),
      f_read_limited = (\<lambda>bs n h. (Ok (take n bs), h)),
      a_tcp_connect = (\<lambda>d port h.
        (Some (if listening (sim_clock h) port then Ok port
               else Err (io_error_new ConnectionRefused (lit ''refused''))),
         h\<lparr>sim_clock := sim_clock h + 1000000\<rparr>)),
      a_write_all = (\<lambda>port bs h. (Ok (), h\<lparr>sim_sent := sim_sent h @ [(port, bs)]\<rparr>)),
      a_flush = (\<lambda>port h. (Ok (), h)),
      a_unix_connect = (\<lambda>p h. (Err (io_error_new NotFound (lit ''not found'')), h)),
      a_now = sim_clock,
      a_sleep = (\<lambda>d h. h\<lparr>sim_clock := sim_clock h + d\<rparr>)\<rparr>"

lemma host_ops_sel [simp]:
  "f_metadata_len (host_ops redirect listening) p h = (case redirect (sim_clock h) of
      None \<Rightarrow> Err (io_error_new NotFound (lit ''not found''))
    | Some bs \<Rightarrow> Ok (of_nat (length bs)), h)"
  "f_open (host_ops redirect listening) p h = (case redirect (sim_clock h) of
      None \<Rightarrow> Err (io_error_new NotFound (lit ''not found'')) | Some bs \<Rightarrow> Ok bs, h)"
  "f_read_limited (host_ops redirect listening) bs n h = (Ok (take n bs), h)"
  "a_tcp_connect (host_ops redirect listening) d port h =
     (Some (if listening (sim_clock h) port then Ok port
            else Err (io_error_new ConnectionRefused (lit ''refused''))),
      h\<lparr>sim_clock := sim_clock h + 1000000\<rparr>)"
  "a_write_all (host_ops redirect listening) port bs h =
     (Ok (), h\<lparr>sim_sent := sim_sent h @ [(port, bs)]\<rparr>)"
  "a_flush (host_ops redirect listening) port h = (Ok (), h)"
  "a_now (host_ops redirect listening) = sim_clock"
  "a_sleep (host_ops redirect listening) d h = h\<lparr>sim_clock := sim_clock h + d\<rparr>"
  by (simp_all add: host_ops_def)

text \<open>What the program's load and attempt do on this host.\<close>

lemma host_load:
  assumes "\<forall>bs. redirect (sim_clock h) = Some bs \<longrightarrow> length bs \<le> 128"
  shows "load_metadata (host_ops redirect listening) p h =
     (case redirect (sim_clock h) of
        None \<Rightarrow> Err (MetadataIo p (io_error_new NotFound (lit ''not found'')))
      | Some bs \<Rightarrow> parse_metadata bs, h)"
proof (cases "redirect (sim_clock h)")
  case None
  then show ?thesis
    by (simp add: load_metadata_def bind_io_def map_err_io_def)
next
  case (Some bs)
  with assms have "length bs \<le> 128" by simp
  moreover from this have "unat (of_nat (length bs) :: u64) = length bs"
    by (simp add: unat_of_nat take_bit_nat_eq_self)
  ultimately show ?thesis
    using Some by (simp add: load_metadata_def bind_io_def map_err_io_def return_io_def
        MAX_REDIRECT_FILE_SIZE_def)
qed

lemma host_attempt_ready:
  assumes "redirect (sim_clock h) = Some bs" "length bs \<le> 128" "parse_metadata bs = Ok md"
    and "listening (sim_clock h) (md_port md)"
  shows "gpg4win_attempt (host_ops redirect listening) p h =
     (Finished (Ok (StreamGpg4win (md_port md))),
      h\<lparr>sim_clock := sim_clock h + 1000000,
        sim_sent := sim_sent h @ [(md_port md, md_nonce md)]\<rparr>)"
  using assms by (simp add: gpg4win_attempt_def host_load send_nonce_def bind_io_def
      map_err_io_def return_io_def)

lemma host_attempt_time:
  assumes "gpg4win_attempt (host_ops redirect listening) p h = (a, h')"
  shows "sim_clock h' \<le> sim_clock h + 1000000"
proof -
  have load: "sim_clock h1 = sim_clock h"
    if "load_metadata (host_ops redirect listening) p h = (r, h1)" for r h1
    using that by (cases r; cases "redirect (sim_clock h)")
      (auto simp: load_metadata_def io_splits split: if_splits)
  have send: "sim_clock h2 = sim_clock h1"
    if "send_nonce (host_ops redirect listening) s bs h1 = (r, h2)" for s bs r h1 h2
    using that by (cases r) (auto simp: send_nonce_def io_splits)
  show ?thesis
    using assms
    by (auto simp: gpg4win_attempt_def split: prod.splits result.splits option.splits if_splits
        dest!: load send)
qed

interpretation host: agent_clock_bounded "host_ops redirect listening" 1000000 0
  for redirect listening
  by unfold_locales (auto dest: host_attempt_time)


subsection \<open>Properties\<close>

text \<open>C19: the connector returns.  With a clock that never goes back and sleeps that last, a
  connection to the Gpg4win agent makes at most 76 attempts (fifteen seconds at 200 milliseconds)
  and then has a result, however the attempts fail.\<close>

theorem gpg4win_connect_returns:
  assumes "agent_clock ops"
  shows "\<exists>y. connect_within ops p (a_now ops w + AGENT_STARTUP_WINDOW) 76 w = Some y \<and>
     connect_gpg4win ops p w = Some y"
  using assms by (rule agent_clock.connect_gpg4win_eq_within)

theorem gpg4win_connect_returns_witness:
  "\<exists>y. connect_gpg4win (host_ops (\<lambda>t. None) (\<lambda>t port. False)) ''f''
     \<lparr>sim_clock = 0, sim_sent = []\<rparr> = Some y"
  using gpg4win_connect_returns [OF host.agent_clock_axioms] by blast

text \<open>How late it returns.  If one attempt takes at most \<open>attempt_max\<close> and a sleep overshoots
  by at most \<open>slack\<close>, the result is there within the fifteen-second window plus one retry delay,
  one overshoot and one attempt: the last attempt may begin after the window.\<close>

lemma gpg4win_connect_time:
  assumes "agent_clock_bounded ops attempt_max slack"
    and "connect_gpg4win ops p w = Some (r, w')"
  shows "a_now ops w' \<le>
     a_now ops w + from_secs 15 + from_millis 200 + slack + attempt_max"
proof -
  have clock: "agent_clock ops"
    using assms(1) by (rule agent_clock_bounded.axioms)
  from agent_clock.connect_gpg4win_eq_within [OF clock, of p w] assms(2)
  have "connect_within ops p (a_now ops w + AGENT_STARTUP_WINDOW) 76 w = Some (r, w')" by auto
  from agent_clock_bounded.connect_within_time [OF assms(1) this] show ?thesis
    by (simp add: AGENT_STARTUP_WINDOW_def AGENT_RETRY_DELAY_def)
qed

text \<open>C14: what the connector returns, for any behaviour of the file system and the network.  A
  returned stream is a connection to the port of metadata loaded for this attempt, and the nonce
  of the same metadata was written first and flushed, with nothing else sent.  An error is either
  that of the write or the flush of that nonce on a connection that was there, or the expiry of the
  window, with the text of the last attempt's error: a redirect file that could not be loaded, a
  connection that was refused, or one that timed out.  Expiry means the deadline has passed, so a
  refused connection never ends the connector before it.\<close>

theorem gpg4win_connect_outcome:
  assumes "connect_gpg4win_with_window ops p window w = Some (r, w')"
  shows "(case r of
        Ok str \<Rightarrow> authenticated_connection ops p str w'
      | Err e \<Rightarrow> nonce_failed ops p e w' \<or>
          (\<exists>d. unconnected ops p d w' \<and> e = StartupWindowExpired (agent_error_display d) \<and>
             a_now ops w + window \<le> a_now ops w'))"
  using connect_loop_outcome [OF assms [unfolded connect_gpg4win_with_window_def]]
  by (auto simp: connect_outcome_def split: result.splits)


theorem gpg4win_connect_outcome_witness:
  "\<exists>h'. authenticated_connection (host_ops (\<lambda>t. Some demo_redirect) (\<lambda>t port. port = 4321)) ''f''
     (StreamGpg4win 4321) h' \<and> sim_sent h' = [(4321, replicate 16 42)]"
proof -
  let ?ops = "host_ops (\<lambda>t. Some demo_redirect) (\<lambda>t port. port = 4321)"
  let ?h = "\<lparr>sim_clock = 0, sim_sent = []\<rparr>"
  let ?h' = "\<lparr>sim_clock = 1000000, sim_sent = [(4321, replicate 16 42)]\<rparr>"
  have "gpg4win_attempt ?ops ''f'' ?h = (Finished (Ok (StreamGpg4win 4321)), ?h')"
    using host_attempt_ready [of "\<lambda>t. Some demo_redirect" ?h demo_redirect _ "\<lambda>t port. port = 4321"]
    by (simp add: demo_redirect_facts)
  then have "connect_gpg4win_with_window ?ops ''f'' 0 ?h = Some (Ok (StreamGpg4win 4321), ?h')"
    by (simp add: connect_gpg4win_with_window_def connect_loop.simps)
  from gpg4win_connect_outcome [OF this] show ?thesis by (auto intro: exI [of _ ?h'])
qed

text \<open>C20: recovery.  If from some time on the redirect file can be loaded and the port it names
  accepts the connection, a connection that is there takes the nonce, and that time comes more than
  one attempt's duration before the end of the window, then the connector returns a connection: an
  agent that the user starts in time is found.  What happens before that time does not matter: a
  missing or malformed file, a refused connection and one that times out are all retried.\<close>

theorem gpg4win_connect_recovers:
  assumes "agent_clock_bounded ops attempt_max slack"
    and "\<And>w. ready_at \<le> a_now ops w \<Longrightarrow> \<exists>md w1 s w2. load_metadata ops p w = (Ok md, w1) \<and>
      a_tcp_connect ops AGENT_CONNECT_TIMEOUT (md_port md) w1 = (Some (Ok s), w2)"
    and "\<And>s bs w. \<exists>w'. a_write_all ops s bs w = (Ok (), w')"
    and "\<And>s w. \<exists>w'. a_flush ops s w = (Ok (), w')"
    and "ready_at + attempt_max < a_now ops w + from_secs 15"
  shows "\<exists>str w'. connect_gpg4win ops p w = Some (Ok str, w') \<and>
     authenticated_connection ops p str w'"
proof -
  have clock: "agent_clock ops"
    using assms(1) by (rule agent_clock_bounded.axioms)
  from agent_clock.connect_gpg4win_eq_within [OF clock, of p w]
  obtain r w' where run: "connect_gpg4win ops p w = Some (r, w')"
    and within: "connect_within ops p (a_now ops w + AGENT_STARTUP_WINDOW) 76 w = Some (r, w')"
    by auto
  have ready: "\<exists>str w'. gpg4win_attempt ops p w = (Finished (Ok str), w')"
    if "ready_at \<le> a_now ops w" for w
    using assms(2) [OF that] agent_clock_bounded.attempt_ready [OF assms(1,3,4)] by blast
  have "\<exists>str. r = Ok str"
    using agent_clock_bounded.attempt_nonce_taken [OF assms(1,3,4)] assms(5) within
    by (intro agent_clock_bounded.connect_within_recovers [OF assms(1) ready])
       (auto simp: AGENT_STARTUP_WINDOW_def)
  with run connect_loop_outcome [of ops p "a_now ops w + AGENT_STARTUP_WINDOW" w r w'] show ?thesis
    by (auto simp: connect_gpg4win_def connect_gpg4win_with_window_def connect_outcome_def)
qed

theorem gpg4win_connect_recovers_witness:
  "\<exists>str h'. connect_gpg4win
     (host_ops (\<lambda>t. if t < 2000000000 then None else Some demo_redirect)
        (\<lambda>t port. 4000000000 \<le> t \<and> port = 4321))
     ''f'' \<lparr>sim_clock = 0, sim_sent = []\<rparr> = Some (Ok str, h')"
proof -
  let ?ops = "host_ops (\<lambda>t. if t < 2000000000 then None else Some demo_redirect)
      (\<lambda>t port. 4000000000 \<le> t \<and> port = 4321)"
  have ready: "\<exists>md h1 s h2. load_metadata ?ops ''f'' h = (Ok md, h1) \<and>
      a_tcp_connect ?ops AGENT_CONNECT_TIMEOUT (md_port md) h1 = (Some (Ok s), h2)"
    if "4000000000 \<le> a_now ?ops h" for h
    using that by (simp add: host_load demo_redirect_facts)
  have taken: "\<exists>h'. a_write_all ?ops s bs h = (Ok (), h')" "\<exists>h'. a_flush ?ops s h = (Ok (), h')"
    for s bs h
    by simp_all
  have early: "4000000000 + 1000000 < a_now ?ops \<lparr>sim_clock = 0, sim_sent = []\<rparr> + from_secs 15"
    by (simp add: from_secs_def)
  from gpg4win_connect_recovers [OF host.agent_clock_bounded_axioms ready taken early]
  show ?thesis by blast
qed

end
