(* ===== verification/Tls.thy ===== *)
theory Tls
  imports Rust_Text
begin

section \<open>TLS materials and configuration (src/tls.rs)\<close>

text \<open>
  Loading of certificates and keys, and the two configurations.  \<open>rustls\<close> and
  \<open>rustls_pemfile\<close> are parameters: the PEM readers, the root store, the verifier builder and
  the certificate/key check.  A configuration is what the builder was given: the protocol
  versions, the verification material, the own chain and key, and the ALPN list set afterwards.
\<close>

definition ALPN_PROTOCOL :: "u8 list" where
  "ALPN_PROTOCOL = map of_nat (lit ''gpg-bridge/1'')"

datatype tls_error =
    TlsRead rstr path io_error
  | EmptyCertificateChain path
  | CertificateParse path io_error
  | MissingPrivateKey path
  | MultiplePrivateKeys path
  | PrivateKeyParse path io_error
  | InsecurePrivateKeyPermissions path
  | EmptyRootStore path
  | TlsConfiguration rstr rstr
  | AlpnMismatch

fun tls_error_display :: "tls_error \<Rightarrow> rstr" where
  "tls_error_display (TlsRead kind p source) =
     lit ''failed to read '' @ kind @ lit '' at '' @ path_display p @ lit '': '' @ io_message source"
| "tls_error_display (EmptyCertificateChain p) =
     lit ''no certificates found in '' @ path_display p"
| "tls_error_display (CertificateParse p source) =
     lit ''failed to parse certificates in '' @ path_display p @ lit '': '' @ io_message source"
| "tls_error_display (MissingPrivateKey p) = lit ''no private key found in '' @ path_display p"
| "tls_error_display (MultiplePrivateKeys p) =
     lit ''multiple private keys found in '' @ path_display p"
| "tls_error_display (PrivateKeyParse p source) =
     lit ''failed to parse private key in '' @ path_display p @ lit '': '' @ io_message source"
| "tls_error_display (InsecurePrivateKeyPermissions p) =
     lit ''private key file '' @ path_display p @ lit '' must not be readable by group or others''"
| "tls_error_display (EmptyRootStore p) = lit ''no trust anchors found in '' @ path_display p"
| "tls_error_display (TlsConfiguration operation reason) =
     lit ''TLS configuration error while '' @ operation @ lit '': '' @ reason"
| "tls_error_display AlpnMismatch =
     lit ''TLS peer did not negotiate the required ALPN protocol''"

definition validate_alpn :: "u8 list option \<Rightarrow> (unit, tls_error) result" where
  "validate_alpn negotiated = (if negotiated = Some ALPN_PROTOCOL then Ok () else Err AlpnMismatch)"

text \<open>
  The mask \<open>0x3F\<close> is the source's octal \<open>077\<close>.  Whether the program is compiled for Unix (\<open>cfg(unix)\<close>).
  Files: opening, the mode bits \<open>fs::metadata\<close> reports.  PEM: all certificates of a reader, and the
  next private key with the reader after it.
\<close>

record ('w, 'rd, 'cert, 'key) pem_ops =
  t_unix :: bool
  t_open :: "path \<Rightarrow> ('w, 'rd, io_error) io"
  t_mode :: "path \<Rightarrow> ('w, u32, io_error) io"
  t_certs :: "'rd \<Rightarrow> ('cert, io_error) result list"
  t_private_key :: "'rd \<Rightarrow> ('key option, io_error) result \<times> 'rd"

definition open_file ::
  "('w, 'rd, 'cert, 'key, 'x) pem_ops_scheme \<Rightarrow> path \<Rightarrow> rstr \<Rightarrow> ('w, 'rd, tls_error) io" where
  "open_file ops p kind = map_err_io (TlsRead kind p) (t_open ops p)"

definition load_certificates ::
  "('w, 'rd, 'cert, 'key, 'x) pem_ops_scheme \<Rightarrow> path \<Rightarrow> ('w, 'cert list, tls_error) io" where
  "load_certificates ops p =
     bind_io (open_file ops p (lit ''certificate file'')) (\<lambda>reader.
       return_io (bind_result (map_err (CertificateParse p) (collect_results (t_certs ops reader)))
         (\<lambda>certificates.
            if certificates = [] then Err (EmptyCertificateChain p) else Ok certificates)))"

definition check_private_key_permissions ::
  "('w, 'rd, 'cert, 'key, 'x) pem_ops_scheme \<Rightarrow> path \<Rightarrow> ('w, unit, tls_error) io" where
  "check_private_key_permissions ops p =
     bind_io (map_err_io (TlsRead (lit ''private key file metadata'') p) (t_mode ops p)) (\<lambda>mode.
       return_io (if mode AND 0x3F \<noteq> 0 then Err (InsecurePrivateKeyPermissions p) else Ok ()))"

text \<open>The part after opening: one key, and no second one.\<close>

definition read_sole_key ::
  "('w, 'rd, 'cert, 'key, 'x) pem_ops_scheme \<Rightarrow> path \<Rightarrow> 'rd \<Rightarrow> ('key, tls_error) result" where
  "read_sole_key ops p reader =
     (case t_private_key ops reader of
        (Err source, _) \<Rightarrow> Err (PrivateKeyParse p source)
      | (Ok None, _) \<Rightarrow> Err (MissingPrivateKey p)
      | (Ok (Some key), reader') \<Rightarrow>
          (case t_private_key ops reader' of
             (Err source, _) \<Rightarrow> Err (PrivateKeyParse p source)
           | (Ok (Some _), _) \<Rightarrow> Err (MultiplePrivateKeys p)
           | (Ok None, _) \<Rightarrow> Ok key))"

definition load_private_key ::
  "('w, 'rd, 'cert, 'key, 'x) pem_ops_scheme \<Rightarrow> path \<Rightarrow> ('w, 'key, tls_error) io" where
  "load_private_key ops p =
     bind_io (if t_unix ops then check_private_key_permissions ops p else return_io (Ok ())) (\<lambda>_.
     bind_io (open_file ops p (lit ''private key file'')) (\<lambda>reader.
       return_io (read_sole_key ops p reader)))"


subsection \<open>Configurations\<close>

datatype protocol_version = TLS12 | TLS13

text \<open>How the peer is verified: by a client certificate verifier or by server trust anchors.\<close>

datatype 'roots peer_verification = ClientVerifier 'roots | ServerRoots 'roots

record ('roots, 'cert, 'key) tls_config =
  tc_versions :: "protocol_version list"
  tc_peer :: "'roots peer_verification"
  tc_chain :: "'cert list"
  tc_key :: 'key
  tc_alpn :: "u8 list list"

text \<open>
  The parts of \<open>rustls\<close> that can refuse: adding parsable certificates to an empty root store
  (how many were added, and the store), building the client verifier, selecting the protocol
  versions with the provider, and accepting an own chain with its key.
\<close>

record ('w, 'rd, 'cert, 'key, 'roots) tls_ops = "('w, 'rd, 'cert, 'key) pem_ops" +
  r_add_parsable :: "'cert list \<Rightarrow> nat \<times> 'roots"
  r_build_verifier :: "'roots \<Rightarrow> (unit, rstr) result"
  r_protocol_versions :: "protocol_version list \<Rightarrow> (unit, rstr) result"
  r_own_certificate :: "'cert list \<Rightarrow> 'key \<Rightarrow> (unit, rstr) result"

definition root_store ::
  "('w, 'rd, 'cert, 'key, 'roots) tls_ops \<Rightarrow> path \<Rightarrow> ('w, 'roots, tls_error) io" where
  "root_store ops p =
     bind_io (load_certificates ops p) (\<lambda>certificates.
       return_io (case r_add_parsable ops certificates of
         (added, roots) \<Rightarrow> if added = 0 then Err (EmptyRootStore p) else Ok roots))"

definition server_config ::
  "('w, 'rd, 'cert, 'key, 'roots) tls_ops \<Rightarrow> path \<Rightarrow> path \<Rightarrow> path \<Rightarrow>
     ('w, ('roots, 'cert, 'key) tls_config, tls_error) io" where
  "server_config ops client_ca_cert server_cert server_key =
     bind_io (root_store ops client_ca_cert) (\<lambda>roots.
     bind_io (return_io (map_err (TlsConfiguration (lit ''building client certificate verifier''))
       (r_build_verifier ops roots))) (\<lambda>_.
     bind_io (return_io (map_err (TlsConfiguration (lit ''selecting TLS 1.3''))
       (r_protocol_versions ops [TLS13]))) (\<lambda>_.
     bind_io (load_certificates ops server_cert) (\<lambda>chain.
     bind_io (load_private_key ops server_key) (\<lambda>key.
     bind_io (return_io (map_err (TlsConfiguration (lit ''loading server certificate and key''))
       (r_own_certificate ops chain key))) (\<lambda>_.
     return_io (Ok \<lparr>tc_versions = [TLS13], tc_peer = ClientVerifier roots,
                    tc_chain = chain, tc_key = key, tc_alpn = [ALPN_PROTOCOL]\<rparr>)))))))"

definition client_config ::
  "('w, 'rd, 'cert, 'key, 'roots) tls_ops \<Rightarrow> path \<Rightarrow> path \<Rightarrow> path \<Rightarrow>
     ('w, ('roots, 'cert, 'key) tls_config, tls_error) io" where
  "client_config ops server_ca_cert client_cert client_key =
     bind_io (return_io (map_err (TlsConfiguration (lit ''selecting TLS 1.3''))
       (r_protocol_versions ops [TLS13]))) (\<lambda>_.
     bind_io (root_store ops server_ca_cert) (\<lambda>roots.
     bind_io (load_certificates ops client_cert) (\<lambda>chain.
     bind_io (load_private_key ops client_key) (\<lambda>key.
     bind_io (return_io (map_err (TlsConfiguration (lit ''loading client certificate and key''))
       (r_own_certificate ops chain key))) (\<lambda>_.
     return_io (Ok \<lparr>tc_versions = [TLS13], tc_peer = ServerRoots roots,
                    tc_chain = chain, tc_key = key, tc_alpn = [ALPN_PROTOCOL]\<rparr>))))))"


subsection \<open>What a loaded key and a built configuration guarantee\<close>

lemma load_certificates_Ok_iff:
  "load_certificates ops p w = (Ok cs, w') \<longleftrightarrow>
     cs \<noteq> [] \<and> (\<exists>rd. t_open ops p w = (Ok rd, w') \<and> t_certs ops rd = map Ok cs)"
  by (auto simp: load_certificates_def open_file_def io_splits bind_result_Ok_iff
      collect_results_Ok_iff split: if_splits)

lemma check_private_key_permissions_Ok_iff:
  "check_private_key_permissions ops p w = (Ok u, w') \<longleftrightarrow>
     (\<exists>mode. t_mode ops p w = (Ok mode, w') \<and> mode AND 0x3F = 0)"
  by (auto simp: check_private_key_permissions_def io_splits split: if_splits)

text \<open>The permission check passes: on Unix for a file without group or other bits, elsewhere always.\<close>

definition permitted ::
  "('w, 'rd, 'cert, 'key, 'x) pem_ops_scheme \<Rightarrow> path \<Rightarrow> 'w \<Rightarrow> 'w \<Rightarrow> bool" where
  "permitted ops p w w' \<longleftrightarrow>
     (if t_unix ops then \<exists>mode. t_mode ops p w = (Ok mode, w') \<and> mode AND 0x3F = 0 else w' = w)"

definition sole_key ::
  "('w, 'rd, 'cert, 'key, 'x) pem_ops_scheme \<Rightarrow> 'rd \<Rightarrow> 'key \<Rightarrow> bool" where
  "sole_key ops rd k \<longleftrightarrow>
     (\<exists>rd'. t_private_key ops rd = (Ok (Some k), rd') \<and> fst (t_private_key ops rd') = Ok None)"

lemma read_sole_key_Ok_iff: "read_sole_key ops p rd = Ok k \<longleftrightarrow> sole_key ops rd k"
  by (auto simp: read_sole_key_def sole_key_def split: prod.splits result.splits option.splits)

lemma load_private_key_Ok_iff:
  "load_private_key ops p w = (Ok k, w') \<longleftrightarrow>
     (\<exists>w1 rd. permitted ops p w w1 \<and> t_open ops p w1 = (Ok rd, w') \<and> sole_key ops rd k)"
  by (auto simp: load_private_key_def permitted_def open_file_def io_splits read_sole_key_Ok_iff
      check_private_key_permissions_Ok_iff)

lemma root_store_Ok_iff:
  "root_store ops p w = (Ok roots, w') \<longleftrightarrow>
     (\<exists>cs. load_certificates ops p w = (Ok cs, w') \<and> snd (r_add_parsable ops cs) = roots \<and>
        0 < fst (r_add_parsable ops cs))"
  by (auto simp: root_store_def io_splits case_prod_unfold split: if_splits)

text \<open>
  Everything a configuration for either role rests on: trust anchors from the CA file, its own
  non-empty chain, and the only key of a file, which on Unix its owner alone may access.
\<close>

definition trusted_roots ::
  "('w, 'rd, 'cert, 'key, 'roots) tls_ops \<Rightarrow> path \<Rightarrow> 'roots \<Rightarrow> bool" where
  "trusted_roots ops p roots \<longleftrightarrow>
     (\<exists>w w' rd cs. t_open ops p w = (Ok rd, w') \<and> t_certs ops rd = map Ok cs \<and> cs \<noteq> [] \<and>
        0 < fst (r_add_parsable ops cs) \<and> roots = snd (r_add_parsable ops cs))"

definition own_identity ::
  "('w, 'rd, 'cert, 'key, 'roots) tls_ops \<Rightarrow> path \<Rightarrow> path \<Rightarrow> 'cert list \<Rightarrow> 'key \<Rightarrow> bool" where
  "own_identity ops cert_path key_path chain key \<longleftrightarrow>
     chain \<noteq> [] \<and> r_own_certificate ops chain key = Ok () \<and>
     (\<exists>w w' rd. t_open ops cert_path w = (Ok rd, w') \<and> t_certs ops rd = map Ok chain) \<and>
     (\<exists>w w1 w2 rd. permitted ops key_path w w1 \<and> t_open ops key_path w1 = (Ok rd, w2) \<and>
        sole_key ops rd key)"

lemma trusted_rootsI: "root_store ops p w = (Ok roots, w') \<Longrightarrow> trusted_roots ops p roots"
  by (fastforce simp: trusted_roots_def root_store_Ok_iff load_certificates_Ok_iff)

lemma own_identityI:
  assumes "load_certificates ops cert_path w = (Ok chain, w1)"
    and "load_private_key ops key_path w1 = (Ok key, w2)"
    and "r_own_certificate ops chain key = Ok ()"
  shows "own_identity ops cert_path key_path chain key"
  using assms unfolding own_identity_def load_certificates_Ok_iff load_private_key_Ok_iff by blast


lemma server_config_facts:
  "server_config ops ca cert key w = (Ok cfg, w') \<Longrightarrow>
     \<exists>roots. tc_peer cfg = ClientVerifier roots \<and> trusted_roots ops ca roots \<and>
       r_build_verifier ops roots = Ok () \<and>
       tc_versions cfg = [TLS13] \<and> tc_alpn cfg = [ALPN_PROTOCOL] \<and>
       own_identity ops cert key (tc_chain cfg) (tc_key cfg)"
  by (auto simp: server_config_def io_splits intro: trusted_rootsI own_identityI)

text \<open>The client's configuration, likewise: TLS 1.3 and the bridge's ALPN protocol only, server
  trust anchors from the CA file, and its own client identity.\<close>

lemma client_config_facts:
  assumes "client_config ops ca cert key w = (Ok cfg, w')"
  shows "\<exists>roots. tc_peer cfg = ServerRoots roots \<and> trusted_roots ops ca roots \<and>
     tc_versions cfg = [TLS13] \<and> tc_alpn cfg = [ALPN_PROTOCOL] \<and>
     own_identity ops cert key (tc_chain cfg) (tc_key cfg)"
  using assms
  by (auto simp: client_config_def io_splits intro: trusted_rootsI own_identityI)


subsection \<open>A disk with PEM files, for the witnesses\<close>

text \<open>A file is its mode and the PEM items in it; a reader is the items still to be read.\<close>

datatype pem_item = PemCert nat | PemKey nat

fun pem_next_key :: "pem_item list \<Rightarrow> (nat option, io_error) result \<times> pem_item list" where
  "pem_next_key [] = (Ok None, [])"
| "pem_next_key (PemKey k # rest) = (Ok (Some k), rest)"
| "pem_next_key (PemCert _ # rest) = pem_next_key rest"

definition disk_ops ::
  "(path \<Rightarrow> (u32 \<times> pem_item list) option) \<Rightarrow> ('w, pem_item list, nat, nat, nat list) tls_ops" where
  "disk_ops disk =
     \<lparr>t_unix = True, t_open = (\<lambda>p w. (case disk p of
          None \<Rightarrow> Err (io_error_new NotFound []) | Some (_, items) \<Rightarrow> Ok items, w)),
      t_mode = (\<lambda>p w. (case disk p of
          None \<Rightarrow> Err (io_error_new NotFound []) | Some (mode, _) \<Rightarrow> Ok mode, w)),
      t_certs = (\<lambda>items. [Ok c. PemCert c \<leftarrow> items]),
      t_private_key = pem_next_key,
      r_add_parsable = (\<lambda>cs. (length cs, cs)),
      r_build_verifier = (\<lambda>roots. Ok ()),
      r_protocol_versions = (\<lambda>vs. Ok ()),
      r_own_certificate = (\<lambda>chain key. if hd chain = key then Ok () else Err (lit ''mismatch''))\<rparr>"

definition demo_disk :: "path \<Rightarrow> (u32 \<times> pem_item list) option" where
  "demo_disk = [''ca'' \<mapsto> (0x1A4, [PemCert 1]), ''cert'' \<mapsto> (0x1A4, [PemCert 7]),
     ''key'' \<mapsto> (0x180, [PemKey 7]), ''open-key'' \<mapsto> (0x1A4, [PemKey 7])]"

lemmas disk_simps = disk_ops_def demo_disk_def bind_io_def map_err_io_def return_io_def
  server_config_def client_config_def root_store_def load_certificates_def load_private_key_def
  read_sole_key_def check_private_key_permissions_def open_file_def

lemma demo_server_config:
  "server_config (disk_ops demo_disk) ''ca'' ''cert'' ''key'' w =
     (Ok \<lparr>tc_versions = [TLS13], tc_peer = ClientVerifier [1], tc_chain = [7], tc_key = 7,
          tc_alpn = [ALPN_PROTOCOL]\<rparr>, w)"
  by (simp add: disk_simps)

lemma demo_client_config:
  "client_config (disk_ops demo_disk) ''ca'' ''cert'' ''key'' w =
     (Ok \<lparr>tc_versions = [TLS13], tc_peer = ServerRoots [1], tc_chain = [7], tc_key = 7,
          tc_alpn = [ALPN_PROTOCOL]\<rparr>, w)"
  by (simp add: disk_simps)

lemma demo_insecure_key:
  "load_private_key (disk_ops demo_disk) ''open-key'' w =
     (Err (InsecurePrivateKeyPermissions ''open-key''), w)"
  by (simp add: disk_simps)


subsection \<open>Properties\<close>

text \<open>C30: loading the private key.  It succeeds exactly when the file holds one key and then no second
  one and, on Unix, its mode has no group or other bit.  There, with an insecure mode, and only
  there, the result is the permission error of that path, and the world is the one after the mode
  was read: the file is not opened.\<close>

theorem load_private_key_decides:
  "(load_private_key ops p w = (Ok k, w')) =
     (\<exists>w1 rd. (if t_unix ops then \<exists>mode. t_mode ops p w = (Ok mode, w1) \<and> mode AND 0x3F = 0 else w1 = w) \<and>
        t_open ops p w1 = (Ok rd, w') \<and> sole_key ops rd k)
   \<and> (load_private_key ops p w = (Err (InsecurePrivateKeyPermissions q), w')) =
     (t_unix ops \<and> (\<exists>mode. t_mode ops p w = (Ok mode, w') \<and> mode AND 0x3F \<noteq> 0 \<and> q = p))"
proof
  have "read_sole_key ops p rd \<noteq> Err (InsecurePrivateKeyPermissions q)" for rd
    by (auto simp: read_sole_key_def split: prod.splits result.splits option.splits)
  then show "(load_private_key ops p w = (Err (InsecurePrivateKeyPermissions q), w')) =
     (t_unix ops \<and> (\<exists>mode. t_mode ops p w = (Ok mode, w') \<and> mode AND 0x3F \<noteq> 0 \<and> q = p))"
    by (auto simp: load_private_key_def open_file_def check_private_key_permissions_def io_splits
        split: if_splits)
qed (rule load_private_key_Ok_iff [unfolded permitted_def])

end
