(* ===== verification/Server_Session.thy ===== *)
theory Server_Session
  imports Agent_Connect Tls Relay
begin

section \<open>One server session (src/server.rs, lines 19 to 91)\<close>

text \<open>
  What the server does with an accepted TCP connection: socket options, TLS handshake within ten
  seconds, ALPN check, connection to the local agent, and the relay.  The result is the log the
  session leaves: the warnings about socket options and how it ended.
\<close>

definition SERVER_TLS_HANDSHAKE_TIMEOUT :: duration where
  "SERVER_TLS_HANDSHAKE_TIMEOUT = from_secs 10"

datatype tcp_warning = NodelayFailed io_error | KeepaliveFailed io_error

datatype session_end =
    TlsRejected io_error
  | TlsTimedOut
  | AlpnRejected tls_error
  | AgentSetupFailed agent_error
  | SessionCompleted relay_stats
  | SessionCancelled
  | SessionRelayFailed io_error

text \<open>
  The operations of a session: the two socket options, \<open>timeout(d, acceptor.accept(stream))\<close>,
  the negotiated protocol of the TLS stream, the agent's operations, and the environment of the
  relay, which holds the session's shutdown receiver.
\<close>

record ('w, 'h, 's, 'u, 'st, 'tls) session_ops =
  s_set_nodelay :: "'st \<Rightarrow> ('w, unit, io_error) io"
  s_set_keepalive :: "'st \<Rightarrow> duration \<Rightarrow> ('w, unit, io_error) io"
  s_accept :: "duration \<Rightarrow> 'st \<Rightarrow> 'w \<Rightarrow> ('tls, io_error) result option \<times> 'w"
  s_alpn :: "'tls \<Rightarrow> u8 list option"
  s_agent :: "('w, 'h, 's, 'u) agent_ops"
  s_relay :: "('tls, ('s, 'u) agent_stream, 'w) relay_env"

definition server_configure_tcp ::
  "('w, 'h, 's, 'u, 'st, 'tls) session_ops \<Rightarrow> 'st \<Rightarrow> 'w \<Rightarrow> tcp_warning list \<times> 'w" where
  "server_configure_tcp ops stream w =
     (case s_set_nodelay ops stream w of (r1, w1) \<Rightarrow>
        (case s_set_keepalive ops stream (from_secs 30) w1 of (r2, w2) \<Rightarrow>
           ((case r1 of Err e \<Rightarrow> [NodelayFailed e] | Ok _ \<Rightarrow> []) @
            (case r2 of Err e \<Rightarrow> [KeepaliveFailed e] | Ok _ \<Rightarrow> []), w2)))"

definition relay_agent ::
  "('w, 'h, 's, 'u, 'st, 'tls) session_ops \<Rightarrow> 'tls \<Rightarrow> ('s, 'u) agent_stream \<Rightarrow> 'w \<Rightarrow>
     (session_end \<times> 'w) option" where
  "relay_agent ops tls_stream agent w =
     (case relay (s_relay ops) tls_stream agent w of
        None \<Rightarrow> None
      | Some (Ok stats, w') \<Rightarrow> Some (SessionCompleted stats, w')
      | Some (Err e, w') \<Rightarrow>
          Some (if io_kind e = Interrupted then SessionCancelled else SessionRelayFailed e, w'))"

definition session ::
  "('w, 'h, 's, 'u, 'st, 'tls) session_ops \<Rightarrow> 'st \<Rightarrow> agent_connector \<Rightarrow> 'w \<Rightarrow>
     (tcp_warning list \<times> session_end \<times> 'w) option" where
  "session ops stream connector w =
     (case server_configure_tcp ops stream w of (warnings, w0) \<Rightarrow>
        map_option (Pair warnings)
          (case s_accept ops SERVER_TLS_HANDSHAKE_TIMEOUT stream w0 of
             (Some (Err e), w1) \<Rightarrow> Some (TlsRejected e, w1)
           | (None, w1) \<Rightarrow> Some (TlsTimedOut, w1)
           | (Some (Ok tls_stream), w1) \<Rightarrow>
               (case validate_alpn (s_alpn ops tls_stream) of
                  Err e \<Rightarrow> Some (AlpnRejected e, w1)
                | Ok _ \<Rightarrow>
                    (case agent_connect (s_agent ops) connector w1 of
                       None \<Rightarrow> None
                     | Some (Err e, w2) \<Rightarrow> Some (AgentSetupFailed e, w2)
                     | Some (Ok agent, w2) \<Rightarrow> relay_agent ops tls_stream agent w2))))"


subsection \<open>Ends of a session\<close>

lemma validate_alpn_Ok_iff: "validate_alpn p = Ok u \<longleftrightarrow> p = Some ALPN_PROTOCOL"
  by (simp add: validate_alpn_def)

lemma relay_agent_Some_iff:
  "relay_agent ops tls agent w = Some (out, w') \<longleftrightarrow>
     (\<exists>r. relay (s_relay ops) tls agent w = Some (r, w') \<and>
        out = (case r of Ok st \<Rightarrow> SessionCompleted st
               | Err e \<Rightarrow> if io_kind e = Interrupted then SessionCancelled
                          else SessionRelayFailed e))"
  by (auto simp: relay_agent_def split: option.splits prod.splits result.splits)

text \<open>The handshake a session makes, and the peer it authenticated.\<close>

definition handshake ::
  "('w, 'h, 's, 'u, 'st, 'tls) session_ops \<Rightarrow> 'st \<Rightarrow> 'w \<Rightarrow> ('tls, io_error) result option \<times> 'w" where
  "handshake ops stream w =
     s_accept ops SERVER_TLS_HANDSHAKE_TIMEOUT stream (snd (server_configure_tcp ops stream w))"

lemma session_eq:
  "session ops stream connector w =
     map_option (Pair (fst (server_configure_tcp ops stream w)))
       (case handshake ops stream w of
          (Some (Err e), w1) \<Rightarrow> Some (TlsRejected e, w1)
        | (None, w1) \<Rightarrow> Some (TlsTimedOut, w1)
        | (Some (Ok tls), w1) \<Rightarrow>
            if s_alpn ops tls \<noteq> Some ALPN_PROTOCOL then Some (AlpnRejected AlpnMismatch, w1)
            else (case agent_connect (s_agent ops) connector w1 of
                None \<Rightarrow> None
              | Some (Err e, w2) \<Rightarrow> Some (AgentSetupFailed e, w2)
              | Some (Ok agent, w2) \<Rightarrow> relay_agent ops tls agent w2))"
  by (simp add: session_def handshake_def validate_alpn_def case_prod_unfold
      split: option.splits result.splits)

fun refused :: "session_end \<Rightarrow> bool" where
  "refused (TlsRejected _) = True"
| "refused TlsTimedOut = True"
| "refused (AlpnRejected _) = True"
| "refused _ = False"

lemma relay_agent_not_refused: "relay_agent ops tls agent w = Some (out, w') \<Longrightarrow> \<not> refused out"
  by (auto simp: relay_agent_def split: option.splits prod.splits result.splits if_splits)

lemma session_cases:
  assumes "session ops stream connector w = Some (ws, out, w')"
  obtains
    (refused) "refused out" "snd (handshake ops stream w) = w'"
      "\<And>tls. fst (handshake ops stream w) = Some (Ok tls) \<Longrightarrow> s_alpn ops tls \<noteq> Some ALPN_PROTOCOL"
  | (no_agent) tls w1 e where "handshake ops stream w = (Some (Ok tls), w1)"
      "s_alpn ops tls = Some ALPN_PROTOCOL" "out = AgentSetupFailed e"
      "agent_connect (s_agent ops) connector w1 = Some (Err e, w')"
  | (relayed) tls w1 agent w2 where "handshake ops stream w = (Some (Ok tls), w1)"
      "s_alpn ops tls = Some ALPN_PROTOCOL"
      "agent_connect (s_agent ops) connector w1 = Some (Ok agent, w2)"
      "relay_agent ops tls agent w2 = Some (out, w')"
proof -
  obtain h w1 where hs: "handshake ops stream w = (h, w1)" by fastforce
  show ?thesis
  proof (cases h)
    case None
    with assms hs show ?thesis by (auto simp: session_eq intro!: refused)
  next
    case (Some r)
    show ?thesis
    proof (cases r)
      case (Err e)
      with Some assms hs show ?thesis by (auto simp: session_eq intro!: refused)
    next
      case (Ok tls)
      note hs' = hs [unfolded Some Ok]
      show ?thesis
      proof (cases "s_alpn ops tls = Some ALPN_PROTOCOL")
        case False
        with hs' assms show ?thesis by (auto simp: session_eq intro!: refused)
      next
        case True
        with hs' assms have body: "(case agent_connect (s_agent ops) connector w1 of
            None \<Rightarrow> None
          | Some (Err e, w2) \<Rightarrow> Some (AgentSetupFailed e, w2)
          | Some (Ok agent, w2) \<Rightarrow> relay_agent ops tls agent w2) = Some (out, w')"
          by (auto simp: session_eq)
        then obtain a w2 where ac: "agent_connect (s_agent ops) connector w1 = Some (a, w2)"
          by (auto split: option.splits)
        show ?thesis
        proof (cases a)
          case (Err e)
          with body ac no_agent [OF hs' True] show ?thesis by auto
        next
          case (Ok agent)
          with body ac relayed [OF hs' True] show ?thesis by simp
        qed
      qed
    qed
  qed
qed


text \<open>The Gpg4win connector hands over a stream on which the nonce was the first thing sent.\<close>

lemma agent_connect_gpg4win_authenticated:
  "agent_connect ops (ConnGpg4winRedirect p) w = Some (Ok agent, w') \<Longrightarrow>
     authenticated_connection ops p agent w'"
  by (auto simp: connect_gpg4win_def connect_gpg4win_with_window_def connect_outcome_def
      dest: connect_loop_outcome)

lemma agent_connect_returns: "agent_clock ops \<Longrightarrow> \<exists>y. agent_connect ops connector w = Some y"
proof (cases connector)
  case (ConnGpg4winRedirect p)
  assume "agent_clock ops"
  from agent_clock.connect_gpg4win_eq_within [OF this, of p w] ConnGpg4winRedirect
  show ?thesis by auto
qed simp


subsection \<open>How long the set-up takes\<close>

text \<open>
  What bounds it: no operation of the handshake lasts more than \<open>slack\<close> beyond its timeout, and no
  connection attempt to the agent more than \<open>attempt_max\<close>.
\<close>

locale session_clock = agent_clock_bounded "s_agent ops" attempt_max slack
  for ops :: "('w, 'h, 's, 'u, 'st, 'tls) session_ops" and attempt_max slack :: nat +
  assumes nodelay_le: "a_now (s_agent ops) (snd (s_set_nodelay ops st w)) \<le> a_now (s_agent ops) w + slack"
    and keepalive_le:
      "a_now (s_agent ops) (snd (s_set_keepalive ops st d w)) \<le> a_now (s_agent ops) w + slack"
    and accept_le: "a_now (s_agent ops) (snd (s_accept ops d st w)) \<le> a_now (s_agent ops) w + d + slack"
    and unix_connect_le:
      "a_now (s_agent ops) (snd (a_unix_connect (s_agent ops) p w)) \<le> a_now (s_agent ops) w + attempt_max"
begin

abbreviation "session_now \<equiv> a_now (s_agent ops)"

lemma handshake_le:
  "session_now (snd (handshake ops stream w)) \<le> session_now w + from_secs 10 + 3 * slack"
proof -
  have "session_now (snd (server_configure_tcp ops stream w)) \<le> session_now w + 2 * slack"
    using nodelay_le [of stream w]
      keepalive_le [of stream "from_secs 30" "snd (s_set_nodelay ops stream w)"]
    by (simp add: server_configure_tcp_def case_prod_unfold)
  with accept_le [of SERVER_TLS_HANDSHAKE_TIMEOUT stream "snd (server_configure_tcp ops stream w)"]
  show ?thesis by (simp add: handshake_def SERVER_TLS_HANDSHAKE_TIMEOUT_def)
qed

lemma agent_connect_le:
  assumes "agent_connect (s_agent ops) connector w = Some (r, w')"
  shows "session_now w' \<le> session_now w + from_secs 15 + from_millis 200 + slack + attempt_max"
proof (cases connector)
  case (ConnGpg4winRedirect p)
  with gpg4win_connect_time [OF agent_clock_bounded_axioms] assms show ?thesis by simp
next
  case (ConnUnixSocket p)
  with assms unix_connect_le [of p w] show ?thesis
    by (auto split: prod.splits result.splits)
qed

end


subsection \<open>A simulated peer, for the witnesses\<close>

definition demo_session_ops ::
  "u8 list option \<Rightarrow> (unit, unit) result option \<Rightarrow>
     (sim_host, u8 list, u16, unit, unit, unit) session_ops" where
  "demo_session_ops alpn changed =
     \<lparr>s_set_nodelay = (\<lambda>st w. (Ok (), w)),
      s_set_keepalive = (\<lambda>st d w. (Err (io_error_new Unsupported []), w)),
      s_accept = (\<lambda>d st w. (Some (Ok ()), w)),
      s_alpn = (\<lambda>tls. alpn),
      s_agent = host_ops (\<lambda>t. Some demo_redirect) (\<lambda>t port. port = 4321),
      s_relay = (\<lambda>tls agent w. (False, Some (Ok (7, 5)), changed, w))\<rparr>"

lemma demo_session_agent [simp]:
  "s_agent (demo_session_ops alpn changed) =
     host_ops (\<lambda>t. Some demo_redirect) (\<lambda>t port. port = 4321)"
  by (simp add: demo_session_ops_def)

interpretation demo_clock: session_clock "demo_session_ops alpn changed" 1000000 0
  for alpn changed
  by (intro session_clock.intro session_clock_axioms.intro)
     (simp_all add: host.agent_clock_bounded_axioms, simp_all add: demo_session_ops_def host_ops_def)

definition demo_host :: sim_host where
  "demo_host = \<lparr>sim_clock = 0, sim_sent = []\<rparr>"

definition demo_host_connected :: sim_host where
  "demo_host_connected = \<lparr>sim_clock = 1000000, sim_sent = [(4321, replicate 16 42)]\<rparr>"

lemma demo_agent_connect:
  "agent_connect (host_ops (\<lambda>t. Some demo_redirect) (\<lambda>t port. port = 4321))
     (ConnGpg4winRedirect p) demo_host = Some (Ok (StreamGpg4win 4321), demo_host_connected)"
  using host_attempt_ready [of "\<lambda>t. Some demo_redirect" demo_host demo_redirect _
      "\<lambda>t port. port = 4321" p]
  by (simp add: connect_gpg4win_def connect_gpg4win_with_window_def connect_loop.simps
      demo_redirect_facts demo_host_def demo_host_connected_def)

lemma demo_session_wrong_alpn:
  "session (demo_session_ops (Some [0]) None) () (ConnGpg4winRedirect p) demo_host =
     Some ([KeepaliveFailed (io_error_new Unsupported [])], AlpnRejected AlpnMismatch, demo_host)"
  by (simp add: session_def server_configure_tcp_def demo_session_ops_def validate_alpn_def
      ALPN_PROTOCOL_def lit_def)


subsection \<open>Properties\<close>

text \<open>C1: the agent is reached by authenticated peers only.  A session is refused exactly when the
  TLS handshake did not succeed in time or negotiated another protocol than the bridge's; a
  refused session leaves the world as the handshake left it, so no operation of the agent, the
  redirect file or the relay was performed.\<close>

theorem agent_only_after_authentication:
  assumes "session ops stream connector w = Some (ws, out, w')"
  shows "refused out =
       (\<nexists>tls w1. handshake ops stream w = (Some (Ok tls), w1) \<and>
          s_alpn ops tls = Some ALPN_PROTOCOL)
     \<and> (if refused out then w' = snd (handshake ops stream w)
        else \<exists>tls w1 a w2. handshake ops stream w = (Some (Ok tls), w1) \<and>
          s_alpn ops tls = Some ALPN_PROTOCOL \<and>
          agent_connect (s_agent ops) connector w1 = Some (a, w2))"
  using assms
proof (cases rule: session_cases)
  case refused
  then show ?thesis by (cases "handshake ops stream w") auto
next
  case no_agent
  then show ?thesis by simp
next
  case relayed
  then show ?thesis by (simp add: relay_agent_not_refused)
qed

theorem agent_only_after_authentication_witness:
  "refused (AlpnRejected AlpnMismatch) \<and>
   snd (handshake (demo_session_ops (Some [0]) None) () demo_host) = demo_host"
  using agent_only_after_authentication [OF demo_session_wrong_alpn] by simp

text \<open>The nonce comes before any relayed byte.  When a session with the Gpg4win backend ends in
  any other way than a refusal or a failed agent setup, the relay was run, and it started in the
  very world in which the agent connection had just been made and its nonce flushed, with a peer
  that had negotiated the bridge's protocol.\<close>

lemma relay_starts_after_nonce:
  assumes "session ops stream (ConnGpg4winRedirect p) w = Some (ws, out, w')"
    and "\<not> refused out" "\<And>e. out \<noteq> AgentSetupFailed e"
  shows "\<exists>tls agent w2 r. s_alpn ops tls = Some ALPN_PROTOCOL \<and>
     authenticated_connection (s_agent ops) p agent w2 \<and>
     relay (s_relay ops) tls agent w2 = Some (r, w')"
  using assms(1)
proof (cases rule: session_cases)
  case relayed
  then show ?thesis
    by (auto simp: relay_agent_Some_iff dest: agent_connect_gpg4win_authenticated
        simp del: agent_connect.simps)
qed (use assms in auto)

text \<open>Shutdown ends a session.  With a clock that never goes back and a shutdown signal that every
  relay wake-up finds ready, a session always ends, whatever the handshake, the agent and the
  copy do.\<close>

lemma session_ends_on_shutdown:
  assumes "agent_clock (s_agent ops)"
    and "\<And>tls agent w1. \<exists>b copy s w2. s_relay ops tls agent w1 = (b, copy, Some s, w2)"
  shows "\<exists>ws out w'. session ops stream connector w = Some (ws, out, w')"
proof -
  have "\<exists>y. relay_agent ops tls agent w1 = Some y" for tls agent w1
  proof -
    obtain b copy s w2 where "s_relay ops tls agent w1 = (b, copy, Some s, w2)"
      using assms(2) by blast
    then show ?thesis
      by (auto simp: relay_agent_def relay.simps relay_poll_changed split: prod.splits result.splits)
  qed
  moreover have "\<exists>y. agent_connect (s_agent ops) connector w1 = Some y" for w1
    using assms(1) by (rule agent_connect_returns)
  ultimately show ?thesis
    unfolding session_eq
    by (auto split: prod.splits option.splits result.splits simp del: agent_connect.simps)
       (metis option.distinct(1))+
qed

text \<open>C21: how long a connection can hold its place without a relay.  A session that is refused has
  ended within the ten seconds of the handshake and three slacks.  Any session has ended, or has
  its relay running, within the handshake, the agent's fifteen-second window, one retry delay and
  one attempt.\<close>

theorem server_session_set_up_in_time:
  assumes "session_clock ops attempt_max slack"
    and "session ops stream connector w = Some (ws, out, w')"
  shows "(refused out \<longrightarrow> a_now (s_agent ops) w' \<le> a_now (s_agent ops) w + from_secs 10 + 3 * slack) \<and>
     (\<exists>w1. a_now (s_agent ops) w1 \<le>
          a_now (s_agent ops) w + from_secs 25 + from_millis 200 + 4 * slack + attempt_max \<and>
        (w1 = w' \<or> (\<exists>tls agent. relay_agent ops tls agent w1 = Some (out, w'))))"
  using assms(2)
proof (cases rule: session_cases)
  case refused
  with session_clock.handshake_le [OF assms(1), of stream w] show ?thesis
    by (auto intro!: exI [of _ w'] simp: from_secs_def)
next
  case (no_agent tls w1 e)
  with session_clock.handshake_le [OF assms(1), of stream w]
    session_clock.agent_connect_le [OF assms(1) no_agent(4)] show ?thesis
    by (auto intro!: exI [of _ w'] simp: from_secs_def simp del: agent_connect.simps)
next
  case (relayed tls w1 agent w2)
  with session_clock.handshake_le [OF assms(1), of stream w] relay_agent_not_refused [OF relayed(4)]
    session_clock.agent_connect_le [OF assms(1) relayed(3)] show ?thesis
    by (auto intro!: exI [of _ w2] simp: from_secs_def simp del: agent_connect.simps)
qed

theorem server_session_set_up_in_time_witness:
  "sim_clock demo_host \<le> 0 + from_secs 10 \<and> refused (AlpnRejected AlpnMismatch)"
  using server_session_set_up_in_time [OF demo_clock.session_clock_axioms demo_session_wrong_alpn]
  by (simp add: demo_host_def)

end
