(* ===== verification/Options.thy ===== *)
theory Options
  imports Rust_Text
begin

section \<open>Validated options (src/error.rs, src/lib.rs)\<close>

text \<open>
  The option structs of the two roles and the constructors that validate them.  A
  \<open>usize\<close> is a 64-bit word; \<open>NonZeroUsize\<close> is one that the constructor has checked.
\<close>

type_synonym usize = u64

datatype config_error = EmptyPath | EmptyServerAddress | EmptyServerName | ZeroMaxConnections

datatype socket_addr = SocketAddrV4 ipv4 u16 | SocketAddrV6 "128 word" u16

datatype server_agent = Gpg4winRedirect path | UnixSocket path

record server_options =
  so_listen_address :: socket_addr
  so_agent :: server_agent
  so_client_ca_cert :: path
  so_server_cert :: path
  so_server_key :: path
  so_max_connections :: usize

record client_options =
  co_listen_socket :: path
  co_server_address :: rstr
  co_server_name :: rstr
  co_server_ca_cert :: path
  co_client_cert :: path
  co_client_key :: path
  co_max_connections :: usize

text \<open>The loop returns at the first empty path; the limit is looked at after all of them.\<close>

fun validate_options :: "path list \<Rightarrow> usize \<Rightarrow> (usize, config_error) result" where
  "validate_options [] n = (if n = 0 then Err ZeroMaxConnections else Ok n)"
| "validate_options (p # ps) n = (if p = [] then Err EmptyPath else validate_options ps n)"

fun agent_path :: "server_agent \<Rightarrow> path" where
  "agent_path (Gpg4winRedirect p) = p"
| "agent_path (UnixSocket p) = p"

definition server_options_new_with_agent ::
  "socket_addr \<Rightarrow> server_agent \<Rightarrow> path \<Rightarrow> path \<Rightarrow> path \<Rightarrow> usize \<Rightarrow>
     (server_options, config_error) result" where
  "server_options_new_with_agent listen_address agent client_ca server_cert server_key n =
     bind_result (validate_options [agent_path agent, client_ca, server_cert, server_key] n)
       (\<lambda>max_connections. Ok
          \<lparr>so_listen_address = listen_address, so_agent = agent, so_client_ca_cert = client_ca,
           so_server_cert = server_cert, so_server_key = server_key,
           so_max_connections = max_connections\<rparr>)"

definition server_options_new ::
  "socket_addr \<Rightarrow> path \<Rightarrow> path \<Rightarrow> path \<Rightarrow> path \<Rightarrow> usize \<Rightarrow>
     (server_options, config_error) result" where
  "server_options_new listen_address agent_extra_socket client_ca server_cert server_key n =
     server_options_new_with_agent listen_address (Gpg4winRedirect agent_extra_socket)
       client_ca server_cert server_key n"

definition client_options_new ::
  "path \<Rightarrow> rstr \<Rightarrow> rstr \<Rightarrow> path \<Rightarrow> path \<Rightarrow> path \<Rightarrow> usize \<Rightarrow>
     (client_options, config_error) result" where
  "client_options_new listen_socket server_address server_name server_ca client_cert client_key n =
     (if server_address = [] then Err EmptyServerAddress
      else if server_name = [] then Err EmptyServerName
      else bind_result (validate_options [listen_socket, server_ca, client_cert, client_key] n)
        (\<lambda>max_connections. Ok
           \<lparr>co_listen_socket = listen_socket, co_server_address = server_address,
            co_server_name = server_name, co_server_ca_cert = server_ca,
            co_client_cert = client_cert, co_client_key = client_key,
            co_max_connections = max_connections\<rparr>))"


subsection \<open>What validation guarantees\<close>

definition server_options_ok :: "server_options \<Rightarrow> bool" where
  "server_options_ok o' \<longleftrightarrow>
     agent_path (so_agent o') \<noteq> [] \<and> so_client_ca_cert o' \<noteq> [] \<and> so_server_cert o' \<noteq> [] \<and>
     so_server_key o' \<noteq> [] \<and> 0 < so_max_connections o'"

definition client_options_ok :: "client_options \<Rightarrow> bool" where
  "client_options_ok o' \<longleftrightarrow>
     co_server_address o' \<noteq> [] \<and> co_server_name o' \<noteq> [] \<and> co_listen_socket o' \<noteq> [] \<and>
     co_server_ca_cert o' \<noteq> [] \<and> co_client_cert o' \<noteq> [] \<and> co_client_key o' \<noteq> [] \<and>
     0 < co_max_connections o'"

lemma validate_options_eq:
  "validate_options ps n =
     (if [] \<in> set ps then Err EmptyPath else if n = 0 then Err ZeroMaxConnections else Ok n)"
  by (induction ps) auto

lemma server_options_new_with_agent_Ok_iff:
  "server_options_new_with_agent la ag ca cert key n = Ok opts \<longleftrightarrow>
     server_options_ok opts \<and>
     opts = \<lparr>so_listen_address = la, so_agent = ag, so_client_ca_cert = ca,
             so_server_cert = cert, so_server_key = key, so_max_connections = n\<rparr>"
  by (auto simp: server_options_new_with_agent_def validate_options_eq server_options_ok_def
      bind_result_Ok_iff word_gt_0)

lemma client_options_new_Ok_iff:
  "client_options_new ls sa sn ca cert key n = Ok opts \<longleftrightarrow>
     client_options_ok opts \<and>
     opts = \<lparr>co_listen_socket = ls, co_server_address = sa, co_server_name = sn,
             co_server_ca_cert = ca, co_client_cert = cert, co_client_key = key,
             co_max_connections = n\<rparr>"
  by (auto simp: client_options_new_def validate_options_eq client_options_ok_def
      bind_result_Ok_iff word_gt_0)

text \<open>What a server can be started with.  The constructor succeeds exactly for a non-empty
  agent path of either transport, non-empty certificate and key paths and a positive connection
  limit; the options then carry the arguments unchanged, and every refusal is one of two errors,
  an empty path before a zero limit.\<close>

lemma server_options_validated:
  "(server_options_new_with_agent la ag ca cert key n = Ok opts) =
     (server_options_ok opts \<and>
      opts = \<lparr>so_listen_address = la, so_agent = ag, so_client_ca_cert = ca,
              so_server_cert = cert, so_server_key = key, so_max_connections = n\<rparr>)
   \<and> (server_options_new_with_agent la ag ca cert key n = Err e) =
     (if [] \<in> {agent_path ag, ca, cert, key} then e = EmptyPath
      else n = 0 \<and> e = ZeroMaxConnections)"
  by (simp only: server_options_new_with_agent_Ok_iff)
     (auto simp: server_options_new_with_agent_def validate_options_eq bind_result_Err_iff)

text \<open>What a client can be started with.  Success needs a non-empty server address and name,
  non-empty paths and a positive limit, and keeps the arguments; the errors are reported in the
  order address, name, path, limit.\<close>

lemma client_options_validated:
  "(client_options_new ls sa sn ca cert key n = Ok opts) =
     (client_options_ok opts \<and>
      opts = \<lparr>co_listen_socket = ls, co_server_address = sa, co_server_name = sn,
              co_server_ca_cert = ca, co_client_cert = cert, co_client_key = key,
              co_max_connections = n\<rparr>)
   \<and> (client_options_new ls sa sn ca cert key n = Err e) =
     (if sa = [] then e = EmptyServerAddress
      else if sn = [] then e = EmptyServerName
      else if [] \<in> {ls, ca, cert, key} then e = EmptyPath
      else n = 0 \<and> e = ZeroMaxConnections)"
  by (simp only: client_options_new_Ok_iff)
     (auto simp: client_options_new_def validate_options_eq bind_result_Err_iff)

end
