(* ===== verification/Server_Loop.thy ===== *)
theory Server_Loop
  imports Session_Gate Server_Session Options
begin

section \<open>The server's accept loop (src/server.rs, lines 19 to 25 and 93 to 161)\<close>

text \<open>
  \<open>run_server_until\<close>: TLS configuration, listener, connection limit, then the \<open>select!\<close> loop
  and the drain.  \<open>server_on\<close> is what the server does when one branch of the \<open>select!\<close> or of
  the drain wins, and what happens to its state from outside (a session ends, the shutdown
  handler acts); \<open>server_step\<close> is any one of them.
\<close>

datatype server_error = ServerTls tls_error | ServerBind io_error

record ('roots, 'cert, 'key) server_context =
  sx_acceptor :: "('roots, 'cert, 'key) tls_config"
  sx_connector :: agent_connector

text \<open>A session task holds what the spawned block moves in: the arguments of \<open>session\<close>.\<close>

record ('st, 'roots, 'cert, 'key, 'r) server_task =
  st_stream :: 'st
  st_acceptor :: "('roots, 'cert, 'key) tls_config"
  st_connector :: agent_connector
  st_shutdown :: 'r

record ('w, 'rd, 'cert, 'key, 'roots, 'lis) server_host =
  sh_tls :: "('w, 'rd, 'cert, 'key, 'roots) tls_ops"
  sh_bind :: "socket_addr \<Rightarrow> ('w, 'lis, io_error) io"
  sh_local_addr :: "'lis \<Rightarrow> ('w, socket_addr, io_error) io"

fun server_connector :: "server_agent \<Rightarrow> agent_connector" where
  "server_connector (Gpg4winRedirect p) = connector_gpg4win p"
| "server_connector (UnixSocket p) = ConnUnixSocket p"

text \<open>Everything before the loop; a result of \<open>None\<close> is a panic.\<close>

definition server_startup ::
  "('w, 'rd, 'cert, 'key, 'roots, 'lis) server_host \<Rightarrow> ('sem, 'js, 'k, 'c, 'r) runtime_ops \<Rightarrow>
   server_options \<Rightarrow> 'c \<Rightarrow> 'r \<Rightarrow> 'w \<Rightarrow>
     (('lis \<times> ('roots, 'cert, 'key) server_context \<times> ('sem, 'js, 'c, 'r) loop_state,
       server_error) result option) \<times> 'w" where
  "server_startup host rt options channel shutdown w =
     (case map_err_io ServerTls (server_config (sh_tls host) (so_client_ca_cert options)
             (so_server_cert options) (so_server_key options)) w of
        (Err e, w1) \<Rightarrow> (Some (Err e), w1)
      | (Ok config, w1) \<Rightarrow>
          (case bind_io (map_err_io ServerBind (sh_bind host (so_listen_address options)))
                 (\<lambda>listener. bind_io (map_err_io ServerBind (sh_local_addr host listener))
                    (\<lambda>_. return_io (Ok listener))) w1 of
             (Err e, w2) \<Rightarrow> (Some (Err e), w2)
           | (Ok listener, w2) \<Rightarrow>
               (map_option (\<lambda>s. Ok (listener,
                    \<lparr>sx_acceptor = config, sx_connector = server_connector (so_agent options)\<rparr>, s))
                  (loop_start rt (unat (so_max_connections options)) channel shutdown), w2)))"

datatype ('st, 'k) server_event =
    ServerShutdown
  | ServerAccepted "('st, io_error) result"
  | ServerJoined bool
  | ServerDrained
  | ServerDrainOver bool
  | ServerTaskEnds 'k
  | ServerSignalled bool
  | ServerSenderDropped

text \<open>
  \<open>ServerDrainOver timed_out\<close>: the drain returns because no task is left, or its ten seconds are
  over; then all tasks are aborted and the function returns.
\<close>

fun server_on ::
  "('sem, 'js, ('st, 'roots, 'cert, 'key, 'r) server_task, 'c, 'r) runtime_ops \<Rightarrow>
   ('roots, 'cert, 'key) server_context \<Rightarrow>
   ('st, ('st, 'roots, 'cert, 'key, 'r) server_task) server_event \<Rightarrow>
   ('sem, 'js, 'c, 'r) loop_state \<Rightarrow> ('sem, 'js, 'c, 'r) loop_state option" where
  "server_on rt ctx ServerShutdown s =
     (if l_phase s = Accepting then shutdown_branch rt s else None)"
| "server_on rt ctx (ServerAccepted (Ok stream)) s =
     (if l_phase s = Accepting
      then Some (admit rt \<lparr>st_stream = stream, st_acceptor = sx_acceptor ctx,
                           st_connector = sx_connector ctx, st_shutdown = l_receiver s\<rparr> s)
      else None)"
| "server_on rt ctx (ServerAccepted (Err e)) s =
     (if l_phase s = Accepting then Some (warn (AcceptFailed e) s) else None)"
| "server_on rt ctx (ServerJoined panicked) s =
     (if l_phase s = Accepting then join_branch rt panicked s else None)"
| "server_on rt ctx ServerDrained s =
     (if l_phase s = Draining then drain_one rt s else None)"
| "server_on rt ctx (ServerDrainOver timed_out) s =
     (if l_phase s = Draining \<and> (timed_out \<or> js_is_empty (rt_join_set rt) (l_sessions s))
      then Some (abort_sessions rt s) else None)"
| "server_on rt ctx (ServerTaskEnds task) s =
     (if l_phase s \<noteq> Stopped then task_ends rt task s else None)"
| "server_on rt ctx (ServerSignalled v) s =
     Some (s\<lparr>l_channel := wt_send (rt_watch rt) v (l_channel s)\<rparr>)"
| "server_on rt ctx ServerSenderDropped s =
     Some (s\<lparr>l_channel := wt_drop_sender (rt_watch rt) (l_channel s)\<rparr>)"

inductive server_step ::
  "('sem, 'js, ('st, 'roots, 'cert, 'key, 'r) server_task, 'c, 'r) runtime_ops \<Rightarrow>
   ('roots, 'cert, 'key) server_context \<Rightarrow>
   ('sem, 'js, 'c, 'r) loop_state \<Rightarrow> ('sem, 'js, 'c, 'r) loop_state \<Rightarrow> bool"
  for rt ctx where
  event: "server_on rt ctx ev s = Some s' \<Longrightarrow> server_step rt ctx s s'"

inductive_cases server_stepE: "server_step rt ctx s s'"

text \<open>A sequence of events; \<open>None\<close> when one of them cannot happen.\<close>

fun server_run ::
  "('sem, 'js, ('st, 'roots, 'cert, 'key, 'r) server_task, 'c, 'r) runtime_ops \<Rightarrow>
   ('roots, 'cert, 'key) server_context \<Rightarrow>
   ('st, ('st, 'roots, 'cert, 'key, 'r) server_task) server_event list \<Rightarrow>
   ('sem, 'js, 'c, 'r) loop_state \<Rightarrow> ('sem, 'js, 'c, 'r) loop_state option" where
  "server_run rt ctx [] s = Some s"
| "server_run rt ctx (ev # evs) s =
     (case server_on rt ctx ev s of None \<Rightarrow> None | Some s' \<Rightarrow> server_run rt ctx evs s')"

lemma server_run_steps: "server_run rt ctx evs s = Some s' \<Longrightarrow> (server_step rt ctx)\<^sup>*\<^sup>* s s'"
  by (induction evs arbitrary: s)
     (auto split: option.splits intro: converse_rtranclp_into_rtranclp server_step.event)

text \<open>
  The whole function, as the results it can return; and \<open>run_server\<close>, whose spawned shutdown
  handler acts on the channel through the last two events.
\<close>

inductive run_server_until ::
  "('w, 'rd, 'cert, 'key, 'roots, 'lis) server_host \<Rightarrow>
   ('sem, 'js, ('st, 'roots, 'cert, 'key, 'r) server_task, 'c, 'r) runtime_ops \<Rightarrow>
   server_options \<Rightarrow> 'c \<Rightarrow> 'r \<Rightarrow> 'w \<Rightarrow> (unit, server_error) result \<Rightarrow> bool"
  for host rt options channel shutdown w where
  startup_fails: "server_startup host rt options channel shutdown w = (Some (Err e), w') \<Longrightarrow>
     run_server_until host rt options channel shutdown w (Err e)"
| stopped: "server_startup host rt options channel shutdown w = (Some (Ok (lis, ctx, s0)), w') \<Longrightarrow>
     (server_step rt ctx)\<^sup>*\<^sup>* s0 s \<Longrightarrow> l_phase s = Stopped \<Longrightarrow>
     run_server_until host rt options channel shutdown w (Ok ())"

definition run_server ::
  "('w, 'rd, 'cert, 'key, 'roots, 'lis) server_host \<Rightarrow>
   ('sem, 'js, ('st, 'roots, 'cert, 'key, 'r) server_task, 'c, 'r) runtime_ops \<Rightarrow>
   server_options \<Rightarrow> 'w \<Rightarrow> (unit, server_error) result \<Rightarrow> bool" where
  "run_server host rt options w r \<longleftrightarrow>
     (case wt_channel (rt_watch rt) False of (sender, receiver) \<Rightarrow>
        run_server_until host rt options sender receiver w r)"


subsection \<open>The loop keeps the invariant and implements the gate\<close>

locale server_runtime =
  loop_runtime rt available running finished version closed seen st_shutdown
  for rt :: "('sem, 'js, ('st, 'roots, 'cert, 'key, 'r) server_task, 'c, 'r) runtime_ops"
    and available running finished version closed seen
begin

lemma server_on_inv:
  assumes "server_on rt ctx ev s = Some s'" "loop_inv limit s"
  shows "loop_inv limit s'"
proof (cases ev)
  case ServerShutdown
  with assms shutdown_branch_inv show ?thesis by (simp split: if_splits)
next
  case (ServerAccepted r)
  with assms show ?thesis by (cases r) (auto simp: admit_inv split: if_splits)
next
  case (ServerJoined panicked)
  with assms join_branch_inv show ?thesis by (simp split: if_splits)
next
  case ServerDrained
  with assms drain_one_inv show ?thesis by (simp split: if_splits)
next
  case (ServerDrainOver timed_out)
  with assms show ?thesis by (auto simp: abort_inv split: if_splits)
next
  case (ServerTaskEnds task)
  with assms task_ends_inv show ?thesis by (simp split: if_splits)
qed (use assms in \<open>auto simp: send_inv drop_inv\<close>)

lemma server_on_gate:
  assumes "server_on rt ctx ev s = Some s'" "loop_inv limit s"
  shows "gate_step limit (abs_gate s) (abs_gate s')"
proof (cases ev)
  case ServerShutdown
  with assms shutdown_branch_gate show ?thesis by (simp split: if_splits)
next
  case (ServerAccepted r)
  with assms show ?thesis by (cases r) (auto simp: admit_gate split: if_splits)
next
  case (ServerJoined panicked)
  with assms join_branch_gate show ?thesis by (simp split: if_splits)
next
  case ServerDrained
  with assms drain_one_gate show ?thesis by (simp split: if_splits)
next
  case (ServerDrainOver timed_out)
  with assms abort_gate [of s] show ?thesis by (auto split: if_splits)
next
  case (ServerTaskEnds task)
  with assms task_ends_gate show ?thesis by (simp split: if_splits)
qed (use assms in \<open>auto simp: channel_gate\<close>)

lemma server_steps:
  assumes "(server_step rt ctx)\<^sup>*\<^sup>* s s'" "loop_inv limit s"
  shows "loop_inv limit s' \<and> (gate_step limit)\<^sup>*\<^sup>* (abs_gate s) (abs_gate s')"
  using assms(1)
proof (induction rule: rtranclp_induct)
  case base
  with assms(2) show ?case by simp
next
  case (step t u)
  from step(2) obtain ev where "server_on rt ctx ev t = Some u" by (rule server_stepE)
  with step(3) show ?case
    using server_on_inv server_on_gate rtranclp.rtrancl_into_rtrancl by metis
qed

lemma server_room:
  assumes "loop_inv limit s" "l_phase s = Accepting"
  shows "available (l_permits s) + size (running (l_sessions s)) = limit \<and>
    (\<exists>s' task. server_on rt ctx (ServerAccepted (Ok stream)) s = Some s' \<and> st_stream task = stream \<and>
       (if size (running (l_sessions s)) < limit
        then running (l_sessions s') = add_mset task (running (l_sessions s)) \<and> l_log s' = l_log s
        else l_sessions s' = l_sessions s \<and> l_log s' = l_log s @ [LimitReached]))"
proof -
  define task where "task = \<lparr>st_stream = stream, st_acceptor = sx_acceptor ctx,
    st_connector = sx_connector ctx, st_shutdown = l_receiver s\<rparr>"
  have "server_on rt ctx (ServerAccepted (Ok stream)) s = Some (admit rt task s)"
    "st_stream task = stream"
    using assms(2) by (simp_all add: task_def)
  with admit_room [OF assms, of task] inv_permits [OF assms(1)] assms(2) show ?thesis by auto
qed

text \<open>Every session uses the TLS configuration and the agent connector of the server.\<close>

definition tasks_in_context :: "('roots, 'cert, 'key) server_context \<Rightarrow> ('sem, 'js, 'c, 'r) loop_state \<Rightarrow> bool"
  where
  "tasks_in_context ctx s \<longleftrightarrow>
     (\<forall>task \<in># running (l_sessions s).
        st_acceptor task = sx_acceptor ctx \<and> st_connector task = sx_connector ctx)"

lemma tasks_in_context_subset:
  "tasks_in_context ctx s \<Longrightarrow>
   set_mset (running (l_sessions s')) \<subseteq> set_mset (running (l_sessions s)) \<Longrightarrow>
     tasks_in_context ctx s'"
  by (auto simp: tasks_in_context_def)

lemma server_on_tasks:
  assumes "server_on rt ctx ev s = Some s'" "tasks_in_context ctx s"
  shows "tasks_in_context ctx s'"
proof (cases ev)
  case ServerShutdown
  with assms show ?thesis
    by (auto split: if_splits dest!: shutdown_running intro: tasks_in_context_subset)
next
  case (ServerAccepted r)
  show ?thesis
  proof (cases r)
    case (Ok stream)
    with ServerAccepted assms show ?thesis
      using admit_running by (fastforce simp: tasks_in_context_def split: if_splits)
  next
    case (Err e)
    with ServerAccepted assms show ?thesis
      by (auto simp: tasks_in_context_def warn_def split: if_splits)
  qed
next
  case (ServerJoined panicked)
  with assms show ?thesis
    by (auto split: if_splits dest!: join_branch_eq intro: tasks_in_context_subset)
next
  case ServerDrained
  with assms show ?thesis
    by (auto split: if_splits dest!: drain_running intro: tasks_in_context_subset)
next
  case (ServerDrainOver timed_out)
  with assms show ?thesis
    by (auto simp: tasks_in_context_def abort_running split: if_splits)
next
  case (ServerTaskEnds task)
  with assms show ?thesis
    by (auto split: if_splits dest!: task_ends_running intro: tasks_in_context_subset)
qed (use assms in \<open>auto simp: tasks_in_context_def\<close>)

lemma server_steps_tasks:
  assumes "(server_step rt ctx)\<^sup>*\<^sup>* s0 s" "loop_start rt limit c r = Some s0"
  shows "tasks_in_context ctx s"
  using assms(1)
proof (induction rule: rtranclp_induct)
  case base
  with start_running [OF assms(2)] show ?case by (simp add: tasks_in_context_def)
next
  case (step t u)
  then show ?case by (auto elim: server_stepE intro: server_on_tasks)
qed

lemma server_startup_loop_start:
  assumes "server_startup host rt options c r w = (Some (Ok (lis, ctx, s0)), w')"
  shows "loop_start rt (unat (so_max_connections options)) c r = Some s0 \<and>
    sx_connector ctx = server_connector (so_agent options) \<and>
    (\<exists>w1. server_config (sh_tls host) (so_client_ca_cert options) (so_server_cert options)
       (so_server_key options) w = (Ok (sx_acceptor ctx), w1))"
  using assms
  by (auto simp: server_startup_def io_splits split: prod.splits result.splits)

lemma server_session_context:
  assumes "server_startup host rt options c r w = (Some (Ok (lis, ctx, s0)), w')"
    and "(server_step rt ctx)\<^sup>*\<^sup>* s0 s" "task \<in># running (l_sessions s)"
  shows "st_connector task = server_connector (so_agent options) \<and>
    (\<exists>w1. server_config (sh_tls host) (so_client_ca_cert options) (so_server_cert options)
       (so_server_key options) w = (Ok (st_acceptor task), w1))"
  using server_startup_loop_start [OF assms(1)] server_steps_tasks [OF assms(2)] assms(3)
  by (auto simp: tasks_in_context_def)

lemma server_reachable:
  assumes "loop_start rt limit c r = Some s0" "(server_step rt ctx)\<^sup>*\<^sup>* s0 s"
  shows "loop_inv limit s \<and>
    (gate_step limit)\<^sup>*\<^sup>* (Accepting, 0) (l_phase s, size (running (l_sessions s)))"
  using server_steps [OF assms(2) start_inv [OF assms(1)]] start_gate [OF assms(1)]
  by (simp add: abs_gate_def)

end

interpretation server_rt: server_runtime demo_runtime "\<lambda>s. s" "\<lambda>js. mset (fst js)"
    "\<lambda>js. mset (snd js)" wc_version wc_closed "\<lambda>r. r"
  by unfold_locales


subsection \<open>A demonstration run\<close>

text \<open>
  One permit, two connections, the signal, the shutdown branch, and the end of the one session.
\<close>

type_synonym demo_task = "(string, unit, unit, unit, nat) server_task"

definition demo_context :: "(unit, unit, unit) server_context" where
  "demo_context = \<lparr>sx_acceptor = \<lparr>tc_versions = [TLS13], tc_peer = ClientVerifier (), tc_chain = [()],
     tc_key = (), tc_alpn = [ALPN_PROTOCOL]\<rparr>, sx_connector = ConnGpg4winRedirect ''f''\<rparr>"

definition demo_task :: "string \<Rightarrow> demo_task" where
  "demo_task stream = \<lparr>st_stream = stream, st_acceptor = sx_acceptor demo_context,
     st_connector = sx_connector demo_context, st_shutdown = 0\<rparr>"

definition demo_loop :: "nat \<Rightarrow> demo_task list \<Rightarrow> watch_chan \<Rightarrow> nat \<Rightarrow> loop_phase \<Rightarrow> loop_warning list \<Rightarrow>
    (nat, demo_task list \<times> demo_task list, watch_chan, nat) loop_state" where
  "demo_loop permits tasks chan rx phase log = \<lparr>l_permits = permits, l_sessions = (tasks, []),
     l_channel = chan, l_receiver = rx, l_phase = phase, l_log = log\<rparr>"

definition demo_chan :: watch_chan where
  "demo_chan = \<lparr>wc_version = 0, wc_closed = False\<rparr>"

lemma demo_start: "loop_start demo_runtime 1 demo_chan 0 = Some (demo_loop 1 [] demo_chan 0 Accepting [])"
  by (simp add: loop_start_def demo_runtime_defs demo_loop_def MAX_PERMITS_def)

lemma demo_run_full:
  "(server_step demo_runtime demo_context)\<^sup>*\<^sup>* (demo_loop 1 [] demo_chan 0 Accepting [])
     (demo_loop 0 [demo_task ''a''] demo_chan 0 Accepting [LimitReached])"
  by (rule server_run_steps [where evs = "[ServerAccepted (Ok ''a''), ServerAccepted (Ok ''b'')]"])
     (simp add: demo_runtime_defs demo_loop_def demo_task_def admit_def warn_def)

lemma demo_run_draining:
  "(server_step demo_runtime demo_context)\<^sup>*\<^sup>* (demo_loop 1 [] demo_chan 0 Accepting [])
     (demo_loop 0 [demo_task ''a''] \<lparr>wc_version = 1, wc_closed = False\<rparr> 1 Draining [])"
  by (rule server_run_steps [where
        evs = "[ServerAccepted (Ok ''a''), ServerSignalled True, ServerShutdown]"])
     (simp add: demo_runtime_defs demo_loop_def demo_task_def admit_def shutdown_branch_def
       demo_chan_def)


text \<open>A host with good TLS files on which every bind succeeds.\<close>

definition demo_host_tls :: "(unit, pem_item list, nat, nat, nat list, unit) server_host" where
  "demo_host_tls = \<lparr>sh_tls = disk_ops demo_disk, sh_bind = (\<lambda>a w. (Ok (), w)),
     sh_local_addr = (\<lambda>lis w. (Ok (SocketAddrV4 (0, 0, 0, 0) 8443), w))\<rparr>"

definition huge_options :: server_options where
  "huge_options = \<lparr>so_listen_address = SocketAddrV4 (0, 0, 0, 0) 8443,
     so_agent = Gpg4winRedirect ''f'', so_client_ca_cert = ''ca'', so_server_cert = ''cert'',
     so_server_key = ''key'', so_max_connections = 2 ^ 61\<rparr>"

lemma demo_huge_options:
  "server_options_new (SocketAddrV4 (0, 0, 0, 0) 8443) ''f'' ''ca'' ''cert'' ''key'' (2 ^ 61) =
     Ok huge_options"
  by (simp add: server_options_new_def server_options_new_with_agent_def huge_options_def)

lemma demo_startup_panics:
  "server_startup demo_host_tls demo_runtime huge_options demo_chan 0 () = (None, ())"
  by (simp add: server_startup_def huge_options_def demo_host_tls_def demo_server_config io_simps
      bind_io_def map_err_io_def return_io_def loop_start_def demo_runtime_def
      counting_semaphore_def MAX_PERMITS_def)


text \<open>A server with good files and one session.\<close>

definition demo_options :: server_options where
  "demo_options = huge_options\<lparr>so_max_connections := 1\<rparr>"

definition demo_tls_config :: "(nat list, nat, nat) tls_config" where
  "demo_tls_config = \<lparr>tc_versions = [TLS13], tc_peer = ClientVerifier [1], tc_chain = [7],
     tc_key = 7, tc_alpn = [ALPN_PROTOCOL]\<rparr>"

definition demo_session_task :: "'st \<Rightarrow> ('st, nat list, nat, nat, nat) server_task" where
  "demo_session_task stream = \<lparr>st_stream = stream, st_acceptor = demo_tls_config,
     st_connector = ConnGpg4winRedirect ''f'', st_shutdown = 0\<rparr>"

definition demo_server :: "nat \<Rightarrow> ('st, nat list, nat, nat, nat) server_task list \<Rightarrow>
    (nat, ('st, nat list, nat, nat, nat) server_task list \<times>
          ('st, nat list, nat, nat, nat) server_task list, watch_chan, nat) loop_state" where
  "demo_server permits tasks = \<lparr>l_permits = permits, l_sessions = (tasks, []),
     l_channel = demo_chan, l_receiver = 0, l_phase = Accepting, l_log = []\<rparr>"

lemma demo_server_startup:
  "server_startup demo_host_tls demo_runtime demo_options demo_chan 0 () =
     (Some (Ok ((), \<lparr>sx_acceptor = demo_tls_config, sx_connector = ConnGpg4winRedirect ''f''\<rparr>,
        demo_server 1 [])), ())"
  by (simp add: server_startup_def demo_options_def huge_options_def demo_host_tls_def
      demo_server_config io_simps bind_io_def map_err_io_def return_io_def loop_start_def
      demo_runtime_defs MAX_PERMITS_def demo_tls_config_def demo_server_def connector_gpg4win_def)

lemma demo_server_session:
  "(server_step demo_runtime
      \<lparr>sx_acceptor = demo_tls_config, sx_connector = ConnGpg4winRedirect ''f''\<rparr>)\<^sup>*\<^sup>*
     (demo_server 1 []) (demo_server 0 [demo_session_task stream])"
  by (rule server_run_steps [where evs = "[ServerAccepted (Ok stream)]"])
     (simp add: demo_runtime_defs demo_server_def demo_session_task_def admit_def)


subsection \<open>Properties\<close>

text \<open>C8: the server's loop implements the gate.  From its start, whatever is accepted, ends,
  panics or is signalled and in whichever order the branches win, the phase and the number of
  running sessions follow the abstract gate: never more than the limit, no session admitted once
  the loop has left the accepting phase, none left when it has stopped.\<close>

theorem server_implements_gate:
  assumes "server_runtime rt available running finished version closed seen"
    and "loop_start rt limit channel receiver = Some s0"
    and "(server_step rt ctx)\<^sup>*\<^sup>* s0 s"
  shows "(gate_step limit)\<^sup>*\<^sup>* (Accepting, 0) (l_phase s, size (running (l_sessions s))) \<and>
    size (running (l_sessions s)) \<le> limit"
proof -
  have "(gate_step limit)\<^sup>*\<^sup>* (Accepting, 0) (l_phase s, size (running (l_sessions s)))"
    using server_runtime.server_reachable [OF assms] by blast
  with gate_steps_bounded [OF this] show ?thesis by simp
qed

theorem server_implements_gate_witness:
  "(gate_step 1)\<^sup>*\<^sup>* (Accepting, 0) (Draining, 1)"
  using server_implements_gate [OF server_rt.server_runtime_axioms demo_start demo_run_draining]
  by (simp add: demo_loop_def)

text \<open>C24: permits are neither lost nor duplicated.  In every reachable state before the end, the free
  permits and the running sessions add up to the limit, panicked sessions included; so an accepted
  connection becomes a session exactly when fewer than \<open>limit\<close> sessions run, and otherwise is
  dropped with a warning, the sessions untouched.\<close>

theorem server_admits_iff_room:
  assumes "server_runtime rt available running finished version closed seen"
    and "loop_start rt limit channel receiver = Some s0"
    and "(server_step rt ctx)\<^sup>*\<^sup>* s0 s" "l_phase s = Accepting"
  shows "available (l_permits s) + size (running (l_sessions s)) = limit \<and>
    (\<exists>s' task. server_on rt ctx (ServerAccepted (Ok stream)) s = Some s' \<and> st_stream task = stream \<and>
       (if size (running (l_sessions s)) < limit
        then running (l_sessions s') = add_mset task (running (l_sessions s)) \<and> l_log s' = l_log s
        else l_sessions s' = l_sessions s \<and> l_log s' = l_log s @ [LimitReached]))"
  using server_runtime.server_room [OF assms(1) _ assms(4)]
    server_runtime.server_reachable [OF assms(1-3)] by blast

theorem server_admits_iff_room_witness:
  "\<exists>s'. server_on demo_runtime demo_context (ServerAccepted (Ok ''c''))
       (demo_loop 0 [demo_task ''a''] demo_chan 0 Accepting [LimitReached]) = Some s' \<and>
     l_sessions s' = ([demo_task ''a''], []) \<and> l_log s' = [LimitReached, LimitReached]"
  using server_admits_iff_room [OF server_rt.server_runtime_axioms demo_start demo_run_full, of "''c''"]
  by (auto simp: demo_loop_def)

text \<open>C23: no session misses the shutdown.  When the loop has taken the shutdown branch, every session
  that is still running, however long ago it was accepted, finds its own receiver's \<open>changed\<close>
  ready, so its relay is cancelled at its next wake-up.\<close>

theorem server_shutdown_reaches_sessions:
  assumes "server_runtime rt available running finished version closed seen"
    and "loop_start rt limit channel receiver = Some s0"
    and "(server_step rt ctx)\<^sup>*\<^sup>* s0 s" "l_phase s = Draining"
    and "task \<in># running (l_sessions s)"
  shows "wt_changed (rt_watch rt) (l_channel s) (st_shutdown task) \<noteq> None"
proof -
  have run: "loop_runtime rt available running finished version closed seen"
    using assms(1) by (simp add: server_runtime_def)
  have "loop_runtime.loop_inv available running version closed seen st_shutdown limit s"
    using server_runtime.server_reachable [OF assms(1-3)] by blast
  from loop_runtime.inv_signalled [OF run this assms(4,5)] show ?thesis .
qed

theorem server_shutdown_reaches_sessions_witness:
  "wt_changed versioned_watch \<lparr>wc_version = 1, wc_closed = False\<rparr> (st_shutdown (demo_task ''a''))
     \<noteq> None"
  using server_shutdown_reaches_sessions [OF server_rt.server_runtime_axioms demo_start
      demo_run_draining, of "demo_task ''a''"]
  by (simp add: demo_loop_def demo_runtime_def)

text \<open>C33: how the server starts.  A TLS error is reported before any socket is bound, a bind error
  only after the TLS materials were accepted; a loop that starts has them, the configured agent
  and as many permits as the options say.  There is a fourth way: \<open>Semaphore::new\<close> panics above
  \<open>2 ^ 61 - 1\<close> permits, and the options accept such a limit, as the witness shows.\<close>

theorem server_startup_decides:
  assumes "semaphore (rt_semaphore rt) available"
    and "server_startup host rt options channel receiver w = (r, w')"
  shows "case r of
      None \<Rightarrow> MAX_PERMITS < unat (so_max_connections options)
    | Some (Err (ServerTls e)) \<Rightarrow>
        server_config (sh_tls host) (so_client_ca_cert options) (so_server_cert options)
          (so_server_key options) w = (Err e, w')
    | Some (Err (ServerBind e)) \<Rightarrow>
        (\<exists>config w1. server_config (sh_tls host) (so_client_ca_cert options) (so_server_cert options)
            (so_server_key options) w = (Ok config, w1) \<and>
          (sh_bind host (so_listen_address options) w1 = (Err e, w') \<or>
           (\<exists>lis w2. sh_bind host (so_listen_address options) w1 = (Ok lis, w2) \<and>
              sh_local_addr host lis w2 = (Err e, w'))))
    | Some (Ok (lis, ctx, s)) \<Rightarrow>
        (\<exists>w1 w2. server_config (sh_tls host) (so_client_ca_cert options) (so_server_cert options)
            (so_server_key options) w = (Ok (sx_acceptor ctx), w1) \<and>
          sh_bind host (so_listen_address options) w1 = (Ok lis, w2) \<and>
          sx_connector ctx = server_connector (so_agent options) \<and>
          l_phase s = Accepting \<and> available (l_permits s) = unat (so_max_connections options))"
proof -
  obtain c w1 where config: "server_config (sh_tls host) (so_client_ca_cert options)
      (so_server_cert options) (so_server_key options) w = (c, w1)" by fastforce
  obtain b w2 where bound: "sh_bind host (so_listen_address options) w1 = (b, w2)" by fastforce
  show ?thesis
  proof (cases "c"; cases b)
    fix config' lis
    assume ok: "c = Ok config'" "b = Ok lis"
    obtain a w3 where addr: "sh_local_addr host lis w2 = (a, w3)" by fastforce
    from assms config bound ok addr show ?thesis
      by (cases a) (auto simp: server_startup_def io_simps loop_start_def semaphore.new_panics
        semaphore.new_available option.case_eq_if not_less)
  qed (use assms config bound in \<open>auto simp: server_startup_def io_simps\<close>)
qed

theorem server_startup_decides_witness:
  "\<exists>options.
     server_options_new (SocketAddrV4 (0, 0, 0, 0) 8443) ''f'' ''ca'' ''cert'' ''key'' (2 ^ 61) =
       Ok options \<and>
     server_startup demo_host_tls demo_runtime options demo_chan 0 () = (None, ()) \<and>
     MAX_PERMITS < unat (so_max_connections options)"
  using server_startup_decides [OF _ demo_startup_panics, of "\<lambda>s. s"] cs.semaphore_axioms
    demo_huge_options demo_startup_panics
  by (auto simp: demo_runtime_def)

end
