(* ===== verification/Tailscale.thy ===== *)
theory Tailscale
  imports Options
begin

section \<open>Tailscale address discovery (src/tailscale.rs)\<close>

text \<open>
  The address the Windows server listens on: the output of \<open>tailscale ip -4\<close>, from the default
  installation or from the PATH, must hold exactly one IPv4 address.  Running a command is a
  parameter, with its timeout; \<open>None\<close> is a command that did not end in time.
\<close>

datatype tailscale_error =
    MissingAddress
  | MultipleAddresses
  | InvalidAddress rstr
  | TailscaleCommand io_error
  | TailscaleFailed rstr
  | TailscaleTimeout duration

text \<open>The texts of the errors; the debug form of a duration is the standard library's.\<close>

fun tailscale_error_display :: "(duration \<Rightarrow> rstr) \<Rightarrow> tailscale_error \<Rightarrow> rstr" where
  "tailscale_error_display dbg MissingAddress = lit ''Tailscale returned no IPv4 address''"
| "tailscale_error_display dbg MultipleAddresses =
     lit ''Tailscale returned more than one IPv4 address''"
| "tailscale_error_display dbg (InvalidAddress s) =
     lit ''Tailscale returned an invalid IPv4 address: '' @ s"
| "tailscale_error_display dbg (TailscaleCommand e) =
     lit ''failed to run the Tailscale CLI: '' @ io_message e"
| "tailscale_error_display dbg (TailscaleFailed s) = lit ''Tailscale CLI failed: '' @ s"
| "tailscale_error_display dbg (TailscaleTimeout d) =
     lit ''Tailscale CLI did not respond within '' @ dbg d"

text \<open>\<open>str::parse::<Ipv4Addr>()\<close> of one line.\<close>

definition parse_line :: "rstr \<Rightarrow> (ipv4, tailscale_error) result" where
  "parse_line line =
     (case parse_ipv4_addr line of Some a \<Rightarrow> Ok a | None \<Rightarrow> Err (InvalidAddress line))"

definition address_lines :: "rstr \<Rightarrow> rstr list" where
  "address_lines output = filter (\<lambda>line. line \<noteq> []) (map trim (str_lines output))"

definition parse_ipv4 :: "rstr \<Rightarrow> (ipv4, tailscale_error) result" where
  "parse_ipv4 output =
     bind_result (collect_results (map parse_line (address_lines output)))
       (\<lambda>addresses. case addresses of
          [] \<Rightarrow> Err MissingAddress
        | [address] \<Rightarrow> Ok address
        | _ \<Rightarrow> Err MultipleAddresses)"

text \<open>What \<open>Command::output\<close> returns; \<open>out_status\<close> is the text of the exit status.\<close>

record command_output =
  out_success :: bool
  out_status :: rstr
  out_stdout :: "u8 list"
  out_stderr :: "u8 list"

type_synonym 'w command_runner =
  "duration \<Rightarrow> rstr \<Rightarrow> rstr list \<Rightarrow> 'w \<Rightarrow> (command_output, io_error) result option \<times> 'w"

definition COMMAND_TIMEOUT :: duration where
  "COMMAND_TIMEOUT = from_secs 10"

definition run_tailscale ::
  "'w command_runner \<Rightarrow> rstr \<Rightarrow> ('w, command_output, tailscale_error) io" where
  "run_tailscale output command_path w =
     (case output COMMAND_TIMEOUT command_path [lit ''ip'', lit ''-4''] w of
        (None, w') \<Rightarrow> (Err (TailscaleTimeout COMMAND_TIMEOUT), w')
      | (Some (Err e), w') \<Rightarrow> (Err (TailscaleCommand e), w')
      | (Some (Ok out), w') \<Rightarrow> (Ok out, w'))"

text \<open>The character \<open>0x5C\<close> is the backslash.\<close>

definition DEFAULT_TAILSCALE_CLI :: rstr where
  "DEFAULT_TAILSCALE_CLI = lit ''C:'' @ [0x5C] @ lit ''Program Files'' @ [0x5C] @ lit ''Tailscale'' @
     [0x5C] @ lit ''tailscale.exe''"

definition tailscale_output :: "'w command_runner \<Rightarrow> ('w, command_output, tailscale_error) io" where
  "tailscale_output output w =
     (case run_tailscale output DEFAULT_TAILSCALE_CLI w of
        (Ok out, w1) \<Rightarrow> (Ok out, w1)
      | (Err (TailscaleCommand e), w1) \<Rightarrow>
          if io_kind e = NotFound then run_tailscale output (lit ''tailscale.exe'') w1
          else (Err (TailscaleCommand e), w1)
      | (Err e, w1) \<Rightarrow> (Err e, w1))"

definition listen_address ::
  "'w command_runner \<Rightarrow> u16 \<Rightarrow> ('w, socket_addr, tailscale_error) io" where
  "listen_address run_command port =
     bind_io (tailscale_output run_command) (\<lambda>output.
       return_io
         (if \<not> out_success output then
            (let e = trim (from_utf8_lossy (out_stderr output))
             in Err (TailscaleFailed
                  (if e = [] then lit ''exited with '' @ out_status output else e)))
          else map_ok (\<lambda>a. SocketAddrV4 a port)
            (parse_ipv4 (from_utf8_lossy (out_stdout output)))))"


subsection \<open>Lines and addresses\<close>

lemma parse_show_ipv4 [simp]: "parse_ipv4_addr (show_ipv4 a) = Some a"
  by (simp add: parse_ipv4_addr_iff)

lemma show_ipv4_inject [simp]: "show_ipv4 a = show_ipv4 b \<longleftrightarrow> a = b"
  by (metis parse_show_ipv4 option.inject)

lemma parse_line_show [simp]: "parse_line (show_ipv4 a) = Ok a"
  by (simp add: parse_line_def)

lemma parse_line_Ok_iff: "parse_line l = Ok a \<longleftrightarrow> l = show_ipv4 a"
  by (auto simp: parse_line_def parse_ipv4_addr_iff split: option.splits)

lemma map_parse_line_Ok_iff: "map parse_line ls = map Ok xs \<longleftrightarrow> ls = map show_ipv4 xs"
  by (induction ls arbitrary: xs) (auto simp: Cons_eq_map_conv parse_line_Ok_iff)

lemma parse_lines_Ok_iff:
  "collect_results (map parse_line ls) = Ok xs \<longleftrightarrow> ls = map show_ipv4 xs"
  by (simp add: collect_results_Ok_iff map_parse_line_Ok_iff)

lemma parse_lines_Err_iff:
  "collect_results (map parse_line ls) = Err e \<longleftrightarrow>
     (\<exists>good bad rest. ls = map show_ipv4 good @ bad # rest \<and> e = InvalidAddress bad \<and>
        parse_ipv4_addr bad = None)"
proof
  assume "collect_results (map parse_line ls) = Err e"
  then obtain xs rest where "map parse_line ls = map Ok xs @ Err e # rest"
    by (auto simp: collect_results_Err_iff)
  then obtain l1 bad l2 where "ls = l1 @ bad # l2" "map parse_line l1 = map Ok xs"
    "parse_line bad = Err e"
    by (auto simp: map_eq_append_conv map_eq_Cons_conv)
  then show "\<exists>good bad rest. ls = map show_ipv4 good @ bad # rest \<and> e = InvalidAddress bad \<and>
      parse_ipv4_addr bad = None"
    by (auto simp: map_parse_line_Ok_iff parse_line_def split: option.splits)
next
  assume "\<exists>good bad rest. ls = map show_ipv4 good @ bad # rest \<and> e = InvalidAddress bad \<and>
      parse_ipv4_addr bad = None"
  then obtain good bad rest where "ls = map show_ipv4 good @ bad # rest" "e = InvalidAddress bad"
    "parse_ipv4_addr bad = None" by blast
  then have "map parse_line ls = map Ok good @ Err e # map parse_line rest"
    by (simp add: parse_line_def [of bad])
  then show "collect_results (map parse_line ls) = Err e"
    by (auto simp: collect_results_Err_iff)
qed

lemma parse_ipv4_Ok_iff: "parse_ipv4 output = Ok a \<longleftrightarrow> address_lines output = [show_ipv4 a]"
proof -
  have "(case xs of [] \<Rightarrow> Err MissingAddress | [a] \<Rightarrow> Ok a | _ \<Rightarrow> Err MultipleAddresses) = Ok a \<longleftrightarrow>
      xs = [a]" for xs :: "ipv4 list"
    by (simp split: list.splits)
  then show ?thesis by (simp add: parse_ipv4_def bind_result_Ok_iff parse_lines_Ok_iff)
qed

lemma parse_ipv4_Err_iff:
  "parse_ipv4 output = Err e \<longleftrightarrow>
     (case e of
        MissingAddress \<Rightarrow> address_lines output = []
      | MultipleAddresses \<Rightarrow>
          (\<exists>as. address_lines output = map show_ipv4 as \<and> 2 \<le> length as)
      | InvalidAddress bad \<Rightarrow>
          (\<exists>good rest. address_lines output = map show_ipv4 good @ bad # rest \<and>
             parse_ipv4_addr bad = None)
      | _ \<Rightarrow> False)"
proof -
  have "(case xs of [] \<Rightarrow> Err MissingAddress | [a] \<Rightarrow> Ok a | _ \<Rightarrow> Err MultipleAddresses) = Err e \<longleftrightarrow>
      (e = MissingAddress \<and> xs = []) \<or> (e = MultipleAddresses \<and> 2 \<le> length xs)" for xs :: "ipv4 list"
    by (cases xs; cases "tl xs") auto
  then show ?thesis
    by (cases e) (auto simp: parse_ipv4_def bind_result_Err_iff parse_lines_Ok_iff parse_lines_Err_iff)
qed

text \<open>A single line with the address, as the command prints it.\<close>

lemma address_lines_one: "address_lines (show_ipv4 a @ [10]) = [show_ipv4 a]"
proof -
  have "str_lines (show_ipv4 a @ [10]) = [show_ipv4 a]"
    using show_ipv4_no_whitespace [of 10 a] show_ipv4_no_whitespace [of 13 a]
    by (intro str_lines_single) (auto simp: is_whitespace_def dest: last_in_set)
  moreover have "show_ipv4 a \<noteq> []" by (cases a) (simp add: show_ipv4.simps)
  moreover have "trim (show_ipv4 a) = show_ipv4 a"
    using show_ipv4_no_whitespace [of _ a] \<open>show_ipv4 a \<noteq> []\<close> by (intro trim_id) auto
  ultimately show ?thesis by (simp add: address_lines_def)
qed


subsection \<open>What the command prints\<close>

text \<open>
  A printed list, described without the program's functions: white space, the first item, white
  space to the end of its line, and the rest of the list; the last line need not be ended.  An
  item lies within one line and neither begins nor ends with white space.
\<close>

definition blank :: "rstr \<Rightarrow> bool" where
  "blank s \<longleftrightarrow> (\<forall>c \<in> set s. is_whitespace c)"

definition item :: "rstr \<Rightarrow> bool" where
  "item x \<longleftrightarrow> x \<noteq> [] \<and> 10 \<notin> set x \<and> \<not> is_whitespace (hd x) \<and> \<not> is_whitespace (last x)"

inductive printed :: "rstr \<Rightarrow> rstr list \<Rightarrow> bool" where
  nothing: "blank s \<Longrightarrow> printed s []"
| unended: "blank l \<Longrightarrow> item x \<Longrightarrow> blank r \<Longrightarrow> 10 \<notin> set r \<Longrightarrow> printed (l @ x @ r) [x]"
| line: "blank l \<Longrightarrow> item x \<Longrightarrow> blank r \<Longrightarrow> 10 \<notin> set r \<Longrightarrow> printed rest xs \<Longrightarrow>
     printed (l @ x @ r @ 10 # rest) (x # xs)"

lemma blank_simps [simp]: "blank []" "blank (c # s) \<longleftrightarrow> is_whitespace c \<and> blank s"
  "blank (s @ t) \<longleftrightarrow> blank s \<and> blank t"
  by (auto simp: blank_def)

lemma is_whitespace_newline [simp]: "is_whitespace 10" "is_whitespace 13"
  by (simp_all add: is_whitespace_def)

lemma trim_blank: "trim s = [] \<longleftrightarrow> blank s"
  by (simp add: trim_eq_Nil_iff blank_def)

lemma split_newlines_first:
  "10 \<notin> set s \<Longrightarrow> split_newlines acc (s @ 10 # rest) =
     rev (case rev s @ acc of a # r \<Rightarrow> if a = 13 then r else a # r | [] \<Rightarrow> []) # split_newlines [] rest"
  by (induction s arbitrary: acc) (auto split: list.splits)

lemma split_newlines_unended:
  "10 \<notin> set s \<Longrightarrow> split_newlines acc s = (if rev s @ acc = [] then [] else [rev (rev s @ acc)])"
  by (induction s arbitrary: acc) auto

lemma trim_carriage_return:
  "trim (rev (case rev s of a # r \<Rightarrow> if a = 13 then r else a # r | [] \<Rightarrow> [])) = trim s"
proof (cases "rev s")
  case (Cons a r)
  then have "s = rev r @ [a]" by (metis rev.simps(2) rev_rev_ident)
  with Cons show ?thesis by (simp add: trim_ws_right)
qed simp

lemma address_lines_line:
  "10 \<notin> set s \<Longrightarrow> address_lines (s @ 10 # rest) =
     (if blank s then [] else [trim s]) @ address_lines rest"
  using trim_carriage_return [of s]
  by (simp add: address_lines_def str_lines_def split_newlines_first trim_blank)

lemma address_lines_unended:
  "10 \<notin> set s \<Longrightarrow> address_lines s = (if blank s then [] else [trim s])"
  by (auto simp: address_lines_def str_lines_def split_newlines_unended trim_blank)

lemma newline_cases:
  obtains "10 \<notin> set (s :: rstr)" | l r where "s = l @ 10 # r" "10 \<notin> set l"
  by (metis split_list_first)

lemma address_lines_blank: "blank l \<Longrightarrow> address_lines (l @ s) = address_lines s"
proof (induction l)
  case (Cons c l)
  have "address_lines (c # t) = address_lines t" for t
  proof (cases "c = 10")
    case True
    then show ?thesis using address_lines_line [of "[]" t] by simp
  next
    case False
    have trim: "trim (c # u) = trim u" for u
      using Cons.prems trim_ws_left [of "[c]" u] by simp
    show ?thesis
    proof (cases t rule: newline_cases)
      case 1
      then show ?thesis
        using False Cons.prems address_lines_unended [of "c # t"] address_lines_unended [of t]
        by (simp add: trim)
    next
      case (2 u r)
      then show ?thesis
        using False Cons.prems address_lines_line [of "c # u" r] address_lines_line [of u r]
        by (simp add: trim)
    qed
  qed
  with Cons show ?case by simp
qed simp

lemma trim_item: "item x \<Longrightarrow> blank r \<Longrightarrow> trim (x @ r) = x"
  by (simp add: trim_ws_right trim_id item_def blank_def)

lemma item_not_blank: "item x \<Longrightarrow> \<not> blank x"
  by (cases x) (simp_all add: item_def)

lemma item_trim: "10 \<notin> set s \<Longrightarrow> \<not> blank s \<Longrightarrow> item (trim s)"
proof -
  assume s: "10 \<notin> set s" "\<not> blank s"
  let ?t = "dropWhile is_whitespace s"
  let ?u = "dropWhile is_whitespace (rev ?t)"
  have "?t \<noteq> []" using s(2) by (auto simp: blank_def dropWhile_eq_Nil_conv)
  then have t: "\<not> is_whitespace (hd ?t)" by (rule hd_dropWhile)
  have "trim s \<noteq> []" using s(2) by (simp add: trim_blank)
  moreover from this have "\<not> is_whitespace (last (trim s))"
    by (simp add: trim_def last_rev hd_dropWhile)
  moreover have "hd (trim s) = hd ?t"
  proof -
    obtain v where "rev ?t = v @ ?u" by (metis takeWhile_dropWhile_id)
    then have "?t = rev ?u @ rev v" by (metis rev_append rev_rev_ident)
    moreover have "rev ?u \<noteq> []" using \<open>trim s \<noteq> []\<close> by (simp add: trim_def)
    ultimately show ?thesis by (metis hd_append2 trim_def)
  qed
  moreover have "10 \<notin> set (trim s)"
    using s(1) by (auto simp: trim_def dest!: set_dropWhileD)
  ultimately show "item (trim s)" using t by (simp add: item_def)
qed

lemma printed_address_lines: "printed s xs \<Longrightarrow> address_lines s = xs"
proof (induction rule: printed.induct)
  case (nothing s)
  then show ?case using address_lines_blank [of s "[]"] by (simp add: address_lines_def str_lines_def)
next
  case (unended l x r)
  then have "10 \<notin> set (x @ r)" by (simp add: item_def)
  with unended show ?case
    by (simp add: address_lines_blank address_lines_unended trim_item item_not_blank)
next
  case (line l x r rest xs)
  then have "10 \<notin> set (x @ r)" by (simp add: item_def)
  from address_lines_line [OF this, of rest] line show ?case
    by (simp add: address_lines_blank trim_item item_not_blank)
qed

lemma printed_blank: "printed s xs \<Longrightarrow> blank l \<Longrightarrow> printed (l @ s) xs"
proof (induction rule: printed.induct)
  case (nothing s)
  then show ?case by (simp add: printed.nothing)
next
  case (unended l' x r)
  then show ?case using printed.unended [of "l @ l'" x r] by simp
next
  case (line l' x r rest xs)
  then show ?case using printed.line [of "l @ l'" x r rest xs] by simp
qed

lemma address_lines_printed: "printed s (address_lines s)"
proof (induction "length s" arbitrary: s rule: less_induct)
  case less
  have parts: "\<exists>l r. u = l @ trim u @ r \<and> blank l \<and> blank r" for u
    using trim_decompose [of u] by (simp add: blank_def)
  show ?case
  proof (cases s rule: newline_cases)
    case 1
    show ?thesis
    proof (cases "blank s")
      case True
      with 1 show ?thesis by (simp add: address_lines_unended printed.nothing)
    next
      case False
      obtain l r where s: "s = l @ trim s @ r" "blank l" "blank r" using parts by blast
      then have "10 \<notin> set r" using 1 by (metis Un_iff set_append)
      with printed.unended [OF s(2) item_trim [OF 1 False] s(3)] s(1) 1 False show ?thesis
        by (simp add: address_lines_unended)
    qed
  next
    case (2 u rest)
    then have IH: "printed rest (address_lines rest)" using less by simp
    show ?thesis
    proof (cases "blank u")
      case True
      with printed_blank [OF IH, of "u @ [10]"] 2 show ?thesis by (simp add: address_lines_line)
    next
      case False
      obtain l r where u: "u = l @ trim u @ r" "blank l" "blank r" using parts by blast
      then have "10 \<notin> set r" using 2 by (metis Un_iff set_append)
      from printed.line [OF u(2) item_trim [OF 2(2) False] u(3) this IH] u(1)
      have "printed (u @ 10 # rest) (trim u # address_lines rest)" by (metis append.assoc)
      with 2 False show ?thesis by (simp add: address_lines_line)
    qed
  qed
qed

lemma printed_iff: "printed s xs \<longleftrightarrow> address_lines s = xs"
  using printed_address_lines address_lines_printed by blast


text \<open>The command whose output is used: the installed one, or the one on the PATH without it.\<close>

lemma run_tailscale_Ok_iff:
  "run_tailscale run p w = (Ok out, w') \<longleftrightarrow>
     run COMMAND_TIMEOUT p [lit ''ip'', lit ''-4''] w = (Some (Ok out), w')"
  by (auto simp: run_tailscale_def split: option.splits result.splits prod.splits)

lemma run_tailscale_command_iff:
  "run_tailscale run p w = (Err (TailscaleCommand e), w') \<longleftrightarrow>
     run COMMAND_TIMEOUT p [lit ''ip'', lit ''-4''] w = (Some (Err e), w')"
  by (auto simp: run_tailscale_def split: option.splits result.splits prod.splits)

lemma tailscale_output_Ok_iff:
  "tailscale_output run w = (Ok out, w') \<longleftrightarrow>
     run COMMAND_TIMEOUT DEFAULT_TAILSCALE_CLI [lit ''ip'', lit ''-4''] w = (Some (Ok out), w') \<or>
     (\<exists>e w1. run COMMAND_TIMEOUT DEFAULT_TAILSCALE_CLI [lit ''ip'', lit ''-4''] w = (Some (Err e), w1) \<and>
        io_kind e = NotFound \<and>
        run COMMAND_TIMEOUT (lit ''tailscale.exe'') [lit ''ip'', lit ''-4''] w1 = (Some (Ok out), w'))"
  unfolding run_tailscale_Ok_iff [symmetric] run_tailscale_command_iff [symmetric]
  by (auto simp: tailscale_output_def split: prod.splits result.splits tailscale_error.splits)


subsection \<open>Properties\<close>

text \<open>C35: which outputs give an address.  The output is accepted exactly when it is a printed list
  of one item, the canonical dotted form of the address; blank lines, the white space around an
  item and a missing last newline do not count.  The first item that is no address is reported
  before any question of their number; otherwise no item at all is a missing address, and two or
  more are ambiguous.\<close>

theorem parse_ipv4_decides:
  "(parse_ipv4 output = Ok a) = printed output [show_ipv4 a] \<and>
   (parse_ipv4 output = Err e) =
     (case e of
        MissingAddress \<Rightarrow> printed output []
      | MultipleAddresses \<Rightarrow> (\<exists>as. printed output (map show_ipv4 as) \<and> 2 \<le> length as)
      | InvalidAddress bad \<Rightarrow>
          (\<exists>good rest. printed output (map show_ipv4 good @ bad # rest) \<and> (\<forall>a. bad \<noteq> show_ipv4 a))
      | _ \<Rightarrow> False)"
proof
  show "(parse_ipv4 output = Ok a) = printed output [show_ipv4 a]"
    by (simp add: parse_ipv4_Ok_iff printed_iff)
next
  have no: "parse_ipv4_addr bad = None \<longleftrightarrow> (\<forall>a. bad \<noteq> show_ipv4 a)" for bad
    by (metis parse_ipv4_addr_iff option.exhaust option.distinct(1))
  show "(parse_ipv4 output = Err e) =
     (case e of
        MissingAddress \<Rightarrow> printed output []
      | MultipleAddresses \<Rightarrow> (\<exists>as. printed output (map show_ipv4 as) \<and> 2 \<le> length as)
      | InvalidAddress bad \<Rightarrow>
          (\<exists>good rest. printed output (map show_ipv4 good @ bad # rest) \<and> (\<forall>a. bad \<noteq> show_ipv4 a))
      | _ \<Rightarrow> False)"
    unfolding parse_ipv4_Err_iff printed_iff no ..
qed

text \<open>C36: where the listen address comes from.  The server listens on an address exactly when the
  installed command, or when that one does not exist the one on the PATH, ended in time and with
  success, and its output names that address and no other; the port is the requested one.\<close>

theorem listen_address_decides:
  "(listen_address run port w = (Ok addr, w')) =
     (\<exists>out a. addr = SocketAddrV4 a port \<and> out_success out \<and>
        printed (from_utf8_lossy (out_stdout out)) [show_ipv4 a] \<and>
        (run COMMAND_TIMEOUT DEFAULT_TAILSCALE_CLI [lit ''ip'', lit ''-4''] w = (Some (Ok out), w') \<or>
         (\<exists>e w1. run COMMAND_TIMEOUT DEFAULT_TAILSCALE_CLI [lit ''ip'', lit ''-4''] w
              = (Some (Err e), w1) \<and>
            io_kind e = NotFound \<and>
            run COMMAND_TIMEOUT (lit ''tailscale.exe'') [lit ''ip'', lit ''-4''] w1
              = (Some (Ok out), w'))))"
  unfolding tailscale_output_Ok_iff [symmetric] printed_iff
  by (auto simp: listen_address_def io_splits map_ok_Ok_iff parse_ipv4_Ok_iff Let_def
      split: if_splits)

end
