(* ===== verification/Windows_Service.thy ===== *)
theory Windows_Service
  imports Server_Loop Tailscale
begin

section \<open>The Windows service host (src/windows\_service.rs)\<close>

text \<open>
  The bridge server under the Service Control Manager: the options are set once, the service
  reports its states in order, resolves the Tailscale address if asked to, and runs the server
  until a stop control.  The world carries the states that were reported.
\<close>

datatype service_state = StartPending | ServiceRunning | ServiceStopped

text \<open>The error type of the \<open>windows_service\<close> crate: an OS error, or one of the crate's own.\<close>

datatype service_error = Winapi io_error | ServiceCrate rstr

record service_options =
  sv_server :: server_options
  sv_tailscale_listen_port :: "u16 option"

text \<open>The status the service reports: its state and whether it accepts a stop control.\<close>

datatype service_type = OwnProcess

record service_status =
  ss_service_type :: service_type
  ss_current_state :: service_state
  ss_accepts_stop :: bool
  ss_exit_code :: u32
  ss_checkpoint :: u32
  ss_wait_hint :: duration
  ss_process_id :: "u32 option"

definition status :: "service_state \<Rightarrow> bool \<Rightarrow> service_status" where
  "status state accepted =
     \<lparr>ss_service_type = OwnProcess, ss_current_state = state, ss_accepts_stop = accepted,
      ss_exit_code = 0, ss_checkpoint = 0, ss_wait_hint = 0, ss_process_id = None\<rparr>"

datatype service_control = ControlStop | ControlInterrogate | ControlOther

datatype handler_result = NoError | NotImplemented

text \<open>
  The control handler: the result, and the stop messages in the channel afterwards.  A send whose
  receiver is gone is ignored.
\<close>

definition control_handler :: "service_control \<Rightarrow> bool \<Rightarrow> nat \<Rightarrow> handler_result \<times> nat" where
  "control_handler control receiver_alive stops =
     (case control of
        ControlStop \<Rightarrow> (NoError, if receiver_alive then Suc stops else stops)
      | ControlInterrogate \<Rightarrow> (NoError, stops)
      | ControlOther \<Rightarrow> (NotImplemented, stops))"

text \<open>
  The thread that waits for a stop message: \<open>recv\<close> returns when there is one or when the handler,
  the only sender, is gone; \<open>None\<close> while it waits.  The thread then signals the shutdown channel
  and ends, which drops the channel's sender.
\<close>

definition stop_thread ::
  "('c, 'r) watch_ops \<Rightarrow> bool \<Rightarrow> nat \<Rightarrow> 'c \<Rightarrow> ('c \<times> nat) option" where
  "stop_thread watch handler_alive stops sender =
     (if stops = 0 \<and> handler_alive then None
      else Some (wt_drop_sender watch (wt_send watch True sender), stops - 1))"

text \<open>
  The operations: registering the handler, reporting a status, building the runtime, and resolving
  the address.
\<close>

record 'w service_ops =
  v_register :: "('w, unit, service_error) io"
  v_set_status :: "service_status \<Rightarrow> ('w, unit, service_error) io"
  v_runtime :: "('w, unit, io_error) io"
  v_listen_address :: "u16 \<Rightarrow> ('w, socket_addr, tailscale_error) io"

text \<open>A world with the states that have been reported to the manager without an error.\<close>

definition report ::
  "'w service_ops \<Rightarrow> service_state \<Rightarrow> bool \<Rightarrow> ('w \<times> service_state list, unit, service_error) io" where
  "report ops state accepted w =
     (case v_set_status ops (status state accepted) (fst w) of
        (Ok _, w') \<Rightarrow> (Ok (), w', snd w @ [state])
      | (Err e, w') \<Rightarrow> (Err e, w', snd w))"

definition quietly :: "('w, 'a, 'e) io \<Rightarrow> ('w \<times> service_state list, 'a, 'e) io" where
  "quietly m w = (case m (fst w) of (r, w') \<Rightarrow> (r, w', snd w))"

text \<open>The part before the server: options with the address to listen on.\<close>

definition service_prepare ::
  "'w service_ops \<Rightarrow> (duration \<Rightarrow> rstr) \<Rightarrow> service_options \<Rightarrow>
     ('w \<times> service_state list, server_options, service_error) io" where
  "service_prepare ops dbg options =
     bind_io (quietly (v_register ops)) (\<lambda>_.
     bind_io (report ops StartPending False) (\<lambda>_.
     bind_io (map_err_io Winapi (quietly (v_runtime ops))) (\<lambda>_.
     bind_io (case sv_tailscale_listen_port options of
         None \<Rightarrow> return_io (Ok (sv_server options))
       | Some port \<Rightarrow>
           bind_io (map_err_io (\<lambda>e. Winapi (io_error_other (tailscale_error_display dbg e)))
               (quietly (v_listen_address ops port)))
             (\<lambda>address. return_io (Ok ((sv_server options)\<lparr>so_listen_address := address\<rparr>))))
       (\<lambda>server.
     bind_io (report ops ServiceRunning True) (\<lambda>_. return_io (Ok server))))))"

text \<open>
  The whole function, as the results it can return: the server is \<open>run_server_until\<close> with the
  options prepared and a new shutdown channel, in the world that the preparation left.  The
  server's own error is logged, not returned; the world when it has returned is whatever it is by
  then.
\<close>

inductive run_service ::
  "'w service_ops \<Rightarrow> (duration \<Rightarrow> rstr) \<Rightarrow> ('w, 'rd, 'cert, 'key, 'roots, 'lis) server_host \<Rightarrow>
   ('sem, 'js, ('st, 'roots, 'cert, 'key, 'r) server_task, 'c, 'r) runtime_ops \<Rightarrow>
   service_options \<Rightarrow> 'w \<times> service_state list \<Rightarrow>
   (unit, service_error) result \<Rightarrow> server_error list \<Rightarrow> 'w \<times> service_state list \<Rightarrow> bool"
  for ops dbg host rt options w where
  unprepared: "service_prepare ops dbg options w = (Err e, w1) \<Longrightarrow>
     run_service ops dbg host rt options w (Err e) [] w1"
| served: "service_prepare ops dbg options w = (Ok server, w1) \<Longrightarrow>
     wt_channel (rt_watch rt) False = (sender, receiver) \<Longrightarrow>
     run_server_until host rt server sender receiver (fst w1) served \<Longrightarrow>
     report ops ServiceStopped False (w2, snd w1) = (result, w3) \<Longrightarrow>
     run_service ops dbg host rt options w result (case served of Err e \<Rightarrow> [e] | Ok _ \<Rightarrow> []) w3"

text \<open>The service's entry point logs an error of \<open>run_service\<close> and returns.\<close>

definition service_main ::
  "'w service_ops \<Rightarrow> (duration \<Rightarrow> rstr) \<Rightarrow> ('w, 'rd, 'cert, 'key, 'roots, 'lis) server_host \<Rightarrow>
   ('sem, 'js, ('st, 'roots, 'cert, 'key, 'r) server_task, 'c, 'r) runtime_ops \<Rightarrow>
   service_options \<Rightarrow> 'w \<times> service_state list \<Rightarrow>
   service_error option \<Rightarrow> server_error list \<Rightarrow> 'w \<times> service_state list \<Rightarrow> bool" where
  "service_main ops dbg host rt options w err log w' \<longleftrightarrow>
     (case err of
        Some e \<Rightarrow> run_service ops dbg host rt options w (Err e) log w'
      | None \<Rightarrow> run_service ops dbg host rt options w (Ok ()) log w')"

text \<open>
  \<open>OnceLock::set\<close> and the dispatcher: a second start in one process is refused.
\<close>

definition service_run ::
  "service_options option \<Rightarrow> service_options \<Rightarrow> (service_options \<Rightarrow> (unit, service_error) result) \<Rightarrow>
     (unit, service_error) result \<times> service_options option" where
  "service_run stored options dispatch =
     (case stored of
        Some old \<Rightarrow> (Err (Winapi (io_error_other (lit ''service already started''))), Some old)
      | None \<Rightarrow> (dispatch options, Some options))"


subsection \<open>The states that are reported\<close>

lemma report_eq_Ok [io_splits]:
  "report ops state accepted w = (Ok u, w') \<longleftrightarrow>
     v_set_status ops (status state accepted) (fst w) = (Ok (), fst w') \<and> snd w' = snd w @ [state]"
  by (cases w') (auto simp: report_def split: prod.splits result.splits)

lemma report_eq_Err [io_splits]:
  "report ops state accepted w = (Err e, w') \<longleftrightarrow>
     v_set_status ops (status state accepted) (fst w) = (Err e, fst w') \<and> snd w' = snd w"
  by (cases w') (auto simp: report_def split: prod.splits result.splits)

lemma quietly_eq [io_splits]:
  "quietly m w = (r, w') \<longleftrightarrow> m (fst w) = (r, fst w') \<and> snd w' = snd w"
  by (cases w') (auto simp: quietly_def split: prod.splits)

lemma prepare_Ok:
  assumes "service_prepare ops dbg options w = (Ok server, w')"
  shows "snd w' = snd w @ [StartPending, ServiceRunning] \<and>
    (case sv_tailscale_listen_port options of
       None \<Rightarrow> server = sv_server options
     | Some port \<Rightarrow> (\<exists>address w1 w2. v_listen_address ops port w1 = (Ok address, w2) \<and>
         server = (sv_server options)\<lparr>so_listen_address := address\<rparr>))"
  using assms
  by (auto simp: service_prepare_def io_splits split: option.splits)

lemma prepare_Err:
  assumes "service_prepare ops dbg options w = (Err e, w')"
  shows "snd w' \<in> {snd w, snd w @ [StartPending]}"
  using assms
  by (auto simp: service_prepare_def io_splits split: option.splits)


subsection \<open>From a stop control to the server's loop\<close>

lemma signalled_shutdown_steps:
  assumes "server_runtime rt available running finished version closed seen"
    and "l_phase s = Accepting"
    and "c = wt_drop_sender (rt_watch rt) (wt_send (rt_watch rt) True (l_channel s))"
  shows "\<exists>s'. (server_step rt ctx)\<^sup>*\<^sup>* s s' \<and> l_phase s' = Draining \<and> l_channel s' = c \<and>
    l_sessions s' = l_sessions s"
proof -
  let ?s1 = "s\<lparr>l_channel := c\<rparr>"
  have watch: "watch_channel (rt_watch rt) version closed seen"
    using assms(1) by (simp add: server_runtime_def loop_runtime_def)
  obtain r rx where changed: "wt_changed (rt_watch rt) c (l_receiver s) = Some (r, rx)"
    using watch_channel.dropped_ready [OF watch] assms(3) by fastforce
  have "server_run rt ctx [ServerSignalled True, ServerSenderDropped, ServerShutdown] s =
      Some (?s1\<lparr>l_receiver := rx, l_phase := Draining\<rparr>)"
    using changed assms(2,3) by (simp add: shutdown_branch_def)
  from server_run_steps [OF this] show ?thesis
    by (intro exI [of _ "?s1\<lparr>l_receiver := rx, l_phase := Draining\<rparr>"]) simp
qed

text \<open>A stop control stops the server.  The handler answers it with success and leaves a message;
  the waiting thread then finds it, and with the channel as that thread leaves it the server's
  accept loop goes on to its drain, its sessions untouched.  No other control leaves a message,
  and without one the thread waits as long as the handler is registered.\<close>

lemma stop_control_reaches_server:
  assumes "server_runtime rt available running finished version closed seen"
    and "l_phase s = Accepting" "control_handler control True stops = (answer, stops')"
  shows "(control = ControlStop \<longrightarrow> answer = NoError \<and>
       (\<exists>c s'. stop_thread (rt_watch rt) alive stops' (l_channel s) = Some (c, stops) \<and>
          (server_step rt ctx)\<^sup>*\<^sup>* s s' \<and> l_phase s' = Draining \<and> l_channel s' = c \<and>
          l_sessions s' = l_sessions s)) \<and>
     (control \<noteq> ControlStop \<longrightarrow> stops' = stops \<and>
       (stops = 0 \<longrightarrow> stop_thread (rt_watch rt) True stops' (l_channel s) = None))"
  using assms(3) signalled_shutdown_steps [OF assms(1,2) refl, of ctx]
  by (cases control) (auto simp: control_handler_def stop_thread_def)


subsection \<open>A service manager, for the witness\<close>

text \<open>A manager that accepts every report, and no Tailscale command to ask.\<close>

definition demo_service_ops :: "unit service_ops" where
  "demo_service_ops =
     \<lparr>v_register = (\<lambda>w. (Ok (), w)), v_set_status = (\<lambda>st w. (Ok (), w)),
      v_runtime = (\<lambda>w. (Ok (), w)),
      v_listen_address = listen_address (\<lambda>d path args w. (Some (Err (io_error_new NotFound [])), w))\<rparr>"

lemma demo_service_run:
  "run_service demo_service_ops dbg host rt
     \<lparr>sv_server = huge_options, sv_tailscale_listen_port = Some 4321\<rparr> ((), [])
     (Err (Winapi (io_error_other (lit ''failed to run the Tailscale CLI: '')))) [] ((), [StartPending])"
  by (rule run_service.unprepared)
     (simp add: service_prepare_def demo_service_ops_def bind_io_def map_err_io_def
      return_io_def quietly_def report_def listen_address_def tailscale_output_def run_tailscale_def)


subsection \<open>Properties\<close>

text \<open>C38: the states a service reports.  They are a prefix of start pending, running, stopped; the
  service succeeds exactly when it reported all three; and it reports the last one exactly when it
  had been running and its server returned, whether with an error or not.  In particular a failed
  address discovery ends the service function while its last reported state is start pending, as
  the witness shows.\<close>

theorem service_status_sequence:
  assumes "run_service ops dbg host rt options (w, []) r log (w', states)"
  shows "states \<in> {[], [StartPending], [StartPending, ServiceRunning],
       [StartPending, ServiceRunning, ServiceStopped]} \<and>
     (r = Ok ()) = (states = [StartPending, ServiceRunning, ServiceStopped]) \<and>
     (ServiceRunning \<in> set states) =
       (\<exists>server w1 sender receiver served.
          service_prepare ops dbg options (w, []) = (Ok server, w1, [StartPending, ServiceRunning]) \<and>
          wt_channel (rt_watch rt) False = (sender, receiver) \<and>
          run_server_until host rt server sender receiver w1 served)"
  using assms
proof cases
  case (unprepared e)
  with prepare_Err [OF unprepared(3)] show ?thesis by auto
next
  case (served server w1 sender receiver result w2)
  obtain w1' tr where w1: "w1 = (w1', tr)" by fastforce
  with prepare_Ok [OF served(2)] have tr: "tr = [StartPending, ServiceRunning]" by simp
  have run: "service_prepare ops dbg options (w, []) = (Ok server, w1', [StartPending, ServiceRunning])"
    "run_server_until host rt server sender receiver w1' result"
    using served w1 tr by simp_all
  have "report ops ServiceStopped False (w2, [StartPending, ServiceRunning]) = (r, w', states)"
    using served w1 tr by simp
  then have "states \<in> {[StartPending, ServiceRunning], [StartPending, ServiceRunning, ServiceStopped]} \<and>
      (r = Ok ()) = (states = [StartPending, ServiceRunning, ServiceStopped])"
    by (cases r) (auto simp: io_splits)
  with run served(3) show ?thesis by auto
qed

theorem service_status_sequence_witness:
  "\<exists>e states. run_service demo_service_ops (\<lambda>d. []) demo_host_tls demo_runtime
       \<lparr>sv_server = huge_options, sv_tailscale_listen_port = Some 4321\<rparr> ((), []) (Err e) [] ((), states) \<and>
     states = [StartPending] \<and> ServiceRunning \<notin> set states \<and>
     states \<noteq> [StartPending, ServiceRunning, ServiceStopped]"
proof -
  have states: "ServiceRunning \<notin> set [StartPending]"
    "[StartPending] \<noteq> [StartPending, ServiceRunning, ServiceStopped]"
    using service_status_sequence [OF demo_service_run] by simp_all
  then show ?thesis by (blast intro: demo_service_run)
qed

end
