(* ===== verification/Windows_Renewal.thy ===== *)
theory Windows_Renewal
  imports Windows_Service
begin

section \<open>The certificate renewal service (src/windows\_renewal\_service.rs)\<close>

text \<open>
  A loop that runs the renewal script, waits for the next interval, and ends at a stop request.
  The script's process and the stop channel are parameters; a loop that never ends is \<open>None\<close>.
  Its log is the list of finished renewals.
\<close>

record renewal_options =
  rn_renewal_script :: path
  rn_step_executable :: path
  rn_ca_url :: rstr
  rn_root_ca_cert :: path
  rn_server_cert :: path
  rn_server_key :: path
  rn_expected_dns_name :: rstr
  rn_bridge_service_name :: rstr
  rn_log_path :: path
  rn_renewal_interval :: duration

text \<open>An argument of a command: an \<open>OsString\<close> made from a text or from a path.\<close>

datatype command_arg = ArgText rstr | ArgPath path

record exit_status =
  ex_success :: bool
  ex_text :: rstr

datatype recv_result = RecvStop | RecvDisconnected | RecvTimeout

record ('w, 'child) renewal_ops =
  n_spawn :: "rstr \<Rightarrow> command_arg list \<Rightarrow> ('w, 'child, io_error) io"
  n_try_wait :: "'child \<Rightarrow> ('w, exit_status option, io_error) io"
  n_kill :: "'child \<Rightarrow> ('w, unit, io_error) io"
  n_wait :: "'child \<Rightarrow> ('w, exit_status, io_error) io"
  n_recv_timeout :: "duration \<Rightarrow> 'w \<Rightarrow> recv_result \<times> 'w"

definition renewal_args :: "renewal_options \<Rightarrow> command_arg list" where
  "renewal_args options =
     map (\<lambda>s. ArgText (lit s))
       [''-NoLogo'', ''-NoProfile'', ''-NonInteractive'', ''-ExecutionPolicy'', ''Bypass'', ''-File''] @
     [ArgPath (rn_renewal_script options),
      ArgText (lit ''-StepExecutable''), ArgPath (rn_step_executable options),
      ArgText (lit ''-CaUrl''), ArgText (rn_ca_url options),
      ArgText (lit ''-RootCaCert''), ArgPath (rn_root_ca_cert options),
      ArgText (lit ''-ServerCert''), ArgPath (rn_server_cert options),
      ArgText (lit ''-ServerKey''), ArgPath (rn_server_key options),
      ArgText (lit ''-ExpectedDnsName''), ArgText (rn_expected_dns_name options),
      ArgText (lit ''-BridgeServiceName''), ArgText (rn_bridge_service_name options),
      ArgText (lit ''-LogPath''), ArgPath (rn_log_path options)]"

partial_function (option) wait_for_child ::
  "('w, 'child) renewal_ops \<Rightarrow> 'child \<Rightarrow> 'w \<Rightarrow> ((bool, io_error) result \<times> 'w) option" where
  "wait_for_child ops child w =
     (case n_try_wait ops child w of
        (Err e, w1) \<Rightarrow> Some (Err e, w1)
      | (Ok exited, w1) \<Rightarrow>
          (case exited of
             Some st \<Rightarrow>
               Some (if ex_success st then Ok True
                     else Err (io_error_other (lit ''renewal script exited with '' @ ex_text st)), w1)
           | None \<Rightarrow>
               (case n_recv_timeout ops (from_millis 250) w1 of (received, w2) \<Rightarrow>
                  if received = RecvTimeout then wait_for_child ops child w2
                  else
                    (case n_kill ops child w2 of
                       (Err e, w3) \<Rightarrow> Some (Err e, w3)
                     | (Ok _, w3) \<Rightarrow> Some (Ok False, snd (n_wait ops child w3))))))"

definition run_renewal ::
  "('w, 'child) renewal_ops \<Rightarrow> renewal_options \<Rightarrow> 'w \<Rightarrow> ((bool, io_error) result \<times> 'w) option" where
  "run_renewal ops options w =
     (case n_spawn ops (lit ''powershell.exe'') (renewal_args options) w of
        (Err e, w1) \<Rightarrow> Some (Err e, w1)
      | (Ok child, w1) \<Rightarrow> wait_for_child ops child w1)"

datatype renewal_event = RenewalCompleted | RenewalFailed io_error

partial_function (option) renewal_loop ::
  "('w, 'child) renewal_ops \<Rightarrow> renewal_options \<Rightarrow> renewal_event list \<Rightarrow> 'w \<Rightarrow>
     (renewal_event list \<times> 'w) option" where
  "renewal_loop ops options log w =
     (case run_renewal ops options w of
        None \<Rightarrow> None
      | Some (renewed, w1) \<Rightarrow>
          if renewed = Ok False then Some (log, w1)
          else
            (case n_recv_timeout ops (rn_renewal_interval options) w1 of (received, w2) \<Rightarrow>
               if received = RecvTimeout
               then renewal_loop ops options
                 (log @ [case renewed of Ok _ \<Rightarrow> RenewalCompleted | Err e \<Rightarrow> RenewalFailed e]) w2
               else Some
                 (log @ [case renewed of Ok _ \<Rightarrow> RenewalCompleted | Err e \<Rightarrow> RenewalFailed e], w2)))"

text \<open>The module's own \<open>status\<close> is the other service's.\<close>

definition renewal_status :: "service_state \<Rightarrow> bool \<Rightarrow> service_status" where
  "renewal_status state accepted =
     \<lparr>ss_service_type = OwnProcess, ss_current_state = state, ss_accepts_stop = accepted,
      ss_exit_code = 0, ss_checkpoint = 0, ss_wait_hint = 0, ss_process_id = None\<rparr>"

lemma renewal_status_eq: "renewal_status = status"
  by (simp add: fun_eq_iff renewal_status_def status_def)

text \<open>The service function, with the states it reports.\<close>

definition run_renewal_service ::
  "'w service_ops \<Rightarrow> ('w, 'child) renewal_ops \<Rightarrow> renewal_options \<Rightarrow> 'w \<times> service_state list \<Rightarrow>
     ((unit, service_error) result \<times> renewal_event list \<times> 'w \<times> service_state list) option" where
  "run_renewal_service sops ops options w =
     (case bind_io (quietly (v_register sops)) (\<lambda>_.
           bind_io (report sops StartPending False) (\<lambda>_.
           report sops ServiceRunning True)) w of
        (Err e, w1) \<Rightarrow> Some (Err e, [], w1)
      | (Ok _, w1) \<Rightarrow>
          (case renewal_loop ops options [] (fst w1) of
             None \<Rightarrow> None
           | Some (log, w2) \<Rightarrow>
               (case report sops ServiceStopped False (w2, snd w1) of
                  (result, w3) \<Rightarrow> Some (result, log, w3))))"

text \<open>The entry point logs an error; a second start in one process is refused.\<close>

definition renewal_service_main ::
  "'w service_ops \<Rightarrow> ('w, 'child) renewal_ops \<Rightarrow> renewal_options \<Rightarrow> 'w \<times> service_state list \<Rightarrow>
     (service_error option \<times> renewal_event list \<times> 'w \<times> service_state list) option" where
  "renewal_service_main sops ops options w =
     map_option (\<lambda>(r, log, w'). ((case r of Err e \<Rightarrow> Some e | Ok _ \<Rightarrow> None), log, w'))
       (run_renewal_service sops ops options w)"

definition renewal_run ::
  "renewal_options option \<Rightarrow> renewal_options \<Rightarrow> (renewal_options \<Rightarrow> (unit, service_error) result) \<Rightarrow>
     (unit, service_error) result \<times> renewal_options option" where
  "renewal_run stored options dispatch =
     (case stored of
        Some old \<Rightarrow> (Err (Winapi (io_error_other (lit ''service already started''))), Some old)
      | None \<Rightarrow> (dispatch options, Some options))"


subsection \<open>A stop request while the script runs\<close>

text \<open>
  The world after \<open>n\<close> turns of the wait in each of which the script was still running and no
  request came within the 250 milliseconds; \<open>None\<close> when one of them was different.
\<close>

fun waited :: "('w, 'child) renewal_ops \<Rightarrow> 'child \<Rightarrow> nat \<Rightarrow> 'w \<Rightarrow> 'w option" where
  "waited ops child 0 w = Some w"
| "waited ops child (Suc n) w =
     (let (exited, w1) = n_try_wait ops child w; (received, w2) = n_recv_timeout ops (from_millis 250) w1
      in if exited = Ok None \<and> received = RecvTimeout then waited ops child n w2 else None)"

lemma wait_for_child_waited:
  "waited ops child n w = Some w' \<Longrightarrow> wait_for_child ops child w = wait_for_child ops child w'"
proof (induction n arbitrary: w)
  case (Suc n)
  obtain exited w1 where e: "n_try_wait ops child w = (exited, w1)" by fastforce
  obtain received w2 where r: "n_recv_timeout ops (from_millis 250) w1 = (received, w2)" by fastforce
  from Suc.prems e r have "exited = Ok None" "received = RecvTimeout" "waited ops child n w2 = Some w'"
    by (auto split: if_splits)
  with Suc.IH [of w2] e r show ?case by (subst wait_for_child.simps) simp
qed simp

lemma wait_for_child_stop:
  assumes "waited ops child n w = Some w1" "n_try_wait ops child w1 = (Ok None, w2)"
    and "n_recv_timeout ops (from_millis 250) w2 = (request, w3)" "request \<noteq> RecvTimeout"
    and "n_kill ops child w3 = (k, w4)"
  shows "wait_for_child ops child w =
     Some (case k of Ok _ \<Rightarrow> (Ok False, snd (n_wait ops child w4)) | Err e \<Rightarrow> (Err e, w4))"
  unfolding wait_for_child_waited [OF assms(1)]
  using assms(2-) by (subst wait_for_child.simps) (auto split: result.splits)

text \<open>The ends of the wait: an exit code, an operating system error, or a killed process.\<close>

definition child_ended ::
  "('w, 'child) renewal_ops \<Rightarrow> 'child \<Rightarrow> (bool, io_error) result \<Rightarrow> 'w \<Rightarrow> bool" where
  "child_ended ops child r w' \<longleftrightarrow>
     (case r of
        Ok True \<Rightarrow> (\<exists>w0 st. n_try_wait ops child w0 = (Ok (Some st), w') \<and> ex_success st)
      | Ok False \<Rightarrow> (\<exists>w0 w1 received w2. n_recv_timeout ops (from_millis 250) w0 = (received, w1) \<and>
          received \<noteq> RecvTimeout \<and> n_kill ops child w1 = (Ok (), w2) \<and>
          w' = snd (n_wait ops child w2))
      | Err e \<Rightarrow> (\<exists>w0. n_try_wait ops child w0 = (Err e, w')) \<or>
          (\<exists>w0 st. n_try_wait ops child w0 = (Ok (Some st), w') \<and> \<not> ex_success st) \<or>
          (\<exists>w0 w1 received. n_recv_timeout ops (from_millis 250) w0 = (received, w1) \<and>
             received \<noteq> RecvTimeout \<and> n_kill ops child w1 = (Err e, w')))"

lemma wait_for_child_ended:
  assumes "wait_for_child ops child w = Some (r, w')"
  shows "child_ended ops child r w'"
proof -
  have "child_ended ops child (fst y) (snd y)" if "wait_for_child ops child w = Some y" for y
  proof (rule wait_for_child.raw_induct [where
        P = "\<lambda>ops child w y. child_ended ops child (fst y) (snd y)", OF _ that])
    fix f ops child w y
    assume "\<And>ops child w y. f ops child w = Some y \<Longrightarrow> child_ended ops child (fst y) (snd y)"
      and "(case n_try_wait ops child w of
        (Err e, w1) \<Rightarrow> Some (Err e, w1)
      | (Ok exited, w1) \<Rightarrow>
          (case exited of
             Some st \<Rightarrow>
               Some (if ex_success st then Ok True
                     else Err (io_error_other (lit ''renewal script exited with '' @ ex_text st)), w1)
           | None \<Rightarrow>
               (case n_recv_timeout ops (from_millis 250) w1 of (received, w2) \<Rightarrow>
                  if received = RecvTimeout then f ops child w2
                  else
                    (case n_kill ops child w2 of
                       (Err e, w3) \<Rightarrow> Some (Err e, w3)
                     | (Ok _, w3) \<Rightarrow> Some (Ok False, snd (n_wait ops child w3)))))) = Some y"
    then show "child_ended ops child (fst y) (snd y)"
      by (auto split: prod.splits result.splits option.splits if_splits)
         (auto simp: child_ended_def, blast)
  qed
  from this [OF assms] show ?thesis by simp
qed


subsection \<open>A host, for the witnesses\<close>

text \<open>
  A script that never ends, one stop request, at the third look for one, and a process that can be
  killed or not; the world is the number of looks.
\<close>

definition demo_renewal_ops :: "(unit, io_error) result \<Rightarrow> (nat, unit) renewal_ops" where
  "demo_renewal_ops kill =
     \<lparr>n_spawn = (\<lambda>program args w. (Ok (), w)), n_try_wait = (\<lambda>child w. (Ok None, w)),
      n_kill = (\<lambda>child w. (kill, w)),
      n_wait = (\<lambda>child w. (Ok \<lparr>ex_success = False, ex_text = []\<rparr>, w)),
      n_recv_timeout = (\<lambda>d w. (if w = 2 then RecvStop else RecvTimeout, Suc w))\<rparr>"

definition demo_renewal_options :: renewal_options where
  "demo_renewal_options = \<lparr>rn_renewal_script = ''r'', rn_step_executable = ''step'', rn_ca_url = [],
     rn_root_ca_cert = ''ca'', rn_server_cert = ''cert'', rn_server_key = ''key'',
     rn_expected_dns_name = [], rn_bridge_service_name = [], rn_log_path = ''log'',
     rn_renewal_interval = from_secs 21600\<rparr>"


subsection \<open>Properties\<close>

text \<open>C37: what a stop request does while the script runs, whenever it comes.  After any number of
  turns of 250 milliseconds, in which the script was running and nobody asked, a request, or the
  loss of its channel, is found in the next turn.  If the process can be killed, the loop ends
  there, after waiting for it.  If killing fails, the request is used up: the failure is logged
  like that of a renewal, and the loop goes on unless another request comes within the renewal
  interval.\<close>

theorem renewal_stop_request:
  assumes "n_spawn ops (lit ''powershell.exe'') (renewal_args options) w = (Ok child, w1)"
    and "waited ops child n w1 = Some w2" "n_try_wait ops child w2 = (Ok None, w3)"
    and "n_recv_timeout ops (from_millis 250) w3 = (request, w4)" "request \<noteq> RecvTimeout"
    and "n_kill ops child w4 = (k, w5)"
    and "n_recv_timeout ops (rn_renewal_interval options) w5 = (received, w6)"
  shows "renewal_loop ops options log w =
     (case k of
        Ok _ \<Rightarrow> Some (log, snd (n_wait ops child w5))
      | Err e \<Rightarrow>
          if received = RecvTimeout then renewal_loop ops options (log @ [RenewalFailed e]) w6
          else Some (log @ [RenewalFailed e], w6))"
  using wait_for_child_stop [OF assms(2-6)] assms(1,7)
  by (subst renewal_loop.simps) (cases k; simp add: run_renewal_def)

theorem renewal_stop_request_witness:
  "renewal_loop (demo_renewal_ops (Err (io_error_new PermissionDenied []))) demo_renewal_options [] 0 =
     renewal_loop (demo_renewal_ops (Err (io_error_new PermissionDenied []))) demo_renewal_options
       [RenewalFailed (io_error_new PermissionDenied [])] 4 \<and>
   renewal_loop (demo_renewal_ops (Ok ())) demo_renewal_options [] 0 = Some ([], 3)"
proof -
  have run: "n_spawn (demo_renewal_ops k) (lit ''powershell.exe'') (renewal_args demo_renewal_options) 0 =
      (Ok (), 0)"
    "waited (demo_renewal_ops k) () 2 0 = Some 2"
    "n_try_wait (demo_renewal_ops k) () 2 = (Ok None, 2)"
    "n_recv_timeout (demo_renewal_ops k) (from_millis 250) 2 = (RecvStop, 3)" "RecvStop \<noteq> RecvTimeout"
    "n_kill (demo_renewal_ops k) () 3 = (k, 3)"
    "n_recv_timeout (demo_renewal_ops k) (rn_renewal_interval demo_renewal_options) 3 = (RecvTimeout, 4)"
    for k
    by (simp_all add: demo_renewal_ops_def eval_nat_numeral)
  from renewal_stop_request [OF run, of "Err (io_error_new PermissionDenied [])" "[]"]
    renewal_stop_request [OF run, of "Ok ()" "[]"]
  show ?thesis by (simp add: demo_renewal_ops_def)
qed

text \<open>What the wait for the script can return.  Success is an exit with success; \<open>false\<close> is a stop
  request, or a lost channel, and a process that was killed and waited for; an error is the
  operating system's, or an exit without success.\<close>

lemma wait_for_child_outcome:
  assumes "wait_for_child ops child w = Some (r, w')"
  shows "case r of
      Ok True \<Rightarrow> (\<exists>w0 st. n_try_wait ops child w0 = (Ok (Some st), w') \<and> ex_success st)
    | Ok False \<Rightarrow> (\<exists>w0 w1 received w2. n_recv_timeout ops (from_millis 250) w0 = (received, w1) \<and>
        received \<noteq> RecvTimeout \<and> n_kill ops child w1 = (Ok (), w2) \<and>
        w' = snd (n_wait ops child w2))
    | Err e \<Rightarrow> (\<exists>w0. n_try_wait ops child w0 = (Err e, w')) \<or>
        (\<exists>w0 st. n_try_wait ops child w0 = (Ok (Some st), w') \<and> \<not> ex_success st) \<or>
        (\<exists>w0 w1 received. n_recv_timeout ops (from_millis 250) w0 = (received, w1) \<and>
           received \<noteq> RecvTimeout \<and> n_kill ops child w1 = (Err e, w'))"
  using wait_for_child_ended [OF assms] by (simp add: child_ended_def)

end
