(* ===== verification/Windows_Log.thy ===== *)
theory Windows_Log
  imports Rust_Text
begin

section \<open>File logging of the Windows services (src/windows\_logging.rs)\<close>

text \<open>
  One formatted line per record, appended to a file.  Of the \<open>log\<close> crate the source uses the levels
  with their order and texts, and the global maximal level; the file, its lock and the clock are
  parameters.
\<close>

datatype log_level = LevelError | LevelWarn | LevelInfo | LevelDebug | LevelTrace

primrec level_rank :: "log_level \<Rightarrow> nat" where
  "level_rank LevelError = 1"
| "level_rank LevelWarn = 2"
| "level_rank LevelInfo = 3"
| "level_rank LevelDebug = 4"
| "level_rank LevelTrace = 5"

lemma level_rank_inject: "level_rank a = level_rank b \<longleftrightarrow> a = b"
  by (cases a; cases b) simp_all

instantiation log_level :: linorder
begin

definition less_eq_log_level :: "log_level \<Rightarrow> log_level \<Rightarrow> bool" where
  "less_eq_log_level a b \<longleftrightarrow> level_rank a \<le> level_rank b"

definition less_log_level :: "log_level \<Rightarrow> log_level \<Rightarrow> bool" where
  "less_log_level a b \<longleftrightarrow> level_rank a < level_rank b"

instance
  by standard (auto simp: less_eq_log_level_def less_log_level_def level_rank_inject)

end

primrec level_text :: "log_level \<Rightarrow> rstr" where
  "level_text LevelError = lit ''ERROR''"
| "level_text LevelWarn = lit ''WARN''"
| "level_text LevelInfo = lit ''INFO''"
| "level_text LevelDebug = lit ''DEBUG''"
| "level_text LevelTrace = lit ''TRACE''"

lemma level_text_no_newline: "10 \<notin> set (level_text level)"
  by (cases level) (simp_all add: lit_def)

text \<open>A \<open>LevelFilter\<close> is a level or \<open>Off\<close>, which is \<open>None\<close>.\<close>

record 'w log_ops =
  lg_max_level :: "'w \<Rightarrow> log_level option"
  lg_now_secs :: "'w \<Rightarrow> u64 option"
  lg_lock_ok :: "'w \<Rightarrow> bool"
  lg_write :: "rstr \<Rightarrow> ('w, unit, io_error) io"
  lg_flush :: "('w, unit, io_error) io"

definition log_enabled :: "'w log_ops \<Rightarrow> log_level \<Rightarrow> 'w \<Rightarrow> bool" where
  "log_enabled ops level w \<longleftrightarrow>
     (case lg_max_level ops w of None \<Rightarrow> False | Some m \<Rightarrow> level \<le> m)"

definition format_line :: "u64 \<Rightarrow> rstr \<Rightarrow> rstr \<Rightarrow> rstr \<Rightarrow> rstr" where
  "format_line timestamp level component message =
     dec_nat (unat timestamp) @ lit '' '' @ level @ lit '' ['' @ component @ lit ''] '' @ message"

text \<open>The clock is \<open>None\<close> before the Unix epoch; a failed write or flush is ignored.\<close>

definition file_log ::
  "'w log_ops \<Rightarrow> rstr \<Rightarrow> log_level \<Rightarrow> rstr \<Rightarrow> 'w \<Rightarrow> 'w" where
  "file_log ops component level message w =
     (if \<not> log_enabled ops level w then w
      else
        let timestamp = (case lg_now_secs ops w of None \<Rightarrow> 0 | Some secs \<Rightarrow> secs)
        in if lg_lock_ok ops w then
             (let w1 = snd (lg_write ops
                    (format_line timestamp (level_text level) component message @ [10]) w)
              in snd (lg_flush ops w1))
           else w)"

definition file_flush :: "'w log_ops \<Rightarrow> 'w \<Rightarrow> 'w" where
  "file_flush ops w = (if lg_lock_ok ops w then snd (lg_flush ops w) else w)"


text \<open>Opening the file and installing the logger.\<close>

record 'w log_init_ops =
  li_open_append :: "path \<Rightarrow> ('w, unit, io_error) io"
  li_set_logger :: "rstr \<Rightarrow> ('w, unit, rstr) io"
  li_set_max_level :: "log_level option \<Rightarrow> 'w \<Rightarrow> 'w"

definition log_init :: "'w log_init_ops \<Rightarrow> path \<Rightarrow> rstr \<Rightarrow> ('w, unit, io_error) io" where
  "log_init ops p component =
     bind_io (li_open_append ops p) (\<lambda>_.
     bind_io (map_err_io io_error_other (li_set_logger ops component)) (\<lambda>_ w.
       (Ok (), li_set_max_level ops (Some LevelInfo) w)))"


subsection \<open>Lines of the file\<close>

lemma split_newlines_append:
  "t \<noteq> [] \<Longrightarrow> split_newlines acc (s @ 10 # t) = split_newlines acc (s @ [10]) @ split_newlines [] t"
  by (induction s arbitrary: acc) auto

lemma str_lines_append: "str_lines (s @ 10 # t) = str_lines (s @ [10]) @ str_lines t"
  by (cases "t = []") (simp_all add: str_lines_def split_newlines_append)

text \<open>The pieces between newlines, without any other change.\<close>

lemma length_split_newlines:
  "length (split_newlines acc (s @ [10])) = Suc (count_list s 10)"
  by (induction s arbitrary: acc) auto

lemma dec_nat_no_newline: "10 \<notin> set (dec_nat n)"
  using dec_nat_digits [of 10 n] by (auto simp: is_digit_def)

lemma count_list_notin: "x \<notin> set xs \<Longrightarrow> count_list xs x = 0"
  by (induction xs) auto

lemma format_line_newlines:
  "10 \<notin> set level \<Longrightarrow> 10 \<notin> set component \<Longrightarrow>
     count_list (format_line timestamp level component message) 10 = count_list message 10"
  by (simp add: format_line_def dec_nat_no_newline count_list_notin lit_def)

text \<open>A logger whose file is its contents: every write is appended.\<close>

definition appending :: "rstr log_ops \<Rightarrow> bool" where
  "appending ops \<longleftrightarrow>
     (\<forall>s w. lg_write ops s w = (Ok (), w @ s)) \<and> (\<forall>w. lg_flush ops w = (Ok (), w)) \<and>
     (\<forall>w. lg_lock_ok ops w)"

lemma file_log_appends:
  "appending ops \<Longrightarrow> log_enabled ops level w \<Longrightarrow>
     file_log ops component level message w =
       w @ format_line (case lg_now_secs ops w of None \<Rightarrow> 0 | Some secs \<Rightarrow> secs)
         (level_text level) component message @ [10]"
  by (simp add: file_log_def appending_def Let_def)


lemma logged_line:
  assumes "appending ops" "log_enabled ops level w" "10 \<notin> set component" "w = [] \<or> last w = 10"
    and "lg_now_secs ops w = now"
  shows "\<exists>added. str_lines (file_log ops component level message w) = str_lines w @ added \<and>
     length added = Suc (count_list message 10) \<and>
     (10 \<notin> set message \<longrightarrow> message = [] \<or> last message \<noteq> 13 \<longrightarrow>
        added = [format_line (case now of None \<Rightarrow> 0 | Some secs \<Rightarrow> secs) (level_text level) component message])"
proof -
  define line where "line = format_line (case now of None \<Rightarrow> 0 | Some secs \<Rightarrow> secs)
    (level_text level) component message"
  have appended: "file_log ops component level message w = w @ line @ [10]"
    using assms by (simp add: file_log_appends line_def)
  have "str_lines (w @ line @ [10]) = str_lines w @ str_lines (line @ [10])"
  proof (cases w rule: rev_cases)
    case Nil
    then show ?thesis by (simp add: str_lines_def)
  next
    case (snoc s c)
    with assms(4) have "w = s @ [10]" by simp
    then show ?thesis using str_lines_append [of s "line @ [10]"] by simp
  qed
  moreover have count: "count_list line 10 = count_list message 10"
    using assms(3) by (simp add: line_def format_line_newlines level_text_no_newline)
  moreover have "str_lines (line @ [10]) = [line]"
    if "10 \<notin> set message" "message = [] \<or> last message \<noteq> 13"
  proof (rule str_lines_single)
    from count that show "10 \<notin> set line" by (simp add: count_list_0_iff)
    have "last (lit ''] '') = 32" by (simp add: lit_def)
    with that show "line = [] \<or> last line \<noteq> 13"
      by (auto simp: line_def format_line_def last_append lit_def)
  qed
  moreover have "length (str_lines (line @ [10])) = Suc (count_list message 10)"
    using count by (simp only: str_lines_def length_split_newlines)
  ultimately show ?thesis
    unfolding appended line_def by (intro exI conjI impI) assumption+
qed

text \<open>What \<open>init\<close> makes of the levels: with the maximal level it has set, exactly the errors, the
  warnings and the informational records are written.\<close>

lemma log_init_levels:
  assumes "log_init init p component w = (Ok (), w')"
    and "\<And>filter v. lg_max_level ops (li_set_max_level init filter v) = filter"
  shows "log_enabled ops level w' \<longleftrightarrow> level \<in> {LevelError, LevelWarn, LevelInfo}"
proof -
  obtain v where "w' = li_set_max_level init (Some LevelInfo) v"
    using assms(1) by (auto simp: log_init_def io_splits)
  then show ?thesis
    by (cases level) (simp_all add: log_enabled_def assms(2) less_eq_log_level_def)
qed


subsection \<open>A file in memory, for the witness\<close>

definition memory_log :: "rstr log_ops" where
  "memory_log = \<lparr>lg_max_level = (\<lambda>w. Some LevelInfo), lg_now_secs = (\<lambda>w. Some 1726320000),
     lg_lock_ok = (\<lambda>w. True), lg_write = (\<lambda>s w. (Ok (), w @ s)), lg_flush = (\<lambda>w. (Ok (), w))\<rparr>"

lemma memory_log_appending: "appending memory_log"
  by (simp add: appending_def memory_log_def)


subsection \<open>Properties\<close>



end
