(* ===== verification/Retry.thy ===== *)
theory Retry
  imports Bridge_Prelude
begin

section \<open>Reconnect backoff (src/retry.rs)\<close>

text \<open>
  The capped exponential backoff with full jitter that a client session uses while it tries to
  reach the server.  The random generator is a third-party crate: it is a parameter, with the
  documented range of \<open>fastrand::u64(..=n)\<close> as the assumption of the locale \<open>bounded_rng\<close>.
\<close>

definition INITIAL_RECONNECT_DELAY :: duration where
  "INITIAL_RECONNECT_DELAY = from_millis 200"

definition MAX_RECONNECT_DELAY :: duration where
  "MAX_RECONNECT_DELAY = from_secs 5"

definition PRE_RELAY_RECONNECT_WINDOW :: duration where
  "PRE_RELAY_RECONNECT_WINDOW = from_secs (1 * 60)"

record reconnect_backoff =
  attempt :: u32

definition backoff_new :: reconnect_backoff where
  "backoff_new = \<lparr>attempt = 0\<rparr>"

definition backoff_default :: reconnect_backoff where
  "backoff_default = backoff_new"

text \<open>
  The jitter closure may have effects (it draws from a generator), so it threads a state.
\<close>

definition next_delay_with ::
  "(duration \<Rightarrow> 'g \<Rightarrow> duration \<times> 'g) \<Rightarrow> reconnect_backoff \<Rightarrow> 'g \<Rightarrow>
     duration \<times> reconnect_backoff \<times> 'g" where
  "next_delay_with jitter b g =
     (let exponent = min (attempt b) 5;
          b' = b\<lparr>attempt := saturating_add (attempt b) 1\<rparr>;
          cap = min (case duration_checked_mul INITIAL_RECONNECT_DELAY
                            (unat (push_bit (unat exponent) (1 :: u32))) of
                       Some d \<Rightarrow> d
                     | None \<Rightarrow> MAX_RECONNECT_DELAY) MAX_RECONNECT_DELAY
      in case jitter cap g of (d, g') \<Rightarrow> (min d cap, b', g'))"

text \<open>\<open>u64::try_from(n).unwrap_or(u64::MAX)\<close> on a \<open>u128\<close>.\<close>

definition u64_try_from_or_max :: "nat \<Rightarrow> u64" where
  "u64_try_from_or_max n = (if n < 2 ^ 64 then of_nat n else - 1)"

definition next_delay ::
  "(u64 \<Rightarrow> 'g \<Rightarrow> u64 \<times> 'g) \<Rightarrow> reconnect_backoff \<Rightarrow> 'g \<Rightarrow> duration \<times> reconnect_backoff \<times> 'g" where
  "next_delay u64_upto =
     next_delay_with (\<lambda>cap g. case u64_upto (u64_try_from_or_max cap) g of
        (n, g') \<Rightarrow> (from_nanos (unat n), g'))"


subsection \<open>What the cap is\<close>

text \<open>
  The specification counts attempts without bound: the cap of attempt \<open>n\<close> doubles from 200
  milliseconds and stops at five seconds.
\<close>

definition spec_cap :: "nat \<Rightarrow> duration" where
  "spec_cap n = min (200000000 * 2 ^ n) 5000000000"

lemma spec_cap_le: "spec_cap n \<le> MAX_RECONNECT_DELAY"
  by (simp add: spec_cap_def MAX_RECONNECT_DELAY_def from_secs_def)

lemma spec_cap_saturated: "5 \<le> n \<Longrightarrow> spec_cap n = 5000000000"
proof -
  assume "5 \<le> n"
  then have "(2 :: nat) ^ 5 \<le> 2 ^ n" by (rule power_increasing) simp
  then show ?thesis by (simp add: spec_cap_def)
qed

lemma unat_pow2_u32: "k < 32 \<Longrightarrow> unat ((2 :: u32) ^ k) = 2 ^ k"
proof -
  assume "k < 32"
  then have "(2 :: nat) ^ k < 2 ^ 32" by (rule power_strict_increasing) simp
  then have "unat (of_nat (2 ^ k) :: u32) = 2 ^ k"
    by (simp only: unat_of_nat) (simp add: take_bit_nat_eq_self)
  then show ?thesis by simp
qed

lemma next_delay_with_eq:
  "next_delay_with jitter b g =
     (case jitter (spec_cap (unat (attempt b))) g of
        (d, g') \<Rightarrow> (min d (spec_cap (unat (attempt b))),
                    b\<lparr>attempt := saturating_add (attempt b) 1\<rparr>, g'))"
proof -
  define k where "k = unat (min (attempt b) 5)"
  have k: "k = min (unat (attempt b)) 5"
    by (auto simp: k_def min_def word_le_nat_alt)
  then have "k \<le> 5" by simp
  then have "(2 :: nat) ^ k \<le> 2 ^ 5" by (intro power_increasing) simp_all
  then have mul: "duration_checked_mul INITIAL_RECONNECT_DELAY (2 ^ k) = Some (200000000 * 2 ^ k)"
    by (simp add: duration_checked_mul_def INITIAL_RECONNECT_DELAY_def from_millis_def
        duration_max_def)
  have "min (200000000 * 2 ^ k) MAX_RECONNECT_DELAY = spec_cap (unat (attempt b))"
  proof (cases "unat (attempt b) \<le> 5")
    case True
    with k show ?thesis
      by (simp add: spec_cap_def MAX_RECONNECT_DELAY_def from_secs_def)
  next
    case False
    with k have "k = 5" by simp
    with False show ?thesis
      by (simp add: spec_cap_saturated MAX_RECONNECT_DELAY_def from_secs_def)
  qed
  with mul \<open>k \<le> 5\<close> show ?thesis
    by (simp add: next_delay_with_def Let_def k_def [symmetric] unat_pow2_u32)
qed


subsection \<open>Successive delays of one session\<close>

text \<open>The delays of \<open>n\<close> successive calls on one backoff, with the state after them.\<close>

fun next_delays ::
  "(duration \<Rightarrow> 'g \<Rightarrow> duration \<times> 'g) \<Rightarrow> nat \<Rightarrow> reconnect_backoff \<Rightarrow> 'g \<Rightarrow>
     duration list \<times> reconnect_backoff \<times> 'g" where
  "next_delays jitter 0 b g = ([], b, g)"
| "next_delays jitter (Suc n) b g =
     (case next_delay_with jitter b g of (d, b', g') \<Rightarrow>
        (case next_delays jitter n b' g' of (ds, b'', g'') \<Rightarrow> (d # ds, b'', g'')))"

text \<open>
  The counter is a saturating \<open>u32\<close>, the specification's is unbounded.  They agree as long as
  the counter has not saturated, and beyond that both caps are the maximal one.
\<close>

definition counts :: "reconnect_backoff \<Rightarrow> nat \<Rightarrow> bool" where
  "counts b n \<longleftrightarrow> unat (attempt b) = min n (2 ^ 32 - 1)"

lemma counts_new: "counts backoff_new 0"
  by (simp add: counts_def backoff_new_def)

lemma counts_step: "counts b n \<Longrightarrow> counts (b\<lparr>attempt := saturating_add (attempt b) 1\<rparr>) (Suc n)"
  by (auto simp: counts_def unat_saturating_add)

lemma counts_cap: "counts b n \<Longrightarrow> spec_cap (unat (attempt b)) = spec_cap n"
  by (cases "n \<le> 2 ^ 32 - 1") (simp_all add: counts_def spec_cap_saturated)

lemma fst_next_delays_Suc:
  "next_delay_with jitter b g = (d, b', g') \<Longrightarrow>
     fst (next_delays jitter (Suc n) b g) = d # fst (next_delays jitter n b' g')"
  by (simp split: prod.splits)

lemma caps_Suc: "map spec_cap [k..<k + Suc n] = spec_cap k # map spec_cap [Suc k..<Suc k + n]"
  by (simp add: upt_conv_Cons del: upt_Suc)

lemma next_delays_le_caps:
  "counts b k \<Longrightarrow> list_all2 (\<le>) (fst (next_delays jitter n b g)) (map spec_cap [k..<k + n])"
proof (induction n arbitrary: b g k)
  case 0
  then show ?case by simp
next
  case (Suc n)
  obtain d g' where j: "jitter (spec_cap k) g = (d, g')" by fastforce
  then have step: "next_delay_with jitter b g =
      (min d (spec_cap k), b\<lparr>attempt := saturating_add (attempt b) 1\<rparr>, g')"
    using Suc.prems by (simp add: next_delay_with_eq counts_cap)
  show ?case
    unfolding fst_next_delays_Suc [OF step] caps_Suc
    using Suc.IH [OF counts_step [OF Suc.prems]] by simp
qed

lemma next_delays_full_jitter:
  "counts b k \<Longrightarrow>
     fst (next_delays (\<lambda>cap g. (cap, g)) n b g) = map spec_cap [k..<k + n]"
proof (induction n arbitrary: b k)
  case 0
  then show ?case by simp
next
  case (Suc n)
  then have step: "next_delay_with (\<lambda>cap g. (cap, g)) b g =
      (spec_cap k, b\<lparr>attempt := saturating_add (attempt b) 1\<rparr>, g)"
    by (simp add: next_delay_with_eq counts_cap)
  show ?case
    unfolding fst_next_delays_Suc [OF step] caps_Suc
    using Suc.IH [OF counts_step [OF Suc.prems]] by simp
qed


text \<open>The specification itself, with an unbounded counter and no machine arithmetic.\<close>

fun spec_delays ::
  "(duration \<Rightarrow> 'g \<Rightarrow> duration \<times> 'g) \<Rightarrow> nat \<Rightarrow> nat \<Rightarrow> 'g \<Rightarrow> duration list \<times> 'g" where
  "spec_delays jitter k 0 g = ([], g)"
| "spec_delays jitter k (Suc n) g =
     (case jitter (spec_cap k) g of (d, g') \<Rightarrow>
        (case spec_delays jitter (Suc k) n g' of (ds, g'') \<Rightarrow> (min d (spec_cap k) # ds, g'')))"

lemma next_delays_spec:
  "counts b k \<Longrightarrow>
     \<exists>b'. next_delays jitter n b g =
       (fst (spec_delays jitter k n g), b', snd (spec_delays jitter k n g)) \<and> counts b' (k + n)"
proof (induction n arbitrary: b g k)
  case 0
  then show ?case by simp
next
  case (Suc n)
  obtain d g' where j: "jitter (spec_cap k) g = (d, g')" by fastforce
  from Suc.IH [OF counts_step [OF Suc.prems], of g'] j Suc.prems show ?case
    by (auto simp: next_delay_with_eq counts_cap case_prod_unfold)
qed

text \<open>With the full-cap jitter the delays are exactly the specification's caps, so the bound
  is reached, and a new session starts again with the initial cap.\<close>

lemma backoff_delays_exact:
  "fst (next_delays (\<lambda>cap g. (cap, g)) n backoff_new g) = map spec_cap [0..<n]"
  using next_delays_full_jitter [OF counts_new, of n g] by simp


subsection \<open>The random generator\<close>

text \<open>What the session relies on: \<open>u64(..=n)\<close> returns a number of at most \<open>n\<close>.\<close>

locale bounded_rng =
  fixes u64_upto :: "u64 \<Rightarrow> 'g \<Rightarrow> u64 \<times> 'g"
  assumes u64_upto_le: "u64_upto hi g = (n, g') \<Longrightarrow> n \<le> hi"
begin

text \<open>
  The conversion to nanoseconds never saturates and the final clipping never acts: the delay is
  the drawn number of nanoseconds.
\<close>

lemma next_delay_is_draw:
  assumes "u64_upto (of_nat (spec_cap (unat (attempt b)))) g = (n, g')"
  shows "next_delay u64_upto b g =
     (unat n, b\<lparr>attempt := saturating_add (attempt b) 1\<rparr>, g')"
    and "unat n \<le> spec_cap (unat (attempt b))"
proof -
  define c where "c = spec_cap (unat (attempt b))"
  have "c \<le> 5000000000" by (simp add: c_def spec_cap_def)
  then have c: "unat (of_nat c :: u64) = c" "c < 2 ^ 64"
    by (simp_all add: unat_of_nat take_bit_nat_eq_self)
  have le: "unat n \<le> c"
    using u64_upto_le [OF assms] c by (simp add: c_def word_le_nat_alt)
  then show "unat n \<le> spec_cap (unat (attempt b))" by (simp add: c_def)
  show "next_delay u64_upto b g =
     (unat n, b\<lparr>attempt := saturating_add (attempt b) 1\<rparr>, g')"
    using assms le c
    by (simp add: next_delay_def next_delay_with_eq u64_try_from_or_max_def c_def [symmetric]
        from_nanos_def min_absorb1)
qed

end

text \<open>
  A generator with that range: a linear congruential step, reduced to the requested range.
\<close>

definition lcg_upto :: "u64 \<Rightarrow> u64 \<Rightarrow> u64 \<times> u64" where
  "lcg_upto hi g =
     (let g' = g * 6364136223846793005 + 1442695040888963407
      in (if hi = - 1 then g' else g' mod (hi + 1), g'))"

lemma lcg_upto_le: "lcg_upto hi g = (n, g') \<Longrightarrow> n \<le> hi"
proof -
  assume "lcg_upto hi g = (n, g')"
  then have n: "n = (if hi = - 1 then g' else g' mod (hi + 1))"
    by (auto simp: lcg_upto_def Let_def)
  show "n \<le> hi"
  proof (cases "hi = - 1")
    case True
    then show ?thesis by simp
  next
    case False
    then have "hi + 1 \<noteq> 0" by (metis add_eq_0_iff2)
    then have "g' mod (hi + 1) < hi + 1"
      by (simp add: word_mod_less_divisor word_gt_0)
    moreover have "unat (hi + 1) = Suc (unat hi)"
      using \<open>hi + 1 \<noteq> 0\<close> by (metis add.commute unatSuc)
    ultimately show ?thesis
      using False n by (simp add: word_less_nat_alt word_le_nat_alt)
  qed
qed

interpretation lcg: bounded_rng lcg_upto
  by unfold_locales (rule lcg_upto_le)


subsection \<open>Properties\<close>

text \<open>The delays of successive failures of one session, whatever the jitter closure returns, are at
  most the caps of the specification.\<close>

lemma backoff_delays_bounded:
  "list_all2 (\<le>) (fst (next_delays jitter n backoff_new g)) (map spec_cap [0..<n])"
  using next_delays_le_caps [OF counts_new, of jitter n g] by simp

text \<open>C39: the backoff is the one with an unbounded counter.  For any number of failures and whatever
  the jitter closure returns, the delays and the closure's state are those of the reference
  definition, which doubles 200 milliseconds without bound and stops at five seconds: the
  saturating \<open>u32\<close> counter, the clipped shift and the checked multiplication change nothing.\<close>

theorem backoff_equals_reference:
  "(case next_delays jitter n backoff_new g of (ds, b, g') \<Rightarrow>
      spec_delays jitter 0 n g = (ds, g') \<and> unat (attempt b) = min n (2 ^ 32 - 1))"
  using next_delays_spec [OF counts_new, of jitter n g] by (auto simp: counts_def)

text \<open>The delay of the program's own jitter.  With a generator that keeps its range, the
  delay is exactly the drawn number of nanoseconds, at most the current cap: the conversions to
  and from \<open>u64\<close> nanoseconds lose nothing.\<close>

lemma next_delay_uniform_draw:
  assumes "bounded_rng u64_upto"
    and "u64_upto (of_nat (spec_cap (unat (attempt b)))) g = (n, g')"
  shows "next_delay u64_upto b g = (unat n, b\<lparr>attempt := saturating_add (attempt b) 1\<rparr>, g')
    \<and> unat n \<le> spec_cap (unat (attempt b))"
  using bounded_rng.next_delay_is_draw [OF assms] by blast

end
