(* ===== verification/Client_Session.thy ===== *)
theory Client_Session
  imports Server_Session Retry
begin

section \<open>One client session (src/client.rs, lines 23 to 112)\<close>

text \<open>
  What the client does with an accepted Unix connection: it tries to reach the server until its
  pre-relay window of one minute is over, pausing between attempts by the jittered backoff, and
  relays once.  \<open>establish\<close> is one attempt; its error says whether to try again.  The loop is a
  \<open>partial_function\<close>: \<open>None\<close> is a session that never ends.
\<close>

definition TCP_CONNECT_TIMEOUT :: duration where
  "TCP_CONNECT_TIMEOUT = from_secs 5"

definition CLIENT_TLS_HANDSHAKE_TIMEOUT :: duration where
  "CLIENT_TLS_HANDSHAKE_TIMEOUT = from_secs 10"

datatype client_end =
    ClientExhausted
  | ClientCompleted relay_stats
  | ClientCancelled
  | ClientRelayFailed io_error
  | ClientStopped
  | ClientRejected

text \<open>Which branch of the \<open>select!\<close> between \<open>sleep(delay)\<close> and \<open>shutdown.changed()\<close> won.\<close>

datatype pause_end = Slept | ShutdownChanged "(unit, unit) result"

text \<open>
  The operations of a session: \<open>timeout(d, TcpStream::connect(address))\<close> and
  \<open>timeout(d, connector.connect(name, stream))\<close> with \<open>None\<close> for the elapsed timeout, the
  socket options, the negotiated protocol, the relay's environment, \<open>Instant::now\<close>, the random
  generator, and the pause.
\<close>

record ('w, 'n, 'l, 'st, 'tls) client_ops =
  c_tcp_connect :: "duration \<Rightarrow> rstr \<Rightarrow> 'w \<Rightarrow> ('st, io_error) result option \<times> 'w"
  c_set_nodelay :: "'st \<Rightarrow> ('w, unit, io_error) io"
  c_set_keepalive :: "'st \<Rightarrow> duration \<Rightarrow> ('w, unit, io_error) io"
  c_tls_connect :: "duration \<Rightarrow> 'n \<Rightarrow> 'st \<Rightarrow> 'w \<Rightarrow> ('tls, io_error) result option \<times> 'w"
  c_alpn :: "'tls \<Rightarrow> u8 list option"
  c_relay :: "('l, 'tls, 'w) relay_env"
  c_now :: "'w \<Rightarrow> nat"
  c_u64_upto :: "u64 \<Rightarrow> 'w \<Rightarrow> u64 \<times> 'w"
  c_pause :: "duration \<Rightarrow> 'w \<Rightarrow> pause_end \<times> 'w"

definition client_configure_tcp ::
  "('w, 'n, 'l, 'st, 'tls) client_ops \<Rightarrow> 'st \<Rightarrow> 'w \<Rightarrow> tcp_warning list \<times> 'w" where
  "client_configure_tcp ops stream w =
     (case c_set_nodelay ops stream w of (r1, w1) \<Rightarrow>
        (case c_set_keepalive ops stream (from_secs 30) w1 of (r2, w2) \<Rightarrow>
           ((case r1 of Err e \<Rightarrow> [NodelayFailed e] | Ok _ \<Rightarrow> []) @
            (case r2 of Err e \<Rightarrow> [KeepaliveFailed e] | Ok _ \<Rightarrow> []), w2)))"

definition transient_tls_error :: "io_error \<Rightarrow> bool" where
  "transient_tls_error e \<longleftrightarrow>
     (case io_kind e of
        ConnectionAborted \<Rightarrow> True
      | ConnectionReset \<Rightarrow> True
      | TimedOut \<Rightarrow> True
      | UnexpectedEof \<Rightarrow> True
      | BrokenPipe \<Rightarrow> True
      | _ \<Rightarrow> False)"

definition establish ::
  "('w, 'n, 'l, 'st, 'tls) client_ops \<Rightarrow> 'n \<Rightarrow> rstr \<Rightarrow> 'w \<Rightarrow>
     ('tls, bool) result \<times> tcp_warning list \<times> 'w" where
  "establish ops name address w =
     (case c_tcp_connect ops TCP_CONNECT_TIMEOUT address w of
        (None, w1) \<Rightarrow> (Err True, [], w1)
      | (Some (Err _), w1) \<Rightarrow> (Err True, [], w1)
      | (Some (Ok stream), w1) \<Rightarrow>
          (case client_configure_tcp ops stream w1 of (ws, w2) \<Rightarrow>
             (case c_tls_connect ops CLIENT_TLS_HANDSHAKE_TIMEOUT name stream w2 of
                (None, w3) \<Rightarrow> (Err True, ws, w3)
              | (Some (Err e), w3) \<Rightarrow> (Err (transient_tls_error e), ws, w3)
              | (Some (Ok tls), w3) \<Rightarrow>
                  (case validate_alpn (c_alpn ops tls) of
                     Err _ \<Rightarrow> (Err False, ws, w3)
                   | Ok _ \<Rightarrow> (Ok tls, ws, w3)))))"

definition relay_end :: "(relay_stats, io_error) result \<Rightarrow> client_end" where
  "relay_end r =
     (case r of
        Ok stats \<Rightarrow> ClientCompleted stats
      | Err e \<Rightarrow> if io_kind e = Interrupted then ClientCancelled else ClientRelayFailed e)"

partial_function (option) session_loop ::
  "('w, 'n, 'l, 'st, 'tls) client_ops \<Rightarrow> 'l \<Rightarrow> 'n \<Rightarrow> rstr \<Rightarrow> nat \<Rightarrow> reconnect_backoff \<Rightarrow>
     tcp_warning list \<Rightarrow> 'w \<Rightarrow> (tcp_warning list \<times> client_end \<times> 'w) option" where
  "session_loop ops sock name address started backoff log w =
     (if PRE_RELAY_RECONNECT_WINDOW \<le> c_now ops w - started then Some (log, ClientExhausted, w)
      else
        (case establish ops name address w of
           (Ok remote, ws, w1) \<Rightarrow>
             (case relay (c_relay ops) sock remote w1 of
                None \<Rightarrow> None
              | Some (r, w2) \<Rightarrow> Some (log @ ws, relay_end r, w2))
         | (Err retry, ws, w1) \<Rightarrow>
             if retry then
               (case next_delay (c_u64_upto ops) backoff w1 of (delay, backoff', w2) \<Rightarrow>
                  if PRE_RELAY_RECONNECT_WINDOW
                       \<le> duration_saturating_add (c_now ops w2 - started) delay
                  then Some (log @ ws, ClientExhausted, w2)
                  else
                    (case c_pause ops delay w2 of
                       (Slept, w3) \<Rightarrow>
                         session_loop ops sock name address started backoff' (log @ ws) w3
                     | (ShutdownChanged _, w3) \<Rightarrow> Some (log @ ws, ClientStopped, w3)))
             else Some (log @ ws, ClientRejected, w1)))"

definition relay_session ::
  "('w, 'n, 'l, 'st, 'tls) client_ops \<Rightarrow> 'l \<Rightarrow> 'n \<Rightarrow> rstr \<Rightarrow> 'w \<Rightarrow>
     (tcp_warning list \<times> client_end \<times> 'w) option" where
  "relay_session ops sock name address w =
     session_loop ops sock name address (c_now ops w) backoff_new [] w"


subsection \<open>One attempt\<close>

lemma transient_tls_error_iff:
  "transient_tls_error e \<longleftrightarrow>
     io_kind e \<in> {ConnectionAborted, ConnectionReset, TimedOut, UnexpectedEof, BrokenPipe}"
  by (cases "io_kind e") (simp_all add: transient_tls_error_def)

text \<open>The TLS handshake of an attempt, when its TCP connection was made.\<close>

definition tls_attempt ::
  "('w, 'n, 'l, 'st, 'tls) client_ops \<Rightarrow> 'n \<Rightarrow> rstr \<Rightarrow> 'w \<Rightarrow> ('tls, io_error) result option \<Rightarrow>
     'w \<Rightarrow> bool" where
  "tls_attempt ops name address w r w' \<longleftrightarrow>
     (\<exists>stream w1. c_tcp_connect ops TCP_CONNECT_TIMEOUT address w = (Some (Ok stream), w1) \<and>
        c_tls_connect ops CLIENT_TLS_HANDSHAKE_TIMEOUT name stream
          (snd (client_configure_tcp ops stream w1)) = (r, w'))"

definition tcp_unreachable ::
  "('w, 'n, 'l, 'st, 'tls) client_ops \<Rightarrow> rstr \<Rightarrow> 'w \<Rightarrow> 'w \<Rightarrow> bool" where
  "tcp_unreachable ops address w w' \<longleftrightarrow>
     (\<exists>r. c_tcp_connect ops TCP_CONNECT_TIMEOUT address w = (r, w') \<and> (\<forall>stream. r \<noteq> Some (Ok stream)))"

lemma establish_Ok_iff:
  "(\<exists>ws. establish ops name address w = (Ok tls, ws, w')) \<longleftrightarrow>
     tls_attempt ops name address w (Some (Ok tls)) w' \<and> c_alpn ops tls = Some ALPN_PROTOCOL"
  by (auto simp: establish_def tls_attempt_def validate_alpn_def case_prod_unfold prod_eq_iff
      split: option.splits result.splits if_splits)

lemma establish_OkD:
  "establish ops name address w = (Ok tls, ws, w') \<Longrightarrow>
     tls_attempt ops name address w (Some (Ok tls)) w' \<and> c_alpn ops tls = Some ALPN_PROTOCOL"
  using establish_Ok_iff [of ops name address w tls w'] by simp

lemma establish_retry_iff:
  "(\<exists>ws. establish ops name address w = (Err True, ws, w')) \<longleftrightarrow>
     tcp_unreachable ops address w w' \<or> tls_attempt ops name address w None w' \<or>
     (\<exists>e. tls_attempt ops name address w (Some (Err e)) w' \<and> transient_tls_error e)"
  by (auto simp: establish_def tls_attempt_def tcp_unreachable_def validate_alpn_def
      case_prod_unfold prod_eq_iff split: option.splits result.splits if_splits)

lemma establish_reject_iff:
  "(\<exists>ws. establish ops name address w = (Err False, ws, w')) \<longleftrightarrow>
     (\<exists>e. tls_attempt ops name address w (Some (Err e)) w' \<and> \<not> transient_tls_error e) \<or>
     (\<exists>tls. tls_attempt ops name address w (Some (Ok tls)) w' \<and>
        c_alpn ops tls \<noteq> Some ALPN_PROTOCOL)"
  by (auto simp: establish_def tls_attempt_def validate_alpn_def case_prod_unfold prod_eq_iff
      split: option.splits result.splits if_splits)


subsection \<open>The rounds of a session\<close>

text \<open>
  A round that is followed by another one: an attempt fails with a transient error, the drawn
  delay fits in the window, and the pause ends by sleeping.  \<open>last_round\<close> is how a round can be
  the last one, with the session's end.
\<close>

inductive retry_round ::
  "('w, 'n, 'l, 'st, 'tls) client_ops \<Rightarrow> 'n \<Rightarrow> rstr \<Rightarrow> nat \<Rightarrow>
     reconnect_backoff \<times> 'w \<Rightarrow> reconnect_backoff \<times> 'w \<Rightarrow> bool"
  for ops name address started where
  retry: "c_now ops w - started < PRE_RELAY_RECONNECT_WINDOW \<Longrightarrow>
     establish ops name address w = (Err True, ws, w1) \<Longrightarrow>
     next_delay (c_u64_upto ops) b w1 = (delay, b', w2) \<Longrightarrow>
     c_now ops w2 - started + delay < PRE_RELAY_RECONNECT_WINDOW \<Longrightarrow>
     c_pause ops delay w2 = (Slept, w3) \<Longrightarrow>
     retry_round ops name address started (b, w) (b', w3)"

inductive_cases retry_roundE [elim]: "retry_round ops name address started x y"

fun last_round ::
  "('w, 'n, 'l, 'st, 'tls) client_ops \<Rightarrow> 'l \<Rightarrow> 'n \<Rightarrow> rstr \<Rightarrow> nat \<Rightarrow>
     reconnect_backoff \<times> 'w \<Rightarrow> client_end \<Rightarrow> 'w \<Rightarrow> bool" where
  "last_round ops sock name address started (b, w) ClientExhausted w' =
     ((PRE_RELAY_RECONNECT_WINDOW \<le> c_now ops w - started \<and> w' = w) \<or>
      (\<exists>ws w1 delay b'. c_now ops w - started < PRE_RELAY_RECONNECT_WINDOW \<and>
         establish ops name address w = (Err True, ws, w1) \<and>
         next_delay (c_u64_upto ops) b w1 = (delay, b', w') \<and>
         PRE_RELAY_RECONNECT_WINDOW \<le> c_now ops w' - started + delay))"
| "last_round ops sock name address started (b, w) ClientStopped w' =
     (\<exists>ws w1 delay b' w2 changed. c_now ops w - started < PRE_RELAY_RECONNECT_WINDOW \<and>
        establish ops name address w = (Err True, ws, w1) \<and>
        next_delay (c_u64_upto ops) b w1 = (delay, b', w2) \<and>
        c_now ops w2 - started + delay < PRE_RELAY_RECONNECT_WINDOW \<and>
        c_pause ops delay w2 = (ShutdownChanged changed, w'))"
| "last_round ops sock name address started (b, w) ClientRejected w' =
     (\<exists>ws. c_now ops w - started < PRE_RELAY_RECONNECT_WINDOW \<and>
        establish ops name address w = (Err False, ws, w'))"
| "last_round ops sock name address started (b, w) out w' =
     (c_now ops w - started < PRE_RELAY_RECONNECT_WINDOW \<and>
      (\<exists>remote ws w1 r. establish ops name address w = (Ok remote, ws, w1) \<and>
        relay (c_relay ops) sock remote w1 = Some (r, w') \<and> out = relay_end r))"

lemma window_le_saturating_iff:
  "PRE_RELAY_RECONNECT_WINDOW \<le> duration_saturating_add a b \<longleftrightarrow> PRE_RELAY_RECONNECT_WINDOW \<le> a + b"
  by (rule duration_saturating_add_ge_iff)
     (simp add: PRE_RELAY_RECONNECT_WINDOW_def from_secs_def duration_max_def)

lemma relay_end_last_round:
  "c_now ops w - started < PRE_RELAY_RECONNECT_WINDOW \<Longrightarrow>
   establish ops name address w = (Ok remote, ws, w1) \<Longrightarrow>
   relay (c_relay ops) sock remote w1 = Some (r, w') \<Longrightarrow>
     last_round ops sock name address started (b, w) (relay_end r) w'"
  by (auto simp: relay_end_def split: result.splits)

definition session_history ::
  "('w, 'n, 'l, 'st, 'tls) client_ops \<Rightarrow> 'l \<Rightarrow> 'n \<Rightarrow> rstr \<Rightarrow> nat \<Rightarrow>
     reconnect_backoff \<times> 'w \<Rightarrow> client_end \<Rightarrow> 'w \<Rightarrow> bool" where
  "session_history ops sock name address started x out w' \<longleftrightarrow>
     (\<exists>y. (retry_round ops name address started)\<^sup>*\<^sup>* x y \<and>
        last_round ops sock name address started y out w')"

lemma history_last:
  "last_round ops sock name address started x out w' \<Longrightarrow>
     session_history ops sock name address started x out w'"
  unfolding session_history_def by blast

lemma history_retry:
  "retry_round ops name address started x y \<Longrightarrow>
   session_history ops sock name address started y out w' \<Longrightarrow>
     session_history ops sock name address started x out w'"
  unfolding session_history_def by (meson converse_rtranclp_into_rtranclp)

lemma session_loop_history:
  assumes "session_loop ops sock name address started b log w = Some (log', out, w')"
  shows "session_history ops sock name address started (b, w) out w'"
proof -
  have "session_history ops sock name address started (b, w) (fst (snd y)) (snd (snd y))"
    if "session_loop ops sock name address started b log w = Some y" for y
  proof (rule session_loop.raw_induct [where P = "\<lambda>ops sock name address started b log w y.
        session_history ops sock name address started (b, w) (fst (snd y)) (snd (snd y))",
        OF _ that])
    fix f ops sock name address started b log w y
    assume IH: "\<And>ops sock name address started b log w y.
        f ops sock name address started b log w = Some y \<Longrightarrow>
        session_history ops sock name address started (b, w) (fst (snd y)) (snd (snd y))"
      and eq: "(if PRE_RELAY_RECONNECT_WINDOW \<le> c_now ops w - started
        then Some (log, ClientExhausted, w)
        else (case establish ops name address w of
           (Ok remote, ws, w1) \<Rightarrow>
             (case relay (c_relay ops) sock remote w1 of
                None \<Rightarrow> None
              | Some (r, w2) \<Rightarrow> Some (log @ ws, relay_end r, w2))
         | (Err retry, ws, w1) \<Rightarrow>
             if retry then
               (case next_delay (c_u64_upto ops) b w1 of (delay, backoff', w2) \<Rightarrow>
                  if PRE_RELAY_RECONNECT_WINDOW
                       \<le> duration_saturating_add (c_now ops w2 - started) delay
                  then Some (log @ ws, ClientExhausted, w2)
                  else
                    (case c_pause ops delay w2 of
                       (Slept, w3) \<Rightarrow>
                         f ops sock name address started backoff' (log @ ws) w3
                     | (ShutdownChanged _, w3) \<Rightarrow> Some (log @ ws, ClientStopped, w3)))
             else Some (log @ ws, ClientRejected, w1))) = Some y"
    show "session_history ops sock name address started (b, w) (fst (snd y)) (snd (snd y))"
    proof (cases "PRE_RELAY_RECONNECT_WINDOW \<le> c_now ops w - started")
      case True
      with eq show ?thesis by (auto intro: history_last)
    next
      case False
      obtain r ws w1 where e: "establish ops name address w = (r, ws, w1)"
        by (metis prod_cases3)
      show ?thesis
      proof (cases r)
        case (Ok remote)
        with eq e False show ?thesis
          by (auto split: option.splits intro!: history_last relay_end_last_round)
      next
        case (Err retry)
        obtain delay b' w2 where n: "next_delay (c_u64_upto ops) b w1 = (delay, b', w2)"
          by (metis prod_cases3)
        obtain p w3 where p: "c_pause ops delay w2 = (p, w3)" by fastforce
        have again: "retry_round ops name address started (b, w) (b', w3)"
          if "retry" "c_now ops w2 - started + delay < PRE_RELAY_RECONNECT_WINDOW" "p = Slept"
          using that e n p False Err by (auto intro: retry_round.retry)
        show ?thesis
        proof (cases "retry \<and> p = Slept \<and>
            c_now ops w2 - started + delay < PRE_RELAY_RECONNECT_WINDOW")
          case True
          with eq e n p False Err show ?thesis
            by (auto simp: window_le_saturating_iff intro: history_retry [OF again] dest: IH)
        next
          case stop: False
          with eq e n p False Err show ?thesis
            by (cases retry) (auto simp: window_le_saturating_iff not_le
                split: if_splits pause_end.splits intro!: history_last)
        qed
      qed
    qed
  qed
  from this [OF assms] show ?thesis by simp
qed


subsection \<open>How long it takes\<close>

text \<open>
  What the loop relies on to end: the monotonic clock never goes back, a connection attempt takes
  some time (a nanosecond is enough), and \<open>sleep\<close> lasts at least as long as it is asked to.
\<close>

locale client_clock =
  fixes ops :: "('w, 'n, 'l, 'st, 'tls) client_ops"
  assumes now_tcp_connect: "c_now ops w < c_now ops (snd (c_tcp_connect ops d address w))"
    and now_nodelay: "c_now ops w \<le> c_now ops (snd (c_set_nodelay ops st w))"
    and now_keepalive: "c_now ops w \<le> c_now ops (snd (c_set_keepalive ops st d w))"
    and now_tls_connect: "c_now ops w \<le> c_now ops (snd (c_tls_connect ops d name st w))"
    and now_u64_upto: "c_now ops w \<le> c_now ops (snd (c_u64_upto ops n w))"
    and now_pause: "c_pause ops d w = (Slept, w') \<Longrightarrow> c_now ops w + d \<le> c_now ops w'"
begin

lemma configure_now: "c_now ops w \<le> c_now ops (snd (client_configure_tcp ops st w))"
  using now_nodelay [of w st] now_keepalive [of _ st]
  by (auto simp: client_configure_tcp_def case_prod_unfold intro: order_trans)

lemma establish_now:
  assumes "establish ops name address w = (r, ws, w')"
  shows "c_now ops w < c_now ops w'"
proof -
  obtain t w1 where t: "c_tcp_connect ops TCP_CONNECT_TIMEOUT address w = (t, w1)" by fastforce
  have 1: "c_now ops w < c_now ops w1" using now_tcp_connect [of w _ address] t by (metis snd_conv)
  have 2: "c_now ops w1 \<le> c_now ops (snd (c_tls_connect ops CLIENT_TLS_HANDSHAKE_TIMEOUT name st
      (snd (client_configure_tcp ops st w1))))" for st
    using configure_now now_tls_connect by (rule order_trans)
  have "w' = w1 \<or> (\<exists>st. w' = snd (c_tls_connect ops CLIENT_TLS_HANDSHAKE_TIMEOUT name st
      (snd (client_configure_tcp ops st w1))))"
    using assms t by (auto simp: establish_def case_prod_unfold split: option.splits result.splits)
  with 1 2 show ?thesis by (metis le_trans less_le_trans order_refl)
qed

lemma next_delay_now: "next_delay (c_u64_upto ops) b w = (d, b', w') \<Longrightarrow> c_now ops w \<le> c_now ops w'"
  using now_u64_upto [of w] by (auto simp: next_delay_def next_delay_with_eq split: prod.splits)
    (metis snd_conv)

lemma session_loop_returns:
  assumes "\<And>remote w. \<exists>y. relay (c_relay ops) sock remote w = Some y"
  shows "\<exists>y. session_loop ops sock name address started b log w = Some y"
proof (induction "started + PRE_RELAY_RECONNECT_WINDOW - c_now ops w" arbitrary: b log w
    rule: less_induct)
  case less
  show ?case
  proof (cases "PRE_RELAY_RECONNECT_WINDOW \<le> c_now ops w - started")
    case True
    then show ?thesis by (subst session_loop.simps) simp
  next
    case False
    obtain r ws w1 where e: "establish ops name address w = (r, ws, w1)" by (metis prod_cases3)
    obtain d b' w2 where n: "next_delay (c_u64_upto ops) b w1 = (d, b', w2)"
      by (metis prod_cases3)
    obtain p w3 where p: "c_pause ops d w2 = (p, w3)" by fastforce
    have again: "\<exists>y. session_loop ops sock name address started b' (log @ ws) w3 = Some y"
      if "p = Slept"
    proof (rule less)
      have "c_now ops w < c_now ops w3"
        using establish_now [OF e] next_delay_now [OF n] now_pause [of d w2 w3] p that by simp
      then show "started + PRE_RELAY_RECONNECT_WINDOW - c_now ops w3
          < started + PRE_RELAY_RECONNECT_WINDOW - c_now ops w"
        using False by simp
    qed
    have "relay (c_relay ops) sock remote w1 \<noteq> None" for remote
      using assms [of remote w1] by auto
    with e n p again False show ?thesis
      by (subst session_loop.simps) (auto simp del: not_None_eq split: result.splits option.splits pause_end.splits)
  qed
qed

lemma relay_session_returns:
  "(\<And>remote w. \<exists>y. relay (c_relay ops) sock remote w = Some y) \<Longrightarrow>
     \<exists>y. relay_session ops sock name address w = Some y"
  unfolding relay_session_def by (rule session_loop_returns)

end

text \<open>Upper bounds: no operation lasts more than \<open>slack\<close> beyond what it was asked to.\<close>

locale client_clock_bounded = client_clock ops
  for ops :: "('w, 'n, 'l, 'st, 'tls) client_ops" +
  fixes slack :: nat
  assumes tcp_connect_le:
      "c_now ops (snd (c_tcp_connect ops d address w)) \<le> c_now ops w + d + slack"
    and nodelay_le: "c_now ops (snd (c_set_nodelay ops st w)) \<le> c_now ops w + slack"
    and keepalive_le: "c_now ops (snd (c_set_keepalive ops st d w)) \<le> c_now ops w + slack"
    and tls_connect_le:
      "c_now ops (snd (c_tls_connect ops d name st w)) \<le> c_now ops w + d + slack"
    and u64_upto_le: "c_now ops (snd (c_u64_upto ops n w)) \<le> c_now ops w + slack"
    and pause_le: "c_now ops (snd (c_pause ops d w)) \<le> c_now ops w + d + slack"
begin

lemma configure_le: "c_now ops (snd (client_configure_tcp ops st w)) \<le> c_now ops w + 2 * slack"
  using keepalive_le [of st "from_secs 30" "snd (c_set_nodelay ops st w)"] nodelay_le [of st w]
  by (simp add: client_configure_tcp_def case_prod_unfold)

lemma establish_le:
  assumes "establish ops name address w = (r, ws, w')"
  shows "c_now ops w' \<le> c_now ops w + from_secs 15 + 4 * slack"
proof -
  obtain t w1 where t: "c_tcp_connect ops TCP_CONNECT_TIMEOUT address w = (t, w1)" by fastforce
  have 1: "c_now ops w1 \<le> c_now ops w + from_secs 5 + slack"
    using tcp_connect_le [of TCP_CONNECT_TIMEOUT address w] t by (simp add: TCP_CONNECT_TIMEOUT_def)
  have 2: "c_now ops (snd (c_tls_connect ops CLIENT_TLS_HANDSHAKE_TIMEOUT name st
      (snd (client_configure_tcp ops st w1)))) \<le> c_now ops w1 + from_secs 10 + 3 * slack" for st
    using configure_le [of st w1] tls_connect_le [of CLIENT_TLS_HANDSHAKE_TIMEOUT name st
        "snd (client_configure_tcp ops st w1)"]
    by (simp add: CLIENT_TLS_HANDSHAKE_TIMEOUT_def)
  have "w' = w1 \<or> (\<exists>st. w' = snd (c_tls_connect ops CLIENT_TLS_HANDSHAKE_TIMEOUT name st
      (snd (client_configure_tcp ops st w1))))"
    using assms t by (auto simp: establish_def case_prod_unfold split: option.splits result.splits)
  then show ?thesis
  proof (elim disjE exE)
    fix st
    assume "w' = snd (c_tls_connect ops CLIENT_TLS_HANDSHAKE_TIMEOUT name st
      (snd (client_configure_tcp ops st w1)))"
    with 1 2 [of st] show ?thesis by (simp add: from_secs_def)
  qed (use 1 in \<open>simp add: from_secs_def\<close>)
qed

lemma next_delay_le:
  "next_delay (c_u64_upto ops) b w = (d, b', w') \<Longrightarrow> c_now ops w' \<le> c_now ops w + slack"
  using u64_upto_le by (auto simp: next_delay_def next_delay_with_eq split: prod.splits)
    (metis snd_conv)

lemma pause_now_le: "c_pause ops d w = (p, w') \<Longrightarrow> c_now ops w' \<le> c_now ops w + d + slack"
  using pause_le [of d w] by simp

lemma retry_rounds_le:
  "(retry_round ops name address started)\<^sup>*\<^sup>* (b, w) (b', w') \<Longrightarrow>
     c_now ops w' \<le> max (c_now ops w) (started + PRE_RELAY_RECONNECT_WINDOW + slack)"
proof (induction rule: rtranclp_induct2)
  case refl
  then show ?case by simp
next
  case (step b1 w1 b2 w2)
  from step(2) have "c_now ops w2 \<le> started + PRE_RELAY_RECONNECT_WINDOW + slack"
    by (fastforce dest!: pause_now_le)
  then show ?case by simp
qed

lemma last_round_le:
  assumes "last_round ops sock name address started (b, w) out w'"
    and "c_now ops w \<le> started + PRE_RELAY_RECONNECT_WINDOW + slack"
  shows "\<exists>w1. c_now ops w1 \<le> started + from_secs 75 + 5 * slack \<and>
     (w1 = w' \<or> (\<exists>remote r. relay (c_relay ops) sock remote w1 = Some (r, w') \<and> out = relay_end r))"
proof -
  have est: "c_now ops w1 \<le> started + from_secs 75 + 4 * slack"
    if "establish ops name address w = (r, ws, w1)"
      "c_now ops w - started < PRE_RELAY_RECONNECT_WINDOW" for r ws w1
    using establish_le [OF that(1)] that(2)
    by (simp add: PRE_RELAY_RECONNECT_WINDOW_def from_secs_def)
  consider (relayed) remote ws w1 r where "c_now ops w - started < PRE_RELAY_RECONNECT_WINDOW"
      "establish ops name address w = (Ok remote, ws, w1)"
      "relay (c_relay ops) sock remote w1 = Some (r, w')" "out = relay_end r"
    | (ended) "c_now ops w' \<le> started + from_secs 75 + 5 * slack"
  proof (cases out)
    case ClientExhausted
    with assms that(2) show ?thesis
      by (force simp: PRE_RELAY_RECONNECT_WINDOW_def from_secs_def dest!: est next_delay_le)
  next
    case ClientStopped
    with assms that(2) show ?thesis
      by (force simp: PRE_RELAY_RECONNECT_WINDOW_def from_secs_def dest!: pause_now_le)
  next
    case ClientRejected
    with assms that(2) show ?thesis by (force dest!: est)
  qed (use assms that(1) in auto)
  then show ?thesis
  proof cases
    case relayed
    from est [OF relayed(2,1)] have "c_now ops w1 \<le> started + from_secs 75 + 5 * slack" by simp
    with relayed show ?thesis by blast
  qed blast
qed

lemma history_le:
  assumes "session_history ops sock name address (c_now ops w) (b, w) out w'"
  shows "\<exists>w1. c_now ops w1 \<le> c_now ops w + from_secs 75 + 5 * slack \<and>
     (w1 = w' \<or> (\<exists>remote r. relay (c_relay ops) sock remote w1 = Some (r, w') \<and> out = relay_end r))"
proof -
  from assms obtain b1 w1 where
      rounds: "(retry_round ops name address (c_now ops w))\<^sup>*\<^sup>* (b, w) (b1, w1)"
    and last: "last_round ops sock name address (c_now ops w) (b1, w1) out w'"
    unfolding session_history_def by auto
  from retry_rounds_le [OF rounds] show ?thesis
    by (intro last_round_le [OF last]) simp
qed

end


subsection \<open>A simulated network\<close>

text \<open>
  A clock, a generator, a server that accepts connections as a function of the time, a handshake
  with a given negotiated protocol, and a relay that copies some bytes and ends.
\<close>

record sim_net =
  sn_clock :: nat
  sn_rng :: u64

definition net_ops ::
  "(nat \<Rightarrow> bool) \<Rightarrow> u8 list option \<Rightarrow> (sim_net, unit, unit, unit, unit) client_ops" where
  "net_ops up alpn =
     \<lparr>c_tcp_connect = (\<lambda>d address w. (Some (if up (sn_clock w) then Ok ()
          else Err (io_error_new ConnectionRefused [])), w\<lparr>sn_clock := sn_clock w + 1000000\<rparr>)),
      c_set_nodelay = (\<lambda>st w. (Ok (), w)),
      c_set_keepalive = (\<lambda>st d w. (Ok (), w)),
      c_tls_connect = (\<lambda>d name st w. (Some (Ok ()), w)),
      c_alpn = (\<lambda>tls. alpn),
      c_relay = (\<lambda>l tls w. (True, Some (Ok (7, 5)), None, w)),
      c_now = sn_clock,
      c_u64_upto = (\<lambda>n w. case lcg_upto n (sn_rng w) of (x, g) \<Rightarrow> (x, w\<lparr>sn_rng := g\<rparr>)),
      c_pause = (\<lambda>d w. (Slept, w\<lparr>sn_clock := sn_clock w + d\<rparr>))\<rparr>"

lemma net_now [simp]: "c_now (net_ops up alpn) = sn_clock"
  by (simp add: net_ops_def)

interpretation net: client_clock_bounded "net_ops up alpn" 1000000 for up alpn
  by unfold_locales (auto simp: net_ops_def split: prod.splits)

lemma net_relay: "relay (c_relay (net_ops up alpn)) sock remote w =
    Some (Ok \<lparr>left_to_right = 7, right_to_left = 5\<rparr>, w)"
  by (subst relay.simps) (simp add: net_ops_def relay_poll_def)

lemma net_establish_up:
  "establish (net_ops (\<lambda>t. True) (Some ALPN_PROTOCOL)) () a w =
     (Ok (), [], w\<lparr>sn_clock := sn_clock w + 1000000\<rparr>)"
  by (simp add: establish_def net_ops_def client_configure_tcp_def validate_alpn_def)

lemma net_session_up:
  "relay_session (net_ops (\<lambda>t. True) (Some ALPN_PROTOCOL)) () () a \<lparr>sn_clock = 3, sn_rng = g\<rparr> =
     Some ([], ClientCompleted \<lparr>left_to_right = 7, right_to_left = 5\<rparr>,
       \<lparr>sn_clock = 1000003, sn_rng = g\<rparr>)"
  unfolding relay_session_def
  by (subst session_loop.simps)
     (simp add: PRE_RELAY_RECONNECT_WINDOW_def from_secs_def net_relay relay_end_def
       net_establish_up)


subsection \<open>Properties\<close>

text \<open>C16: what one attempt can give.  It succeeds exactly when the TLS handshake did and negotiated
  the bridge's protocol; it asks for another try exactly when the TCP connection failed, or the
  handshake timed out or broke with one of the five transient kinds; and it is final exactly when
  the handshake failed in any other way or the protocol is a different one.  So a rejected
  certificate is never retried.\<close>

theorem establish_decides:
  "((\<exists>ws. establish ops name address w = (Ok tls, ws, w')) \<longleftrightarrow>
      tls_attempt ops name address w (Some (Ok tls)) w' \<and> c_alpn ops tls = Some ALPN_PROTOCOL) \<and>
   ((\<exists>ws. establish ops name address w = (Err True, ws, w')) \<longleftrightarrow>
      tcp_unreachable ops address w w' \<or> tls_attempt ops name address w None w' \<or>
      (\<exists>e. tls_attempt ops name address w (Some (Err e)) w' \<and>
         io_kind e \<in> {ConnectionAborted, ConnectionReset, TimedOut, UnexpectedEof, BrokenPipe})) \<and>
   ((\<exists>ws. establish ops name address w = (Err False, ws, w')) \<longleftrightarrow>
      (\<exists>e. tls_attempt ops name address w (Some (Err e)) w' \<and>
         io_kind e \<notin> {ConnectionAborted, ConnectionReset, TimedOut, UnexpectedEof, BrokenPipe}) \<or>
      (\<exists>tls'. tls_attempt ops name address w (Some (Ok tls')) w' \<and>
         c_alpn ops tls' \<noteq> Some ALPN_PROTOCOL))"
  using establish_Ok_iff [of ops name address w tls w'] establish_retry_iff [of ops name address w w']
    establish_reject_iff [of ops name address w w'] transient_tls_error_iff
  by simp

text \<open>C2: nothing is replayed.  Every session is a sequence of rounds that failed before the relay
  with a transient error, within the window and with room for their pause, and one last round.
  A relay is run in the last round only, and the session ends in the very world in which it ended,
  whatever its result: after a byte may have been copied there is no further connection.\<close>

theorem relay_only_in_last_round:
  assumes "relay_session ops sock name address w = Some (log, out, w')"
  shows "\<exists>b1 w1. (retry_round ops name address (c_now ops w))\<^sup>*\<^sup>* (backoff_new, w) (b1, w1) \<and>
     last_round ops sock name address (c_now ops w) (b1, w1) out w'"
  using session_loop_history [OF assms [unfolded relay_session_def]]
  by (simp add: session_history_def)

theorem relay_only_in_last_round_witness:
  "\<exists>b1 w1. last_round (net_ops (\<lambda>t. True) (Some ALPN_PROTOCOL)) () () (lit ''host:1'') 3 (b1, w1)
     (ClientCompleted \<lparr>left_to_right = 7, right_to_left = 5\<rparr>) \<lparr>sn_clock = 1000003, sn_rng = 9\<rparr>"
  using relay_only_in_last_round [OF net_session_up, of "lit ''host:1''" 9] by (simp del: last_round.simps) blast

text \<open>C17: a session ends.  With a clock that never goes back and on which every connection attempt
  takes some time, a session whose relay ends has an end itself, however long the server stays
  away and whatever delays are drawn, zero included.\<close>

theorem client_session_ends:
  assumes "client_clock ops"
    and "\<And>remote w. \<exists>y. relay (c_relay ops) sock remote w = Some y"
  shows "\<exists>log out w'. relay_session ops sock name address w = Some (log, out, w')"
  using client_clock.relay_session_returns [OF assms] by (metis prod_cases3)

theorem client_session_ends_witness:
  "\<exists>log out w'. relay_session (net_ops (\<lambda>t. False) None) () () (lit ''host:1'')
     \<lparr>sn_clock = 3, sn_rng = 9\<rparr> = Some (log, out, w')"
  by (rule client_session_ends [OF net.client_clock_axioms]) (simp add: net_relay)

text \<open>C18: how late a session gives up.  If no operation lasts more than \<open>slack\<close> beyond its timeout,
  then within the window of sixty seconds plus one attempt of fifteen, and five such slacks, the
  session has ended or its one relay is running.\<close>

theorem client_gives_up_in_time:
  assumes "client_clock_bounded ops slack"
    and "relay_session ops sock name address w = Some (log, out, w')"
  shows "\<exists>w1. c_now ops w1 \<le> c_now ops w + from_secs 75 + 5 * slack \<and>
     (w1 = w' \<or> (\<exists>remote r. relay (c_relay ops) sock remote w1 = Some (r, w') \<and> out = relay_end r))"
  using client_clock_bounded.history_le [OF assms(1)
    session_loop_history [OF assms(2) [unfolded relay_session_def]]] .

theorem client_gives_up_in_time_witness:
  "\<exists>log out w' w1. relay_session (net_ops (\<lambda>t. False) None) () () (lit ''host:1'')
       \<lparr>sn_clock = 3, sn_rng = 9\<rparr> = Some (log, out, w') \<and>
     sn_clock w1 \<le> 3 + from_secs 75 + 5000000 \<and>
     (w1 = w' \<or> out = ClientCompleted \<lparr>left_to_right = 7, right_to_left = 5\<rparr>)"
proof -
  let ?ops = "net_ops (\<lambda>t. False) None"
  let ?w = "\<lparr>sn_clock = 3, sn_rng = 9\<rparr>"
  have "\<exists>y. relay_session ?ops () () (lit ''host:1'') ?w = Some y"
    by (rule net.relay_session_returns) (simp add: net_relay)
  then obtain log out w' where run: "relay_session ?ops () () (lit ''host:1'') ?w = Some (log, out, w')"
    by (metis prod_cases3)
  from client_gives_up_in_time [OF net.client_clock_bounded_axioms run]
  obtain w1 where "sn_clock w1 \<le> 3 + from_secs 75 + 5000000"
    and "w1 = w' \<or> out = ClientCompleted \<lparr>left_to_right = 7, right_to_left = 5\<rparr>"
    by (auto simp: net_relay relay_end_def)
  with run show ?thesis by blast
qed

end
