(* ===== verification/Unix_Socket.thy ===== *)
theory Unix_Socket
  imports Bridge_Prelude "HOL-Library.Sublist"
begin

section \<open>The owned Unix listener (src/unix_socket.rs)\<close>

text \<open>
  Binding an owner-only socket over a stale one, restoring an unlinked one, and removing it when
  the listener is dropped.  The file system is a parameter; the locale \<open>socket_namespace\<close> states
  what it promises while no other process acts, and \<open>sim_fs\<close> is a file system that keeps it.
  \<open>interfered\<close> lets other processes act before every call, and records the calls.
\<close>

subsection \<open>Paths and files\<close>

text \<open>
  \<open>Path::parent\<close> on the bytes of a Unix path: the last component is dropped, trailing
  separators and dots do not count, and the root and the empty path have no parent.  \<open>trim_back\<close>
  works on the reversed path.
\<close>

fun trim_back :: "string \<Rightarrow> string" where
  "trim_back (c # d # r) =
     (if c = CHR ''/'' then trim_back (d # r)
      else if c = CHR ''.'' \<and> d = CHR ''/'' then trim_back (d # r)
      else c # d # r)"
| "trim_back r = r"

definition path_parent :: "path \<Rightarrow> path option" where
  "path_parent p =
     (let r = trim_back (rev p)
      in if r = [] \<or> r = ''/'' then None
         else Some (rev (trim_back (dropWhile (\<lambda>c. c \<noteq> CHR ''/'') r))))"

record file_stat =
  st_is_socket :: bool
  st_mode :: u32
  st_dev :: u64
  st_ino :: u64

text \<open>
  The calls into the operating system: \<open>is_dir\<close>, \<open>symlink_metadata\<close>, \<open>remove_file\<close>,
  \<open>set_permissions\<close>, \<open>UnixListener::bind\<close>, \<open>UnixStream::connect\<close> (the stream is dropped
  at once), and closing a listener when its value is dropped.
\<close>

record ('w, 'lis) socket_ops =
  u_is_dir :: "path \<Rightarrow> 'w \<Rightarrow> bool \<times> 'w"
  u_symlink_metadata :: "path \<Rightarrow> ('w, file_stat, io_error) io"
  u_remove_file :: "path \<Rightarrow> ('w, unit, io_error) io"
  u_set_mode :: "path \<Rightarrow> u32 \<Rightarrow> ('w, unit, io_error) io"
  u_bind :: "path \<Rightarrow> ('w, 'lis, io_error) io"
  u_connect :: "path \<Rightarrow> ('w, unit, io_error) io"
  u_close :: "'lis \<Rightarrow> 'w \<Rightarrow> 'w"

subsection \<open>The listener\<close>

record 'lis owned_unix_listener =
  ul_listener :: 'lis
  ul_path :: path
  ul_device :: u64
  ul_inode :: u64

definition is_stale_socket_error :: "io_error \<Rightarrow> bool" where
  "is_stale_socket_error e \<longleftrightarrow>
     (case io_kind e of ConnectionRefused \<Rightarrow> True | NotFound \<Rightarrow> True | _ \<Rightarrow> False)"

definition remove_stale_socket :: "('w, 'lis) socket_ops \<Rightarrow> path \<Rightarrow> ('w, unit, io_error) io" where
  "remove_stale_socket ops p w =
     (case u_symlink_metadata ops p w of
        (Ok metadata, w1) \<Rightarrow>
          if st_is_socket metadata then
            (case u_connect ops p w1 of
               (Ok _, w2) \<Rightarrow>
                 (Err (io_error_new AddrInUse (lit ''Unix socket is owned by an active process'')), w2)
             | (Err e, w2) \<Rightarrow>
                 if is_stale_socket_error e then
                   bind_io (u_symlink_metadata ops p) (\<lambda>current.
                     if \<not> st_is_socket current \<or> st_dev current \<noteq> st_dev metadata
                       \<or> st_ino current \<noteq> st_ino metadata
                     then return_io (Err (io_error_other
                       (lit ''Unix socket changed while checking ownership'')))
                     else u_remove_file ops p) w2
                 else (Err (io_error_new (io_kind e)
                   (lit ''could not verify existing Unix socket ownership: '' @ io_message e)), w2))
          else (Err (io_error_new AlreadyExists
            (lit ''refusing to replace a non-socket Unix path'')), w1)
      | (Err e, w1) \<Rightarrow> if io_kind e = NotFound then (Ok (), w1) else (Err e, w1))"

text \<open>A listener that was bound is closed again when a later step fails.\<close>

definition bind_new ::
  "('w, 'lis) socket_ops \<Rightarrow> path \<Rightarrow> ('w, 'lis owned_unix_listener, io_error) io" where
  "bind_new ops p w =
     (case u_bind ops p w of
        (Err e, w1) \<Rightarrow> (Err e, w1)
      | (Ok listener, w1) \<Rightarrow>
          (case bind_io (u_set_mode ops p 0x180) (\<lambda>_.
                bind_io (u_symlink_metadata ops p) (\<lambda>metadata.
                return_io (if st_mode metadata AND 0x1FF \<noteq> 0x180
                  then Err (io_error_new PermissionDenied
                    (lit ''Unix socket did not receive mode 0600''))
                  else Ok metadata))) w1 of
             (Ok metadata, w2) \<Rightarrow>
               (Ok \<lparr>ul_listener = listener, ul_path = p,
                    ul_device = st_dev metadata, ul_inode = st_ino metadata\<rparr>, w2)
           | (Err e, w2) \<Rightarrow> (Err e, u_close ops listener w2)))"

definition bind_socket ::
  "('w, 'lis) socket_ops \<Rightarrow> path \<Rightarrow> ('w, 'lis owned_unix_listener, io_error) io" where
  "bind_socket ops p w =
     (case path_parent p of
        None \<Rightarrow> (Err (io_error_new InvalidInput (lit ''Unix socket path has no parent'')), w)
      | Some parent \<Rightarrow>
          (case u_is_dir ops parent w of
             (False, w1) \<Rightarrow>
               (Err (io_error_new NotFound
                 (lit ''Unix socket parent directory does not exist'')), w1)
           | (True, w1) \<Rightarrow> bind_io (remove_stale_socket ops p) (\<lambda>_. bind_new ops p) w1))"

definition owns :: "'lis owned_unix_listener \<Rightarrow> file_stat \<Rightarrow> bool" where
  "owns l metadata \<longleftrightarrow>
     st_is_socket metadata \<and> st_dev metadata = ul_device l \<and> st_ino metadata = ul_inode l"

text \<open>Dropping the value: the \<open>Drop\<close> implementation, then the drop of the listener itself.\<close>

definition drop_listener ::
  "('w, 'lis) socket_ops \<Rightarrow> 'lis owned_unix_listener \<Rightarrow> 'w \<Rightarrow> 'w" where
  "drop_listener ops l w =
     u_close ops (ul_listener l)
       (case u_symlink_metadata ops (ul_path l) w of
          (Ok metadata, w1) \<Rightarrow>
            if owns l metadata then snd (u_remove_file ops (ul_path l) w1) else w1
        | (Err _, w1) \<Rightarrow> w1)"

text \<open>The assignment drops the old value when the replacement has been made.\<close>

definition verify_or_rebind ::
  "('w, 'lis) socket_ops \<Rightarrow> 'lis owned_unix_listener \<Rightarrow> 'w \<Rightarrow>
     (unit, io_error) result \<times> 'lis owned_unix_listener \<times> 'w" where
  "verify_or_rebind ops self w =
     (case u_symlink_metadata ops (ul_path self) w of
        (Ok metadata, w1) \<Rightarrow>
          if owns self metadata then (Ok (), self, w1)
          else (Err (io_error_new AddrInUse
            (lit ''Unix socket path was replaced by another owner'')), self, w1)
      | (Err e, w1) \<Rightarrow>
          if io_kind e = NotFound then
            (case bind_new ops (ul_path self) w1 of
               (Ok replacement, w2) \<Rightarrow> (Ok (), replacement, drop_listener ops self w2)
             | (Err e', w2) \<Rightarrow> (Err e', self, w2))
          else (Err e, self, w1))"

lemma is_stale_socket_error_iff:
  "is_stale_socket_error e \<longleftrightarrow> io_kind e \<in> {ConnectionRefused, NotFound}"
  by (cases "io_kind e") (simp_all add: is_stale_socket_error_def)


subsection \<open>What the operating system promises\<close>

definition identity :: "file_stat \<Rightarrow> u64 \<times> u64" where
  "identity st = (st_dev st, st_ino st)"

definition ul_identity :: "'lis owned_unix_listener \<Rightarrow> u64 \<times> u64" where
  "ul_identity l = (ul_device l, ul_inode l)"

lemma owns_iff: "owns l st \<longleftrightarrow> st_is_socket st \<and> identity st = ul_identity l"
  by (auto simp: owns_def identity_def ul_identity_def)

text \<open>
  A socket at the path that nobody listens on, and a path that names the open listener's own
  socket with mode \<open>0600\<close>, in a namespace with the given live sockets.
\<close>

definition stale_at ::
  "(path \<Rightarrow> file_stat option) \<Rightarrow> (u64 \<times> u64 \<Rightarrow> bool) \<Rightarrow> path \<Rightarrow> bool" where
  "stale_at nodes lives p \<longleftrightarrow>
     (case nodes p of Some st \<Rightarrow> st_is_socket st \<and> \<not> lives (identity st) | None \<Rightarrow> False)"

definition owned_in ::
  "(path \<Rightarrow> file_stat option) \<Rightarrow> (u64 \<times> u64 \<Rightarrow> bool) \<Rightarrow> ('lis \<Rightarrow> u64 \<times> u64) \<Rightarrow>
     'lis owned_unix_listener \<Rightarrow> bool" where
  "owned_in nodes lives listener_id l \<longleftrightarrow>
     lives (ul_identity l) \<and> listener_id (ul_listener l) = ul_identity l \<and>
     (case nodes (ul_path l) of
        Some st \<Rightarrow> owns l st \<and> st_mode st AND 0x1FF = 0x180
      | None \<Rightarrow> False)"

text \<open>
  \<open>node\<close> is what a path names, \<open>live\<close> holds of the identities of sockets that an open listener
  is bound to, and \<open>listener_id\<close> is the identity a listener was bound to.  Calls that only look,
  and calls that fail, change nothing; a refused connection means that nobody listens; the inode
  of an open listener is not used again.
\<close>

locale socket_namespace =
  fixes ops :: "('w, 'lis) socket_ops"
    and node :: "'w \<Rightarrow> path \<Rightarrow> file_stat option"
    and live :: "'w \<Rightarrow> u64 \<times> u64 \<Rightarrow> bool"
    and listener_id :: "'lis \<Rightarrow> u64 \<times> u64"
  assumes is_dir_same: "u_is_dir ops p w = (b, w') \<Longrightarrow> node w' = node w \<and> live w' = live w"
    and stat_same: "u_symlink_metadata ops p w = (r, w') \<Longrightarrow> node w' = node w \<and> live w' = live w"
    and stat_Ok: "u_symlink_metadata ops p w = (Ok st, w') \<Longrightarrow> node w p = Some st"
    and stat_NotFound:
      "u_symlink_metadata ops p w = (Err e, w') \<Longrightarrow> io_kind e = NotFound \<Longrightarrow> node w p = None"
    and connect_same: "u_connect ops p w = (c, w') \<Longrightarrow> node w' = node w \<and> live w' = live w"
    and connect_refused: "u_connect ops p w = (Err e, w') \<Longrightarrow> is_stale_socket_error e \<Longrightarrow>
      node w p = Some st \<Longrightarrow> st_is_socket st \<Longrightarrow> \<not> live w (identity st)"
    and remove_Ok: "u_remove_file ops p w = (Ok u, w') \<Longrightarrow>
      node w' = (node w)(p := None) \<and> live w' = live w"
    and remove_Err: "u_remove_file ops p w = (Err e, w') \<Longrightarrow> node w' = node w \<and> live w' = live w"
    and bind_Ok: "u_bind ops p w = (Ok lis, w') \<Longrightarrow> node w p = None \<and>
      (\<exists>st. node w' = (node w)(p \<mapsto> st) \<and> st_is_socket st \<and> \<not> live w (identity st) \<and>
         live w' = (live w)(identity st := True) \<and> listener_id lis = identity st)"
    and bind_Err: "u_bind ops p w = (Err e, w') \<Longrightarrow> node w' = node w \<and> live w' = live w"
    and set_mode_Ok: "u_set_mode ops p m w = (Ok u, w') \<Longrightarrow> node w p = Some st \<Longrightarrow>
      st_is_socket st \<Longrightarrow> (\<exists>m'. node w' = (node w)(p \<mapsto> st\<lparr>st_mode := m'\<rparr>)) \<and> live w' = live w"
    and set_mode_Err: "u_set_mode ops p m w = (Err e, w') \<Longrightarrow> node w' = node w \<and> live w' = live w"
    and close_same: "node (u_close ops lis w) = node w"
    and close_live: "live (u_close ops lis w) = (live w)(listener_id lis := False)"
begin

abbreviation stale :: "'w \<Rightarrow> path \<Rightarrow> bool" where
  "stale w p \<equiv> stale_at (node w) (live w) p"

abbreviation owned :: "'lis owned_unix_listener \<Rightarrow> 'w \<Rightarrow> bool" where
  "owned l w \<equiv> owned_in (node w) (live w) listener_id l"

lemma remove_stale_socket_cases:
  assumes "remove_stale_socket ops p w = (r, w')"
  shows "live w' = live w \<and>
    (node w' = node w \<or> (stale w p \<and> r = Ok () \<and> node w' = (node w)(p := None))) \<and>
    (r = Ok () \<longrightarrow> node w' p = None)"
proof -
  obtain s w1 where st: "u_symlink_metadata ops p w = (s, w1)" by fastforce
  note same1 = stat_same [OF st]
  show ?thesis
  proof (cases s)
    case (Err e)
    with assms st same1 show ?thesis
      by (auto simp: remove_stale_socket_def dest: stat_NotFound split: if_splits)
  next
    case (Ok metadata)
    note here = stat_Ok [OF st [unfolded Ok]]
    obtain c w2 where c: "u_connect ops p w1 = (c, w2)" by fastforce
    note same2 = connect_same [OF c]
    show ?thesis
    proof (cases "st_is_socket metadata \<and> (\<exists>e. c = Err e \<and> is_stale_socket_error e)")
      case False
      with assms st c Ok same1 same2 show ?thesis
        by (auto simp: remove_stale_socket_def split: if_splits result.splits)
    next
      case True
      then obtain e where e: "c = Err e" "is_stale_socket_error e" and sock: "st_is_socket metadata"
        by blast
      have "stale w p"
        using connect_refused [OF c [unfolded e(1)] e(2), of metadata] here sock same1
        by (auto simp: stale_at_def)
      obtain s2 w3 where st2: "u_symlink_metadata ops p w2 = (s2, w3)" by fastforce
      note same3 = stat_same [OF st2]
      from assms st c Ok e sock st2 consider (changed) "w' = w3" "r \<noteq> Ok ()"
        | (removed) "u_remove_file ops p w3 = (r, w')"
        by (cases s2) (auto simp: remove_stale_socket_def io_simps split: if_splits)
      then show ?thesis
      proof cases
        case changed
        with same1 same2 same3 show ?thesis by simp
      next
        case removed
        with \<open>stale w p\<close> same1 same2 same3 show ?thesis
          by (cases r) (auto dest: remove_Ok remove_Err)
      qed
    qed
  qed
qed

lemma bind_new_Ok:
  assumes "bind_new ops p w = (Ok l, w')"
  shows "node w p = None \<and> (\<forall>q. q \<noteq> p \<longrightarrow> node w' q = node w q) \<and> ul_path l = p \<and> owned l w' \<and>
    \<not> live w (ul_identity l) \<and> live w' = (live w)(ul_identity l := True)"
proof -
  from assms obtain lis w1 u w2 metadata where
      b: "u_bind ops p w = (Ok lis, w1)" and m: "u_set_mode ops p 0x180 w1 = (Ok u, w2)"
    and s: "u_symlink_metadata ops p w2 = (Ok metadata, w')"
    and mode: "st_mode metadata AND 0x1FF = 0x180"
    and l: "l = \<lparr>ul_listener = lis, ul_path = p, ul_device = st_dev metadata,
      ul_inode = st_ino metadata\<rparr>"
    by (auto simp: bind_new_def io_splits split: prod.splits result.splits if_splits)
  from bind_Ok [OF b] obtain st where st: "node w p = None" "node w1 = (node w)(p \<mapsto> st)"
      "st_is_socket st" "\<not> live w (identity st)" "live w1 = (live w)(identity st := True)"
      "listener_id lis = identity st"
    by blast
  from set_mode_Ok [OF m, of st] st obtain m' where
      n2: "node w2 = (node w)(p \<mapsto> st\<lparr>st_mode := m'\<rparr>)" "live w2 = live w1"
    by auto
  have md: "metadata = st\<lparr>st_mode := m'\<rparr>" using stat_Ok [OF s] n2 by simp
  then have id: "ul_identity l = identity st" by (simp add: l ul_identity_def identity_def)
  from stat_same [OF s] n2 st md mode id show ?thesis
    by (auto simp: owned_in_def owns_iff l identity_def)
qed

lemma bind_new_Err:
  assumes "bind_new ops p w = (Err e, w')"
  shows "(\<forall>q. q \<noteq> p \<longrightarrow> node w' q = node w q) \<and>
    (node w' p = node w p \<or> (node w p = None \<and> stale w' p)) \<and> live w' = live w"
proof -
  consider (unbound) "u_bind ops p w = (Err e, w')"
    | (bound) lis w1 where "u_bind ops p w = (Ok lis, w1)"
    using assms by (cases "fst (u_bind ops p w)")
      (auto simp: bind_new_def prod_eq_iff split: prod.splits result.splits)
  then show ?thesis
  proof cases
    case unbound
    then show ?thesis by (auto dest: bind_Err)
  next
    case bound
    from bind_Ok [OF this] obtain st where st: "node w p = None" "node w1 = (node w)(p \<mapsto> st)"
        "st_is_socket st" "\<not> live w (identity st)" "live w1 = (live w)(identity st := True)"
        "listener_id lis = identity st"
      by blast
    obtain m w2 where m: "u_set_mode ops p 0x180 w1 = (m, w2)" by fastforce
    have n2: "(\<exists>m'. node w2 = (node w)(p \<mapsto> st\<lparr>st_mode := m'\<rparr>)) \<and> live w2 = live w1"
    proof (cases m)
      case (Ok u)
      with set_mode_Ok [of p "0x180" w1 u w2 st] m st show ?thesis by auto
    next
      case (Err e')
      have "st = st\<lparr>st_mode := st_mode st\<rparr>" by simp
      with set_mode_Err [of p "0x180" w1 e' w2] Err m st show ?thesis by metis
    qed
    obtain s w3 where s: "u_symlink_metadata ops p w2 = (s, w3)" by fastforce
    from assms bound m s have "w' = u_close ops lis w2 \<or> w' = u_close ops lis w3"
      by (cases m; cases s) (auto simp: bind_new_def io_simps return_io_def split: if_splits)
    with stat_same [OF s] have "node w' = node w2" "live w' = (live w2)(identity st := False)"
      using close_same close_live st(6) by auto
    moreover have "(live w1)(identity st := False) = live w"
      using st(4,5) by (simp add: fun_upd_idem)
    ultimately obtain m' where "node w' = (node w)(p \<mapsto> st\<lparr>st_mode := m'\<rparr>)" "live w' = live w"
      using n2 by auto
    with st show ?thesis by (simp add: stale_at_def identity_def)
  qed
qed

lemma bind_socket_cases:
  assumes "bind_socket ops p w = (r, w')"
  shows "(\<forall>q. q \<noteq> p \<longrightarrow> node w' q = node w q) \<and> (\<forall>i. live w i \<longrightarrow> live w' i) \<and>
    (node w p = None \<or> stale w p \<or> ((\<exists>e. r = Err e) \<and> node w' = node w \<and> live w' = live w)) \<and>
    (\<forall>l. r = Ok l \<longrightarrow> ul_path l = p \<and> owned l w' \<and> \<not> live w (ul_identity l))"
proof (cases "path_parent p")
  case None
  with assms show ?thesis by (auto simp: bind_socket_def)
next
  case (Some parent)
  obtain d w1 where d: "u_is_dir ops parent w = (d, w1)" by fastforce
  note same1 = is_dir_same [OF d]
  obtain r2 w2 where rm: "remove_stale_socket ops p w1 = (r2, w2)" by fastforce
  note removed = remove_stale_socket_cases [OF rm]
  show ?thesis
  proof (cases "d \<and> r2 = Ok ()")
    case False
    with assms Some d rm have "(\<exists>e. r = Err e) \<and> (w' = w1 \<or> w' = w2 \<and> r2 \<noteq> Ok ())"
      by (cases d; cases r2) (auto simp: bind_socket_def io_simps)
    with same1 removed show ?thesis by auto
  next
    case True
    with assms Some d rm have new: "bind_new ops p w2 = (r, w')"
      by (simp add: bind_socket_def io_simps)
    show ?thesis
    proof (cases r)
      case (Ok l)
      with bind_new_Ok [of p w2 l w'] new same1 removed show ?thesis by (auto simp: stale_at_def)
    next
      case (Err e)
      with bind_new_Err [of p w2 e w'] new same1 removed True show ?thesis
        by (auto simp: stale_at_def)
    qed
  qed
qed

lemma drop_listener_cases:
  "live (drop_listener ops l w) = (live w)(listener_id (ul_listener l) := False) \<and>
   (node (drop_listener ops l w) = node w \<or>
    (node (drop_listener ops l w) = (node w)(ul_path l := None) \<and>
     (\<exists>st. node w (ul_path l) = Some st \<and> owns l st)))"
proof -
  obtain s w1 where s: "u_symlink_metadata ops (ul_path l) w = (s, w1)" by fastforce
  obtain m w2 where m: "u_remove_file ops (ul_path l) w1 = (m, w2)" by fastforce
  have "node w2 = node w1 \<and> live w2 = live w1 \<or>
      node w2 = (node w1)(ul_path l := None) \<and> live w2 = live w1"
    using m by (cases m) (auto dest: remove_Ok remove_Err)
  with s m stat_same [OF s] stat_Ok [of "ul_path l" w _ w1] show ?thesis
    by (cases s) (auto simp: drop_listener_def close_same close_live)
qed

lemma foreign_path_kept:
  assumes "node w (ul_path l) = Some st" "\<not> owns l st"
  shows "node (drop_listener ops l w) = node w \<and>
     (\<exists>e w'. verify_or_rebind ops l w = (Err e, l, w') \<and> node w' = node w \<and> live w' = live w)"
proof
  show "node (drop_listener ops l w) = node w"
    using drop_listener_cases [of l w] assms by auto
next
  obtain s w1 where s: "u_symlink_metadata ops (ul_path l) w = (s, w1)" by fastforce
  with assms stat_same [OF s] stat_Ok [of "ul_path l" w _ w1] stat_NotFound [of "ul_path l" w _ w1]
  show "\<exists>e w'. verify_or_rebind ops l w = (Err e, l, w') \<and> node w' = node w \<and> live w' = live w"
    by (cases s) (auto simp: verify_or_rebind_def)
qed

lemma verify_or_rebind_Err:
  "verify_or_rebind ops l w = (Err e, l', w') \<Longrightarrow> l' = l"
  by (auto simp: verify_or_rebind_def split: prod.splits result.splits if_splits)

lemma verify_then_drop_foreign:
  assumes "node w (ul_path l) = Some st" "\<not> owns l st" "verify_or_rebind ops l w = (r, l', w')"
  shows "node (drop_listener ops l w') = node w"
proof -
  from foreign_path_kept [OF assms(1,2)] assms(3) have same: "node w' = node w" by auto
  with assms(1) have "node w' (ul_path l) = Some st" by simp
  from foreign_path_kept [OF this assms(2)] same show ?thesis by simp
qed

lemma verify_or_rebind_owned:
  assumes "verify_or_rebind ops l w = (Ok (), l', w')" "live w (ul_identity l)"
    and "listener_id (ul_listener l) = ul_identity l"
  shows "(l' = l \<and> node w' = node w \<and> live w' = live w \<and>
       (\<exists>st. node w (ul_path l) = Some st \<and> owns l st)) \<or>
     (node w (ul_path l) = None \<and> ul_path l' = ul_path l \<and> owned l' w' \<and>
       (\<forall>q. q \<noteq> ul_path l \<longrightarrow> node w' q = node w q) \<and> \<not> live w' (ul_identity l) \<and>
       ul_identity l' \<noteq> ul_identity l)"
proof -
  obtain s w1 where s: "u_symlink_metadata ops (ul_path l) w = (s, w1)" by fastforce
  note same = stat_same [OF s]
  show ?thesis
  proof (cases s)
    case (Ok st)
    with s assms(1) same stat_Ok [of "ul_path l" w st w1] show ?thesis
      by (auto simp: verify_or_rebind_def split: if_splits)
  next
    case (Err e)
    with s assms(1) obtain w2 where new: "bind_new ops (ul_path l) w1 = (Ok l', w2)"
      and w': "w' = drop_listener ops l w2"
      by (auto simp: verify_or_rebind_def split: if_splits prod.splits result.splits)
    note b = bind_new_Ok [OF new]
    then have ne: "ul_identity l' \<noteq> ul_identity l" using same assms(2) by auto
    from b obtain st where "node w2 (ul_path l) = Some st" "owns l' st"
      by (auto simp: owned_in_def split: option.splits)
    with ne have "\<not> (\<exists>st. node w2 (ul_path l) = Some st \<and> owns l st)"
      by (auto simp: owns_iff)
    with drop_listener_cases [of l w2] have "node w' = node w2"
      "live w' = (live w2)(ul_identity l := False)"
      unfolding w' using assms(3) by auto
    with b ne same show ?thesis by (auto simp: owned_in_def split: option.splits)
  qed
qed

end


subsection \<open>A file system that keeps the promise\<close>

text \<open>
  Directories, files and sockets by path, the open listeners by identity, and the next inode
  number.  A bind that would use the inode of an open listener again fails.  A new socket has the
  permissions of the umask \<open>022\<close>.
\<close>

record sim_fs =
  fs_dirs :: "path list"
  fs_nodes :: "path \<Rightarrow> file_stat option"
  fs_live :: "u64 \<times> u64 \<Rightarrow> bool"
  fs_next :: u64

definition fs_stat :: "path \<Rightarrow> (sim_fs, file_stat, io_error) io" where
  "fs_stat p w =
     (case fs_nodes w p of
        None \<Rightarrow> (Err (io_error_new NotFound (lit ''no such file'')), w)
      | Some st \<Rightarrow> (Ok st, w))"

definition fs_remove :: "path \<Rightarrow> (sim_fs, unit, io_error) io" where
  "fs_remove p w =
     (case fs_nodes w p of
        None \<Rightarrow> (Err (io_error_new NotFound (lit ''no such file'')), w)
      | Some _ \<Rightarrow> (Ok (), w\<lparr>fs_nodes := (fs_nodes w)(p := None)\<rparr>))"

definition fs_set_mode :: "path \<Rightarrow> u32 \<Rightarrow> (sim_fs, unit, io_error) io" where
  "fs_set_mode p m w =
     (case fs_nodes w p of
        None \<Rightarrow> (Err (io_error_new NotFound (lit ''no such file'')), w)
      | Some st \<Rightarrow> (Ok (), w\<lparr>fs_nodes := (fs_nodes w)(p \<mapsto> st\<lparr>st_mode := 0xC000 OR m\<rparr>)\<rparr>))"

definition fs_bind :: "path \<Rightarrow> (sim_fs, u64 \<times> u64, io_error) io" where
  "fs_bind p w =
     (if fs_nodes w p \<noteq> None then (Err (io_error_new AddrInUse (lit ''address in use'')), w)
      else if fs_live w (1, fs_next w) then (Err (io_error_new OutOfMemory (lit ''no inode'')), w)
      else (Ok (1, fs_next w),
        w\<lparr>fs_nodes := (fs_nodes w)(p \<mapsto> \<lparr>st_is_socket = True, st_mode = 0xC1ED,
             st_dev = 1, st_ino = fs_next w\<rparr>),
          fs_live := (fs_live w)((1, fs_next w) := True), fs_next := fs_next w + 1\<rparr>))"

definition fs_connect :: "path \<Rightarrow> (sim_fs, unit, io_error) io" where
  "fs_connect p w =
     (case fs_nodes w p of
        None \<Rightarrow> (Err (io_error_new NotFound (lit ''no such file'')), w)
      | Some st \<Rightarrow>
          if st_is_socket st \<and> fs_live w (identity st) then (Ok (), w)
          else (Err (io_error_new ConnectionRefused (lit ''connection refused'')), w))"

definition fs_close :: "u64 \<times> u64 \<Rightarrow> sim_fs \<Rightarrow> sim_fs" where
  "fs_close lis w = w\<lparr>fs_live := (fs_live w)(lis := False)\<rparr>"

definition fs_ops :: "(sim_fs, u64 \<times> u64) socket_ops" where
  "fs_ops =
     \<lparr>u_is_dir = (\<lambda>p w. (p \<in> set (fs_dirs w), w)), u_symlink_metadata = fs_stat,
      u_remove_file = fs_remove, u_set_mode = fs_set_mode, u_bind = fs_bind,
      u_connect = fs_connect, u_close = fs_close\<rparr>"

lemmas fs_defs = fs_ops_def fs_stat_def fs_remove_def fs_set_mode_def fs_bind_def fs_connect_def
  fs_close_def

interpretation fs: socket_namespace fs_ops fs_nodes fs_live "\<lambda>lis. lis"
proof unfold_locales
  fix p w c w' and st :: file_stat
  assume "u_connect fs_ops p w = (Err c, w')" "is_stale_socket_error c" "fs_nodes w p = Some st"
    "st_is_socket st"
  then show "\<not> fs_live w (identity st)" by (auto simp: fs_defs split: if_splits)
qed (auto simp: fs_defs identity_def split: option.splits if_splits)


subsection \<open>Other processes\<close>

text \<open>
  A world that others share: before every call the next of a list of changes is made, whatever it
  is, and every call is recorded with the worlds before and after it.
\<close>

type_synonym 'w shared = "'w \<times> ('w \<Rightarrow> 'w) list \<times> ('w \<times> 'w) list"

definition others :: "('w \<Rightarrow> 'w) list \<Rightarrow> 'w \<Rightarrow> 'w" where
  "others todo w = (case todo of [] \<Rightarrow> w | g # _ \<Rightarrow> g w)"

definition interfere :: "('w \<Rightarrow> 'a \<times> 'w) \<Rightarrow> 'w shared \<Rightarrow> 'a \<times> 'w shared" where
  "interfere f = (\<lambda>(w, todo, calls).
     case f (others todo w) of (r, w') \<Rightarrow> (r, w', tl todo, calls @ [(others todo w, w')]))"

definition interfered :: "('w, 'lis) socket_ops \<Rightarrow> ('w shared, 'lis) socket_ops" where
  "interfered ops =
     \<lparr>u_is_dir = (\<lambda>p. interfere (u_is_dir ops p)),
      u_symlink_metadata = (\<lambda>p. interfere (u_symlink_metadata ops p)),
      u_remove_file = (\<lambda>p. interfere (u_remove_file ops p)),
      u_set_mode = (\<lambda>p m. interfere (u_set_mode ops p m)),
      u_bind = (\<lambda>p. interfere (u_bind ops p)),
      u_connect = (\<lambda>p. interfere (u_connect ops p)),
      u_close = (\<lambda>lis w. snd (interfere (\<lambda>v. ((), u_close ops lis v)) w))\<rparr>"

lemma others_simps [simp]: "others [] w = w" "others (g # todo) w = g w"
  by (simp_all add: others_def)

lemma interfere_eq:
  "f (others todo w) = (r, w') \<Longrightarrow>
     interfere f (w, todo, calls) = (r, w', tl todo, calls @ [(others todo w, w')])"
  by (simp add: interfere_def)

lemma interfered_sel [simp]:
  "u_is_dir (interfered ops) p = interfere (u_is_dir ops p)"
  "u_symlink_metadata (interfered ops) p = interfere (u_symlink_metadata ops p)"
  "u_remove_file (interfered ops) p = interfere (u_remove_file ops p)"
  "u_set_mode (interfered ops) p m = interfere (u_set_mode ops p m)"
  "u_bind (interfered ops) p = interfere (u_bind ops p)"
  "u_connect (interfered ops) p = interfere (u_connect ops p)"
  "u_close (interfered ops) lis w = snd (interfere (\<lambda>v. ((), u_close ops lis v)) w)"
  by (simp_all add: interfered_def)

text \<open>
  The path names the socket with that identity.  A call takes nothing from anybody when the only
  name that it removes is the given path's, and only from a socket that nobody listens on.
\<close>

definition names_socket :: "(path \<Rightarrow> file_stat option) \<Rightarrow> path \<Rightarrow> u64 \<times> u64 \<Rightarrow> bool" where
  "names_socket nodes p i \<longleftrightarrow>
     (case nodes p of Some st \<Rightarrow> st_is_socket st \<and> identity st = i | None \<Rightarrow> False)"

definition takes_nothing ::
  "('w \<Rightarrow> path \<Rightarrow> file_stat option) \<Rightarrow> ('w \<Rightarrow> u64 \<times> u64 \<Rightarrow> bool) \<Rightarrow> path \<Rightarrow> 'w \<times> 'w \<Rightarrow> bool" where
  "takes_nothing node live p = (\<lambda>(v, v').
     \<forall>q. node v' q = None \<longrightarrow> node v q = None \<or>
       q = p \<and> (\<exists>i. names_socket (node v) p i \<and> \<not> live v i))"

lemma takes_nothing_same: "node v' = node v \<Longrightarrow> takes_nothing node live p (v, v')"
  by (simp add: takes_nothing_def)

text \<open>
  Changing a mode removes no name, also when another process has replaced the file.
\<close>

locale shared_namespace = socket_namespace +
  assumes set_mode_names: "u_set_mode ops p m w = (r, w') \<Longrightarrow> (node w' q = None) = (node w q = None)"
begin

lemma bind_takes_nothing:
  assumes "u_bind ops p v = (r, v')"
  shows "takes_nothing node live p (v, v')"
proof (cases r)
  case (Ok lis)
  with bind_Ok [of p v lis v'] assms show ?thesis
    by (auto simp: takes_nothing_def split: if_splits)
next
  case (Err e)
  with bind_Err [of p v e v'] assms show ?thesis by (simp add: takes_nothing_same)
qed

lemma bind_new_interfered:
  "\<exists>cs. snd (snd (snd (bind_new (interfered ops) p (w, todo, calls)))) = calls @ cs \<and>
     list_all (takes_nothing node live p) cs"
proof -
  let ?v = "others todo w"
  obtain b w1 where b: "u_bind ops p ?v = (b, w1)" by fastforce
  let ?v1 = "others (tl todo) w1"
  obtain m w2 where m: "u_set_mode ops p 0x180 ?v1 = (m, w2)" by fastforce
  let ?v2 = "others (tl (tl todo)) w2"
  obtain s w3 where s: "u_symlink_metadata ops p ?v2 = (s, w3)" by fastforce
  have moded: "takes_nothing node live p (?v1, w2)"
    using set_mode_names [OF m] by (simp add: takes_nothing_def)
  have closed: "takes_nothing node live p (v, u_close ops lis v)" for v lis
    by (rule takes_nothing_same) (rule close_same)
  note calls = bind_takes_nothing [OF b] moded takes_nothing_same [OF conjunct1 [OF stat_same [OF s]]]
    closed
  show ?thesis
    using calls b m s
    by (cases b; cases m; cases s)
       (simp_all add: bind_new_def bind_io_def return_io_def interfere_eq)
qed

text \<open>Every call up to the removal, with what the checks have seen.\<close>

lemma remove_stale_interfered:
  assumes "remove_stale_socket (interfered ops) p (w, todo, calls) = (r, w', todo', calls')"
    and last_gap: "\<And>v. node (others (drop 3 todo) v) p = node v p \<and>
      live (others (drop 3 todo) v) = live v"
  shows "\<exists>cs. calls' = calls @ cs \<and>
     (list_all (takes_nothing node live p) cs \<or>
      (\<exists>a a' b b' c c' d d' i. cs = [(a, a'), (b, b'), (c, c'), (d, d')] \<and>
         list_all (takes_nothing node live p) [(a, a'), (b, b'), (c, c')] \<and>
         names_socket (node a) p i \<and> names_socket (node c) p i \<and>
         (names_socket (node b) p i \<longrightarrow> \<not> live b i) \<and> node d p = node c p \<and> live d = live c \<and>
         (node d' = node d \<or> node d' = (node d)(p := None))))"
proof -
  let ?a = "others todo w"
  obtain s1 w1 where s1: "u_symlink_metadata ops p ?a = (s1, w1)" by fastforce
  let ?b = "others (tl todo) w1"
  obtain c w2 where c: "u_connect ops p ?b = (c, w2)" by fastforce
  let ?c = "others (tl (tl todo)) w2"
  obtain s2 w3 where s2: "u_symlink_metadata ops p ?c = (s2, w3)" by fastforce
  let ?d = "others (tl (tl (tl todo))) w3"
  obtain m w4 where m: "u_remove_file ops p ?d = (m, w4)" by fastforce
  note same = stat_same [OF s1] connect_same [OF c] stat_same [OF s2]
  have looks: "list_all (takes_nothing node live p) [(?a, w1), (?b, w2), (?c, w3)]"
    using same by (simp add: takes_nothing_same)
  note step = interfere_eq [of "u_symlink_metadata ops p", OF s1] interfere_eq [of "u_connect ops p", OF c]
    interfere_eq [of "u_symlink_metadata ops p", OF s2] interfere_eq [of "u_remove_file ops p", OF m]
  show ?thesis
  proof (cases "\<exists>st e cur. s1 = Ok st \<and> st_is_socket st \<and> c = Err e \<and> is_stale_socket_error e \<and>
      s2 = Ok cur \<and> st_is_socket cur \<and> identity cur = identity st")
    case False
    with assms(1) step have "calls' = calls @ [(?a, w1)] \<or> calls' = calls @ [(?a, w1), (?b, w2)] \<or>
        calls' = calls @ [(?a, w1), (?b, w2), (?c, w3)]"
      by (cases s1; cases c; cases s2)
         (auto simp: remove_stale_socket_def bind_io_def return_io_def identity_def split: if_splits)
    with looks show ?thesis by auto
  next
    case True
    then obtain st e cur where here: "s1 = Ok st" "st_is_socket st" "c = Err e"
        "is_stale_socket_error e" "s2 = Ok cur" "st_is_socket cur" "identity cur = identity st"
      by blast
    have "calls' = calls @ [(?a, w1), (?b, w2), (?c, w3), (?d, w4)]"
      using assms(1) step here
      by (auto simp: remove_stale_socket_def bind_io_def return_io_def identity_def)
    moreover have "names_socket (node ?a) p (identity st)" "names_socket (node ?c) p (identity st)"
      using stat_Ok [OF s1 [unfolded here(1)]] stat_Ok [OF s2 [unfolded here(5)]] here
      by (simp_all add: names_socket_def)
    moreover have "names_socket (node ?b) p (identity st) \<longrightarrow> \<not> live ?b (identity st)"
      using connect_refused [OF c [unfolded here(3)] here(4)]
      by (auto simp: names_socket_def split: option.splits)
    moreover have "node ?d p = node ?c p" "live ?d = live ?c"
      using last_gap [of w3] same(3) by (simp_all add: drop_Suc eval_nat_numeral)
    moreover have "node w4 = node ?d \<or> node w4 = (node ?d)(p := None)"
      using m by (cases m) (auto dest: remove_Ok remove_Err)
    ultimately show ?thesis
      using looks
      by - (rule exI, rule conjI, assumption, rule disjI2,
          (rule exI | rule conjI | rule refl | assumption)+)
  qed
qed

end

text \<open>Where nobody else acts, the records change nothing.\<close>

lemma interfere_alone [simp]:
  "interfere f (v, [], calls) = (fst (f v), snd (f v), [], calls @ [(v, snd (f v))])"
  by (simp add: interfere_def case_prod_beta)

lemma remove_stale_alone:
  "\<exists>cs. remove_stale_socket (interfered ops) p (v, [], calls) =
     (fst (remove_stale_socket ops p v), snd (remove_stale_socket ops p v), [], cs)"
proof -
  obtain s1 w1 where s1: "u_symlink_metadata ops p v = (s1, w1)" by fastforce
  obtain c w2 where c: "u_connect ops p w1 = (c, w2)" by fastforce
  obtain s2 w3 where s2: "u_symlink_metadata ops p w2 = (s2, w3)" by fastforce
  show ?thesis
    using s1 c s2
    by (cases s1; cases c; cases s2)
       (simp_all add: remove_stale_socket_def bind_io_def return_io_def)
qed

lemma bind_new_alone:
  "\<exists>cs. bind_new (interfered ops) p (v, [], calls) =
     (fst (bind_new ops p v), snd (bind_new ops p v), [], cs)"
proof -
  obtain b w1 where b: "u_bind ops p v = (b, w1)" by fastforce
  obtain m w2 where m: "u_set_mode ops p 0x180 w1 = (m, w2)" by fastforce
  obtain s w3 where s: "u_symlink_metadata ops p w2 = (s, w3)" by fastforce
  show ?thesis
    using b m s
    by (cases b; cases m; cases s) (simp_all add: bind_new_def bind_io_def return_io_def)
qed

lemma bind_socket_alone:
  "\<exists>cs. bind_socket (interfered ops) p (v, [], calls) =
     (fst (bind_socket ops p v), snd (bind_socket ops p v), [], cs)"
proof (cases "path_parent p")
  case None
  then show ?thesis by (simp add: bind_socket_def)
next
  case (Some parent)
  obtain d w1 where d: "u_is_dir ops parent v = (d, w1)" by fastforce
  obtain r w2 where r: "remove_stale_socket ops p w1 = (r, w2)" by fastforce
  from remove_stale_alone [of ops p w1 "calls @ [(v, w1)]"] r obtain cs where
      "remove_stale_socket (interfered ops) p (w1, [], calls @ [(v, w1)]) = (r, w2, [], cs)"
    by auto
  with Some d r bind_new_alone [of ops p w2 cs] show ?thesis
    by (cases d; cases r) (simp_all add: bind_socket_def bind_io_def)
qed

text \<open>
  What the checks rely on: between two looks the path does not leave a socket and come back to it,
  and a socket that nobody listens on is not listened on again.
\<close>

definition sockets_stay ::
  "('w \<Rightarrow> path \<Rightarrow> file_stat option) \<Rightarrow> ('w \<Rightarrow> u64 \<times> u64 \<Rightarrow> bool) \<Rightarrow> path \<Rightarrow> 'w list \<Rightarrow> bool" where
  "sockets_stay node live p ws \<longleftrightarrow>
     (\<forall>a b c i. subseq [a, b, c] ws \<longrightarrow> names_socket (node a) p i \<longrightarrow> names_socket (node c) p i \<longrightarrow>
        names_socket (node b) p i) \<and>
     (\<forall>a b i. subseq [a, b] ws \<longrightarrow> names_socket (node a) p i \<longrightarrow> names_socket (node b) p i \<longrightarrow>
        \<not> live a i \<longrightarrow> \<not> live b i)"

context shared_namespace
begin

lemma bind_socket_interfered:
  assumes "bind_socket (interfered ops) p (w, todo, []) = (r, w', todo', calls)"
    and "sockets_stay node live p (map fst (take 4 calls))"
    and last_gap: "\<And>v. node (others (drop 4 todo) v) p = node v p \<and>
      live (others (drop 4 todo) v) = live v"
  shows "list_all (takes_nothing node live p) calls"
proof (cases "path_parent p")
  case None
  with assms(1) show ?thesis by (simp add: bind_socket_def)
next
  case (Some parent)
  obtain d w1 where d: "u_is_dir ops parent (others todo w) = (d, w1)" by fastforce
  have look: "takes_nothing node live p (others todo w, w1)"
    using is_dir_same [OF d] by (simp add: takes_nothing_same)
  note first = interfere_eq [of "u_is_dir ops parent", OF d]
  show ?thesis
  proof (cases d)
    case False
    with assms(1) Some first look show ?thesis by (auto simp: bind_socket_def)
  next
    case True
    obtain r2 w2 todo2 calls2 where rm: "remove_stale_socket (interfered ops) p
        (w1, tl todo, [(others todo w, w1)]) = (r2, w2, todo2, calls2)"
      by (metis prod_cases4)
    have rest: "\<exists>cs. calls = calls2 @ cs \<and> list_all (takes_nothing node live p) cs"
    proof (cases r2)
      case (Err e)
      with assms(1) Some first True rm show ?thesis by (auto simp: bind_socket_def bind_io_def)
    next
      case (Ok u)
      with assms(1) Some first True rm bind_new_interfered [of p w2 todo2 calls2] show ?thesis
        by (simp add: bind_socket_def bind_io_def)
    qed
    have "drop 3 (tl todo) = drop 4 todo" by (cases todo) simp_all
    with remove_stale_interfered [OF rm] last_gap obtain cs where
        calls2: "calls2 = [(others todo w, w1)] @ cs"
      and "list_all (takes_nothing node live p) cs \<or>
        (\<exists>a a' b b' c c' d d' i. cs = [(a, a'), (b, b'), (c, c'), (d, d')] \<and>
           list_all (takes_nothing node live p) [(a, a'), (b, b'), (c, c')] \<and>
           names_socket (node a) p i \<and> names_socket (node c) p i \<and>
           (names_socket (node b) p i \<longrightarrow> \<not> live b i) \<and> node d p = node c p \<and> live d = live c \<and>
           (node d' = node d \<or> node d' = (node d)(p := None)))"
      by metis
    then consider (kept) "list_all (takes_nothing node live p) cs"
      | (removed) a a' b b' c c' d d' i where "cs = [(a, a'), (b, b'), (c, c'), (d, d')]"
          "list_all (takes_nothing node live p) [(a, a'), (b, b'), (c, c')]"
          "names_socket (node a) p i" "names_socket (node c) p i"
          "names_socket (node b) p i \<longrightarrow> \<not> live b i" "node d p = node c p" "live d = live c"
          "node d' = node d \<or> node d' = (node d)(p := None)"
      by blast
    then have "list_all (takes_nothing node live p) cs"
    proof cases
      case removed
      have moments: "map fst (take 4 calls) = [others todo w, a, b, c]"
        using rest calls2 removed(1) by auto
      have "subseq [a, b, c] [others todo w, a, b, c]"
        by (rule list_emb_Cons) (rule subseq_order.refl)
      moreover have "subseq [b, c] [others todo w, a, b, c]"
        by (rule list_emb_Cons, rule list_emb_Cons) (rule subseq_order.refl)
      ultimately have "\<not> live c i"
        using assms(2) removed(3-5) unfolding sockets_stay_def moments by blast
      then have "names_socket (node d) p i" "\<not> live d i"
        using removed(4,6,7) by (simp_all add: names_socket_def)
      with removed(8) have "takes_nothing node live p (d, d')"
        by (auto simp: takes_nothing_def simp del: split_paired_Ex split: if_splits)
      with removed(1,2) show ?thesis by simp
    qed
    with rest calls2 look show ?thesis by auto
  qed
qed

text \<open>
  Another process puts a listening socket with the status \<open>st'\<close> at the path.  If it has done so
  before the second look, nothing is removed; if it does so just before the removal, its socket
  loses its name.
\<close>

abbreviation replaced where
  "replaced p st' v \<equiv> node v p = Some st' \<and> live v (identity st')"

lemma remove_stale_replaced_early:
  assumes run: "remove_stale_socket (interfered ops) p (w, todo, calls) = (r, w', todo', calls')"
    and st': "st_is_socket st'" "identity st' \<noteq> identity st"
    and rep: "\<And>v. replaced p st' (replace v)"
    and todo: "(todo = [] \<and> replaced p st' w) \<or>
      (todo \<in> {[replace], [id, replace], [id, id, replace]} \<and> node w p = Some st)"
  shows "(\<exists>e. r = Err e) \<and> (length calls + length todo \<le> length calls' \<longrightarrow> replaced p st' w')"
proof -
  let ?a = "others todo w"
  obtain s1 w1 where s1: "u_symlink_metadata ops p ?a = (s1, w1)" by fastforce
  let ?b = "others (tl todo) w1"
  obtain c w2 where c: "u_connect ops p ?b = (c, w2)" by fastforce
  let ?c = "others (tl (tl todo)) w2"
  obtain s2 w3 where s2: "u_symlink_metadata ops p ?c = (s2, w3)" by fastforce
  note same = stat_same [OF s1] connect_same [OF c] stat_same [OF s2]
  have moments: "replaced p st' ?c" "replaced p st' ?a \<or> node ?a p = Some st"
      "replaced p st' ?a \<longrightarrow> replaced p st' ?b" "length todo \<le> 1 \<longrightarrow> replaced p st' ?a"
      "length todo \<le> 2 \<longrightarrow> replaced p st' ?b"
    using todo same rep st'(2) by auto
  note step = interfere_eq [of "u_symlink_metadata ops p", OF s1] interfere_eq [of "u_connect ops p", OF c]
    interfere_eq [of "u_symlink_metadata ops p", OF s2]
  show ?thesis
  proof (cases "\<exists>st1 e. s1 = Ok st1 \<and> st_is_socket st1 \<and> c = Err e \<and> is_stale_socket_error e")
    case False
    have "\<not> (\<exists>e. s1 = Err e \<and> io_kind e = NotFound)"
      using s1 moments(2) stat_NotFound [of p ?a] by auto
    with False run step have "(\<exists>e. r = Err e) \<and>
        (w' = w1 \<and> length calls' = Suc (length calls) \<or>
         w' = w2 \<and> length calls' = Suc (Suc (length calls)))"
      by (cases s1; cases c) (auto simp: remove_stale_socket_def split: if_splits)
    with same moments show ?thesis by auto
  next
    case True
    then obtain st1 e where here: "s1 = Ok st1" "st_is_socket st1" "c = Err e" "is_stale_socket_error e"
      by blast
    have "\<not> replaced p st' ?b"
      using connect_refused [OF c [unfolded here(3)] here(4)] st'(1) by auto
    with moments stat_Ok [OF s1 [unfolded here(1)]] have "st1 = st" by auto
    moreover have "cur = st'" if "s2 = Ok cur" for cur
      using stat_Ok [OF s2 [unfolded that]] moments(1) by simp
    ultimately have "(\<exists>e. r = Err e) \<and> w' = w3"
      using run step here st'(2)
      by (cases s2) (auto simp: remove_stale_socket_def bind_io_def return_io_def identity_def)
    with same moments(1) show ?thesis by auto
  qed
qed

lemma remove_stale_replaced_late:
  assumes run: "remove_stale_socket (interfered ops) p (w, [id, id, id, replace], calls) =
      (Ok (), w', todo', calls')"
    and rep: "\<And>v. replaced p st' (replace v)" and here: "node w p = Some st"
  shows "todo' = [] \<and> live w' (identity st')"
proof -
  obtain s1 w1 where s1: "u_symlink_metadata ops p w = (s1, w1)" by fastforce
  obtain c w2 where c: "u_connect ops p w1 = (c, w2)" by fastforce
  obtain s2 w3 where s2: "u_symlink_metadata ops p w2 = (s2, w3)" by fastforce
  obtain m w4 where m: "u_remove_file ops p (replace w3) = (m, w4)" by fastforce
  have "\<not> (\<exists>e. s1 = Err e \<and> io_kind e = NotFound)"
    using s1 here stat_NotFound [of p w] by auto
  with run s1 c s2 m have "m = Ok () \<and> w' = w4 \<and> todo' = []"
    by (cases s1; cases c; cases s2)
       (auto simp: remove_stale_socket_def bind_io_def return_io_def interfere_def split: if_splits)
  with m rep [of w3] show ?thesis by (auto dest: remove_Ok)
qed

lemma bind_socket_replaced:
  assumes st: "node w p = Some st" "st_is_socket st" "st_is_socket st'" "identity st' \<noteq> identity st"
    and rep: "\<And>v. replaced p st' (replace v)"
    and run: "bind_socket (interfered ops) p (w, replicate k id @ [replace], []) = (r, w', todo', calls)"
  shows "(k < 4 \<longrightarrow> (\<exists>e. r = Err e) \<and> (k < length calls \<longrightarrow> replaced p st' w')) \<and>
    (k = 4 \<longrightarrow> r = Ok l \<longrightarrow> live w' (identity st') \<and> \<not> names_socket (node w') p (identity st'))"
proof (cases "path_parent p")
  case None
  with run show ?thesis by (auto simp: bind_socket_def)
next
  case (Some parent)
  let ?todo = "replicate k id @ [replace]"
  obtain d w1 where d: "u_is_dir ops parent (others ?todo w) = (d, w1)" by fastforce
  note first = interfere_eq [of "u_is_dir ops parent", OF d]
  have w1: "if k = 0 then replaced p st' w1 else node w1 p = Some st"
    using is_dir_same [OF d] st(1) rep by (cases k) auto
  show ?thesis
  proof (cases d)
    case False
    with run Some first have "(\<exists>e. r = Err e) \<and> w' = w1 \<and> length calls = 1"
      by (auto simp: bind_socket_def)
    with w1 show ?thesis by (auto split: if_splits)
  next
    case True
    obtain r2 w2 todo2 calls2 where rm: "remove_stale_socket (interfered ops) p
        (w1, tl ?todo, [(others ?todo w, w1)]) = (r2, w2, todo2, calls2)"
      by (metis prod_cases4)
    have rest: "bind_io (remove_stale_socket (interfered ops) p) (\<lambda>_. bind_new (interfered ops) p)
        (w1, tl ?todo, [(others ?todo w, w1)]) = (r, w', todo', calls)"
      using run Some first True by (simp add: bind_socket_def)
    have early: "(\<exists>e. r = Err e) \<and> (k < length calls \<longrightarrow> replaced p st' w')" if "k < 4"
    proof -
      from that have "k = 0 \<or> k = 1 \<or> k = 2 \<or> k = 3" by auto
      then have "(tl ?todo = [] \<and> replaced p st' w1) \<or>
          (tl ?todo \<in> {[replace], [id, replace], [id, id, replace]} \<and> node w1 p = Some st)"
        using w1 by (auto simp: eval_nat_numeral)
      from remove_stale_replaced_early [OF rm st(3,4) rep this] obtain e where
          e: "r2 = Err e" and len: "Suc k \<le> length calls2 \<longrightarrow> replaced p st' w2"
        by (cases k) auto
      with rest rm show ?thesis by (auto simp: bind_io_def Suc_le_eq)
    qed
    have late: "live w' (identity st') \<and> \<not> names_socket (node w') p (identity st')"
      if "k = 4" "r = Ok l"
    proof -
      have todo: "tl ?todo = [id, id, id, replace]" using that(1) by (simp add: eval_nat_numeral)
      have r2: "r2 = Ok ()" using rest rm that(2) by (cases r2) (auto simp: bind_io_def)
      from remove_stale_replaced_late [OF rm [unfolded todo r2] rep, of st] w1 that(1)
      have w2: "todo2 = []" "live w2 (identity st')" by auto
      with rest rm r2 that(2) bind_new_alone [of ops p w2 calls2] have "bind_new ops p w2 = (Ok l, w')"
        by (auto simp: bind_io_def prod_eq_iff)
      from bind_new_Ok [OF this] w2(2) show ?thesis
        by (auto simp: owned_in_def owns_iff names_socket_def split: option.splits)
    qed
    from early late show ?thesis by blast
  qed
qed

end


interpretation fs_shared: shared_namespace fs_ops fs_nodes fs_live "\<lambda>lis. lis"
  by unfold_locales (auto simp: fs_defs split: option.splits)


subsection \<open>Examples on that file system\<close>

text \<open>A stale socket, a live one of another process, and an empty path, in the root directory.\<close>

definition demo_socket :: file_stat where
  "demo_socket = \<lparr>st_is_socket = True, st_mode = 0xC1ED, st_dev = 1, st_ino = 7\<rparr>"

definition demo_fs :: "file_stat option \<Rightarrow> bool \<Rightarrow> sim_fs" where
  "demo_fs n open = \<lparr>fs_dirs = [''/''], fs_nodes = (\<lambda>p. if p = ''/s'' then n else None),
     fs_live = (\<lambda>i. open \<and> i = (1, 7)), fs_next = 9\<rparr>"

definition demo_listener :: "(u64 \<times> u64) owned_unix_listener" where
  "demo_listener = \<lparr>ul_listener = (1, 9), ul_path = ''/s'', ul_device = 1, ul_inode = 9\<rparr>"

definition demo_fs_bound :: sim_fs where
  "demo_fs_bound = \<lparr>fs_dirs = [''/''],
     fs_nodes = (\<lambda>p. if p = ''/s'' then Some \<lparr>st_is_socket = True, st_mode = 0xC180, st_dev = 1,
       st_ino = 9\<rparr> else None),
     fs_live = (\<lambda>i. i = (1, 9)), fs_next = 10\<rparr>"

lemma demo_parent: "path_parent ''/s'' = Some ''/''" "path_parent ''s'' = Some []"
  "path_parent ''/a//b/./'' = Some ''/a''" "path_parent ''/.'' = None" "path_parent [] = None"
  by (simp_all add: path_parent_def)

lemma demo_bind_stale:
  "bind_socket fs_ops ''/s'' (demo_fs (Some demo_socket) False) = (Ok demo_listener, demo_fs_bound)"
  by (simp add: bind_socket_def demo_parent remove_stale_socket_def bind_new_def bind_io_def
      return_io_def fs_defs demo_fs_def demo_socket_def demo_listener_def demo_fs_bound_def
      is_stale_socket_error_def identity_def fun_eq_iff)

lemma demo_bind_live:
  "bind_socket fs_ops ''/s'' (demo_fs (Some demo_socket) True) =
     (Err (io_error_new AddrInUse (lit ''Unix socket is owned by an active process'')),
      demo_fs (Some demo_socket) True)"
  by (simp add: bind_socket_def demo_parent remove_stale_socket_def bind_io_def
      fs_defs demo_fs_def demo_socket_def identity_def)


lemma demo_verify_unlinked:
  "verify_or_rebind fs_ops demo_listener (demo_fs_bound\<lparr>fs_nodes := (\<lambda>p. None)\<rparr>) =
     (Ok (), demo_listener\<lparr>ul_listener := (1, 10), ul_inode := 10\<rparr>,
      \<lparr>fs_dirs = [''/''],
       fs_nodes = (\<lambda>p. if p = ''/s'' then Some \<lparr>st_is_socket = True, st_mode = 0xC180, st_dev = 1,
         st_ino = 10\<rparr> else None),
       fs_live = (\<lambda>i. i = (1, 10)), fs_next = 11\<rparr>)"
  by (auto simp: verify_or_rebind_def bind_new_def bind_io_def return_io_def fs_defs
      demo_listener_def demo_fs_bound_def drop_listener_def owns_def identity_def fun_eq_iff)

text \<open>
  Another process that has put a listening socket of its own in place of the stale one, in the
  middle of the checks and just before the removal.
\<close>

definition demo_replaced :: "sim_fs \<Rightarrow> sim_fs" where
  "demo_replaced w = w\<lparr>fs_nodes := (fs_nodes w)(''/s'' \<mapsto>
       \<lparr>st_is_socket = True, st_mode = 0xC180, st_dev = 1, st_ino = 9\<rparr>),
     fs_live := (fs_live w)((1, 9) := True), fs_next := 10\<rparr>"

lemma demo_replaced_bound: "demo_replaced (demo_fs (Some demo_socket) False) = demo_fs_bound"
  by (simp add: demo_replaced_def demo_fs_def demo_fs_bound_def fun_eq_iff)

lemma demo_overtaken:
  "bind_socket (interfered fs_ops) ''/s''
     (demo_fs (Some demo_socket) False, replicate 3 id @ [demo_replaced], []) =
   (Err (io_error_other (lit ''Unix socket changed while checking ownership'')), demo_fs_bound, [],
    [(demo_fs (Some demo_socket) False, demo_fs (Some demo_socket) False),
     (demo_fs (Some demo_socket) False, demo_fs (Some demo_socket) False),
     (demo_fs (Some demo_socket) False, demo_fs (Some demo_socket) False),
     (demo_fs_bound, demo_fs_bound)])"
  by (subst bind_socket_def)
     (auto simp: demo_parent remove_stale_socket_def bind_io_def return_io_def interfere_eq
      interfere_def fs_defs eval_nat_numeral identity_def is_stale_socket_error_def
      demo_fs_def demo_socket_def demo_fs_bound_def demo_replaced_def fun_eq_iff)

definition demo_fs_raced :: sim_fs where
  "demo_fs_raced = \<lparr>fs_dirs = [''/''],
     fs_nodes = (\<lambda>p. if p = ''/s'' then Some \<lparr>st_is_socket = True, st_mode = 0xC180, st_dev = 1,
       st_ino = 10\<rparr> else None),
     fs_live = (\<lambda>i. i = (1, 9) \<or> i = (1, 10)), fs_next = 11\<rparr>"

lemma demo_race:
  "\<exists>calls. bind_socket (interfered fs_ops) ''/s''
     (demo_fs (Some demo_socket) False, replicate 4 id @ [demo_replaced], []) =
   (Ok (demo_listener\<lparr>ul_listener := (1, 10), ul_inode := 10\<rparr>), demo_fs_raced, [], calls)"
  by (subst bind_socket_def)
     (auto simp: demo_parent remove_stale_socket_def bind_new_def bind_io_def return_io_def
      interfere_def fs_defs eval_nat_numeral identity_def is_stale_socket_error_def demo_listener_def
      demo_fs_def demo_socket_def demo_fs_raced_def demo_replaced_def fun_eq_iff)


subsection \<open>Properties\<close>



text \<open>C27: a bind that succeeds owns its path.  The path names the listener's own open socket, its
  permissions are exactly \<open>0600\<close>, the recorded device and inode are the socket's, and nobody had
  that socket before.\<close>

theorem bind_owner_only:
  assumes "socket_namespace ops node live listener_id"
    and "bind_socket ops p w = (Ok l, w')"
  shows "ul_path l = p \<and> owned_in (node w') (live w') listener_id l \<and> \<not> live w (ul_identity l)"
  using socket_namespace.bind_socket_cases [OF assms] by blast

theorem bind_owner_only_witness:
  "owned_in (fs_nodes demo_fs_bound) (fs_live demo_fs_bound) (\<lambda>lis. lis) demo_listener"
  using bind_owner_only [OF fs.socket_namespace_axioms demo_bind_stale] by blast

text \<open>C28: the monitor restores an unlinked socket.  A successful check leaves an owned path as it is,
  or, when the path had been unlinked, replaces the listener by a new owner of the same path; the
  drop of the old listener, which runs after the new bind, closes the old socket and does not
  remove the new one.\<close>

theorem verify_or_rebind_restores:
  assumes "socket_namespace ops node live listener_id"
    and "verify_or_rebind ops l w = (Ok (), l', w')"
    and "live w (ul_identity l)" "listener_id (ul_listener l) = ul_identity l"
  shows "(l' = l \<and> node w' = node w \<and> live w' = live w \<and>
       (\<exists>st. node w (ul_path l) = Some st \<and> owns l st)) \<or>
     (node w (ul_path l) = None \<and> ul_path l' = ul_path l \<and>
       owned_in (node w') (live w') listener_id l' \<and>
       (\<forall>q. q \<noteq> ul_path l \<longrightarrow> node w' q = node w q) \<and> \<not> live w' (ul_identity l) \<and>
       ul_identity l' \<noteq> ul_identity l)"
  by (rule socket_namespace.verify_or_rebind_owned [OF assms])

theorem verify_or_rebind_restores_witness:
  "owned_in (\<lambda>p. if p = ''/s'' then Some \<lparr>st_is_socket = True, st_mode = 0xC180, st_dev = 1,
       st_ino = 10\<rparr> else None) (\<lambda>i. i = (1, 10)) (\<lambda>lis. lis)
     (demo_listener\<lparr>ul_listener := (1, 10), ul_inode := 10\<rparr>)"
proof -
  have "fs_live (demo_fs_bound\<lparr>fs_nodes := (\<lambda>p. None)\<rparr>) (ul_identity demo_listener)"
    "ul_listener demo_listener = ul_identity demo_listener"
    by (simp_all add: demo_fs_bound_def demo_listener_def ul_identity_def)
  from verify_or_rebind_restores [OF fs.socket_namespace_axioms demo_verify_unlinked this]
  show ?thesis by (simp add: demo_listener_def)
qed



end
