(* ===== verification/Client_Loop.thy ===== *)
theory Client_Loop
  imports Session_Gate Client_Session Unix_Socket Options
begin

section \<open>The client's accept loop (src/client.rs, lines 114 to 164)\<close>

text \<open>
  \<open>run_client_until\<close>: TLS configuration, server name, owned Unix listener, connection limit, then
  the \<open>select!\<close> loop with its monitor of the socket path, and the drain.  \<open>client_on\<close> is what
  the client does when one branch wins, and what happens to its state from outside.
\<close>

record ('w, 'rd, 'cert, 'key, 'roots, 'n, 'lis) client_host =
  ch_tls :: "('w, 'rd, 'cert, 'key, 'roots) tls_ops"
  ch_server_name :: "rstr \<Rightarrow> ('n, rstr) result"
  ch_sockets :: "('w, 'lis) socket_ops"

record ('roots, 'cert, 'key, 'n) client_context =
  cx_connector :: "('roots, 'cert, 'key) tls_config"
  cx_name :: 'n
  cx_address :: rstr

text \<open>A session task holds what the spawned block moves in: the arguments of \<open>relay_session\<close>.\<close>

record ('st, 'roots, 'cert, 'key, 'n, 'r) client_task =
  ct_session_id :: u64
  ct_local :: 'st
  ct_connector :: "('roots, 'cert, 'key) tls_config"
  ct_name :: 'n
  ct_address :: rstr
  ct_shutdown :: 'r

text \<open>The loop's state: the shared part, the id counter, the listener, the world, the result.\<close>

record ('sem, 'js, 'c, 'r, 'lis, 'w) client_state = "('sem, 'js, 'c, 'r) loop_state" +
  cl_session_ids :: u64
  cl_listener :: "'lis owned_unix_listener"
  cl_world :: 'w
  cl_result :: "(unit, io_error) result option"

definition client_startup ::
  "('w, 'rd, 'cert, 'key, 'roots, 'n, 'lis) client_host \<Rightarrow> ('sem, 'js, 'k, 'c, 'r) runtime_ops \<Rightarrow>
   client_options \<Rightarrow> 'c \<Rightarrow> 'r \<Rightarrow> 'w \<Rightarrow>
     ((('roots, 'cert, 'key, 'n) client_context \<times> ('sem, 'js, 'c, 'r, 'lis, 'w) client_state,
       io_error) result option) \<times> 'w" where
  "client_startup host rt options channel shutdown w =
     (case bind_io (map_err_io (\<lambda>e. io_error_other (tls_error_display e))
               (client_config (ch_tls host) (co_server_ca_cert options) (co_client_cert options)
                  (co_client_key options))) (\<lambda>config.
             bind_io (return_io (map_err (io_error_new InvalidInput)
               (ch_server_name host (co_server_name options)))) (\<lambda>name.
             bind_io (bind_socket (ch_sockets host) (co_listen_socket options)) (\<lambda>listener.
             return_io (Ok (config, name, listener))))) w of
        (Err e, w1) \<Rightarrow> (Some (Err e), w1)
      | (Ok (config, name, listener), w1) \<Rightarrow>
          (case loop_start rt (unat (co_max_connections options)) channel shutdown of
             None \<Rightarrow> (None, drop_listener (ch_sockets host) listener w1)
           | Some s \<Rightarrow>
               (Some (Ok (\<lparr>cx_connector = config, cx_name = name,
                           cx_address = co_server_address options\<rparr>,
                  loop_state.extend s \<lparr>cl_session_ids = 1, cl_listener = listener, cl_world = w1,
                    cl_result = None\<rparr>)), w1)))"

text \<open>
  An admitted session takes the next id.  When the function returns, the tasks are aborted and
  the listener is dropped.
\<close>

definition client_admit ::
  "('sem, 'js, ('st, 'roots, 'cert, 'key, 'n, 'r) client_task, 'c, 'r) runtime_ops \<Rightarrow>
   ('roots, 'cert, 'key, 'n) client_context \<Rightarrow> 'st \<Rightarrow> ('sem, 'js, 'c, 'r, 'lis, 'w) client_state \<Rightarrow>
     ('sem, 'js, 'c, 'r, 'lis, 'w) client_state" where
  "client_admit rt ctx stream s =
     (let s' = admit rt \<lparr>ct_session_id = cl_session_ids s, ct_local = stream,
            ct_connector = cx_connector ctx, ct_name = cx_name ctx, ct_address = cx_address ctx,
            ct_shutdown = l_receiver s\<rparr> s
      in if sm_try_acquire (rt_semaphore rt) (l_permits s) = None then s'
         else s'\<lparr>cl_session_ids := cl_session_ids s + 1\<rparr>)"

definition client_return ::
  "('w, 'rd, 'cert, 'key, 'roots, 'n, 'lis) client_host \<Rightarrow> ('sem, 'js, 'k, 'c, 'r) runtime_ops \<Rightarrow>
   (unit, io_error) result \<Rightarrow> ('sem, 'js, 'c, 'r, 'lis, 'w) client_state \<Rightarrow>
     ('sem, 'js, 'c, 'r, 'lis, 'w) client_state" where
  "client_return host rt result s =
     (abort_sessions rt s)
       \<lparr>cl_world := drop_listener (ch_sockets host) (cl_listener s) (cl_world s),
        cl_result := Some result\<rparr>"

definition monitor_tick ::
  "('w, 'rd, 'cert, 'key, 'roots, 'n, 'lis) client_host \<Rightarrow> ('sem, 'js, 'k, 'c, 'r) runtime_ops \<Rightarrow>
   ('sem, 'js, 'c, 'r, 'lis, 'w) client_state \<Rightarrow> ('sem, 'js, 'c, 'r, 'lis, 'w) client_state" where
  "monitor_tick host rt s =
     (case verify_or_rebind (ch_sockets host) (cl_listener s) (cl_world s) of
        (Ok _, listener, w) \<Rightarrow> s\<lparr>cl_listener := listener, cl_world := w\<rparr>
      | (Err e, listener, w) \<Rightarrow>
          client_return host rt (Err e) (s\<lparr>cl_listener := listener, cl_world := w\<rparr>))"

datatype ('st, 'k, 'w) client_event =
    ClientShutdown
  | ClientTick
  | ClientAccepted "('st, io_error) result"
  | ClientJoined bool
  | ClientDrained
  | ClientDrainOver bool
  | ClientTaskEnds 'k
  | ClientSignalled bool
  | ClientSenderDropped
  | ClientWorld 'w

text \<open>\<open>ClientWorld w\<close>: the sessions and other processes change the world outside the loop.\<close>

fun client_on ::
  "('w, 'rd, 'cert, 'key, 'roots, 'n, 'lis) client_host \<Rightarrow>
   ('sem, 'js, ('st, 'roots, 'cert, 'key, 'n, 'r) client_task, 'c, 'r) runtime_ops \<Rightarrow>
   ('roots, 'cert, 'key, 'n) client_context \<Rightarrow>
   ('st, ('st, 'roots, 'cert, 'key, 'n, 'r) client_task, 'w) client_event \<Rightarrow>
   ('sem, 'js, 'c, 'r, 'lis, 'w) client_state \<Rightarrow>
     ('sem, 'js, 'c, 'r, 'lis, 'w) client_state option" where
  "client_on host rt ctx ClientShutdown s =
     (if l_phase s = Accepting then shutdown_branch rt s else None)"
| "client_on host rt ctx ClientTick s =
     (if l_phase s = Accepting then Some (monitor_tick host rt s) else None)"
| "client_on host rt ctx (ClientAccepted (Ok stream)) s =
     (if l_phase s = Accepting then Some (client_admit rt ctx stream s) else None)"
| "client_on host rt ctx (ClientAccepted (Err e)) s =
     (if l_phase s = Accepting then Some (warn (AcceptFailed e) s) else None)"
| "client_on host rt ctx (ClientJoined panicked) s =
     (if l_phase s = Accepting then join_branch rt panicked s else None)"
| "client_on host rt ctx ClientDrained s =
     (if l_phase s = Draining then drain_one rt s else None)"
| "client_on host rt ctx (ClientDrainOver timed_out) s =
     (if l_phase s = Draining \<and> (timed_out \<or> js_is_empty (rt_join_set rt) (l_sessions s))
      then Some (client_return host rt (Ok ()) s) else None)"
| "client_on host rt ctx (ClientTaskEnds task) s =
     (if l_phase s \<noteq> Stopped then task_ends rt task s else None)"
| "client_on host rt ctx (ClientSignalled v) s =
     Some (s\<lparr>l_channel := wt_send (rt_watch rt) v (l_channel s)\<rparr>)"
| "client_on host rt ctx ClientSenderDropped s =
     Some (s\<lparr>l_channel := wt_drop_sender (rt_watch rt) (l_channel s)\<rparr>)"
| "client_on host rt ctx (ClientWorld w) s = Some (s\<lparr>cl_world := w\<rparr>)"

inductive client_step ::
  "('w, 'rd, 'cert, 'key, 'roots, 'n, 'lis) client_host \<Rightarrow>
   ('sem, 'js, ('st, 'roots, 'cert, 'key, 'n, 'r) client_task, 'c, 'r) runtime_ops \<Rightarrow>
   ('roots, 'cert, 'key, 'n) client_context \<Rightarrow>
   ('sem, 'js, 'c, 'r, 'lis, 'w) client_state \<Rightarrow>
   ('sem, 'js, 'c, 'r, 'lis, 'w) client_state \<Rightarrow> bool"
  for host rt ctx where
  event: "client_on host rt ctx ev s = Some s' \<Longrightarrow> client_step host rt ctx s s'"

inductive_cases client_stepE: "client_step host rt ctx s s'"

text \<open>The whole function, as the results it can return.\<close>

inductive run_client_until ::
  "('w, 'rd, 'cert, 'key, 'roots, 'n, 'lis) client_host \<Rightarrow>
   ('sem, 'js, ('st, 'roots, 'cert, 'key, 'n, 'r) client_task, 'c, 'r) runtime_ops \<Rightarrow>
   client_options \<Rightarrow> 'c \<Rightarrow> 'r \<Rightarrow> 'w \<Rightarrow> (unit, io_error) result \<Rightarrow> bool"
  for host rt options channel shutdown w where
  startup_fails: "client_startup host rt options channel shutdown w = (Some (Err e), w') \<Longrightarrow>
     run_client_until host rt options channel shutdown w (Err e)"
| stopped: "client_startup host rt options channel shutdown w = (Some (Ok (ctx, s0)), w') \<Longrightarrow>
     (client_step host rt ctx)\<^sup>*\<^sup>* s0 s \<Longrightarrow> cl_result s = Some r \<Longrightarrow>
     run_client_until host rt options channel shutdown w r"

fun client_run ::
  "('w, 'rd, 'cert, 'key, 'roots, 'n, 'lis) client_host \<Rightarrow>
   ('sem, 'js, ('st, 'roots, 'cert, 'key, 'n, 'r) client_task, 'c, 'r) runtime_ops \<Rightarrow>
   ('roots, 'cert, 'key, 'n) client_context \<Rightarrow>
   ('st, ('st, 'roots, 'cert, 'key, 'n, 'r) client_task, 'w) client_event list \<Rightarrow>
   ('sem, 'js, 'c, 'r, 'lis, 'w) client_state \<Rightarrow>
     ('sem, 'js, 'c, 'r, 'lis, 'w) client_state option" where
  "client_run host rt ctx [] s = Some s"
| "client_run host rt ctx (ev # evs) s =
     (case client_on host rt ctx ev s of
        None \<Rightarrow> None
      | Some s' \<Rightarrow> client_run host rt ctx evs s')"

lemma client_run_steps:
  "client_run host rt ctx evs s = Some s' \<Longrightarrow> (client_step host rt ctx)\<^sup>*\<^sup>* s s'"
  by (induction evs arbitrary: s)
     (auto split: option.splits intro: converse_rtranclp_into_rtranclp client_step.event)


subsection \<open>The loop keeps the invariant and implements the gate\<close>

locale client_runtime =
  loop_runtime rt available running finished version closed seen ct_shutdown
  for rt :: "('sem, 'js, ('st, 'roots, 'cert, 'key, 'n, 'r) client_task, 'c, 'r) runtime_ops"
    and available running finished version closed seen
begin

lemma own_fields_inv [simp]:
  fixes s :: "('sem, 'js, 'c, 'r, 'lis, 'w) client_state"
  shows "loop_inv limit (s\<lparr>cl_session_ids := i\<rparr>) = loop_inv limit s"
    and "loop_inv limit (s\<lparr>cl_listener := l\<rparr>) = loop_inv limit s"
    and "loop_inv limit (s\<lparr>cl_world := w\<rparr>) = loop_inv limit s"
    and "loop_inv limit (s\<lparr>cl_result := r\<rparr>) = loop_inv limit s"
  by (simp_all add: loop_inv_def)

lemma own_fields_gate [simp]:
  fixes s :: "('sem, 'js, 'c, 'r, 'lis, 'w) client_state"
  shows "abs_gate (s\<lparr>cl_session_ids := i\<rparr>) = abs_gate s"
    and "abs_gate (s\<lparr>cl_listener := l\<rparr>) = abs_gate s"
    and "abs_gate (s\<lparr>cl_world := w\<rparr>) = abs_gate s"
    and "abs_gate (s\<lparr>cl_result := r\<rparr>) = abs_gate s"
  by (simp_all add: abs_gate_def)

lemma client_admit_inv:
  "loop_inv limit s \<Longrightarrow> l_phase s = Accepting \<Longrightarrow> loop_inv limit (client_admit rt ctx stream s)"
  by (simp add: client_admit_def Let_def admit_inv)

lemma client_admit_gate:
  "loop_inv limit s \<Longrightarrow> l_phase s = Accepting \<Longrightarrow>
     gate_step limit (abs_gate s) (abs_gate (client_admit rt ctx stream s))"
  by (simp add: client_admit_def Let_def admit_gate)

lemma client_return_inv: "loop_inv limit (client_return host rt r s)"
  by (simp add: client_return_def abort_inv)

lemma client_return_gate:
  "l_phase s \<noteq> Stopped \<Longrightarrow> gate_step limit (abs_gate s) (abs_gate (client_return host rt r s))"
  by (simp add: client_return_def abort_gate)

lemma monitor_tick_inv: "loop_inv limit s \<Longrightarrow> loop_inv limit (monitor_tick host rt s)"
  by (auto simp: monitor_tick_def client_return_inv split: prod.splits result.splits)

lemma monitor_tick_gate:
  assumes "l_phase s \<noteq> Stopped"
  shows "gate_step limit (abs_gate s) (abs_gate (monitor_tick host rt s))"
proof -
  have "gate_step limit (abs_gate s)
      (abs_gate (client_return host rt r (s\<lparr>cl_listener := l, cl_world := w\<rparr>)))" for r l w
    using client_return_gate [of "s\<lparr>cl_listener := l, cl_world := w\<rparr>"] assms by simp
  then show ?thesis
    by (auto simp: monitor_tick_def split: prod.splits result.splits)
qed

lemma client_on_inv:
  assumes "client_on host rt ctx ev s = Some s'" "loop_inv limit s"
  shows "loop_inv limit s'"
proof (cases ev)
  case ClientShutdown
  with assms shutdown_branch_inv show ?thesis by (simp split: if_splits)
next
  case ClientTick
  with assms monitor_tick_inv show ?thesis by (auto split: if_splits)
next
  case (ClientAccepted r)
  with assms show ?thesis by (cases r) (auto simp: client_admit_inv split: if_splits)
next
  case (ClientJoined panicked)
  with assms join_branch_inv show ?thesis by (simp split: if_splits)
next
  case ClientDrained
  with assms drain_one_inv show ?thesis by (simp split: if_splits)
next
  case (ClientDrainOver timed_out)
  with assms show ?thesis by (auto simp: client_return_inv split: if_splits)
next
  case (ClientTaskEnds task)
  with assms task_ends_inv show ?thesis by (simp split: if_splits)
qed (use assms in \<open>auto simp: send_inv drop_inv\<close>)

lemma client_on_gate:
  assumes "client_on host rt ctx ev s = Some s'" "loop_inv limit s"
  shows "gate_step limit (abs_gate s) (abs_gate s')"
proof (cases ev)
  case ClientShutdown
  with assms shutdown_branch_gate show ?thesis by (simp split: if_splits)
next
  case ClientTick
  with assms monitor_tick_gate [of s] show ?thesis by (auto split: if_splits)
next
  case (ClientAccepted r)
  with assms show ?thesis by (cases r) (auto simp: client_admit_gate split: if_splits)
next
  case (ClientJoined panicked)
  with assms join_branch_gate show ?thesis by (simp split: if_splits)
next
  case ClientDrained
  with assms drain_one_gate show ?thesis by (simp split: if_splits)
next
  case (ClientDrainOver timed_out)
  with assms client_return_gate [of s] show ?thesis by (auto split: if_splits)
next
  case (ClientTaskEnds task)
  with assms task_ends_gate show ?thesis by (simp split: if_splits)
qed (use assms in \<open>auto simp: channel_gate\<close>)

lemma client_steps:
  assumes "(client_step host rt ctx)\<^sup>*\<^sup>* s s'" "loop_inv limit s"
  shows "loop_inv limit s' \<and> (gate_step limit)\<^sup>*\<^sup>* (abs_gate s) (abs_gate s')"
  using assms(1)
proof (induction rule: rtranclp_induct)
  case base
  with assms(2) show ?case by simp
next
  case (step t u)
  from step(2) obtain ev where ev: "client_on host rt ctx ev t = Some u" by (rule client_stepE)
  with step(3) client_on_inv [OF ev] client_on_gate [OF ev] show ?case
    by (auto intro: rtranclp.rtrancl_into_rtrancl)
qed

lemma client_startup_start:
  assumes "client_startup host rt options c r w = (Some (Ok (ctx, s0)), w')"
  shows "loop_inv (unat (co_max_connections options)) s0 \<and> abs_gate s0 = (Accepting, 0)"
proof -
  from assms obtain s l where
      s: "loop_start rt (unat (co_max_connections options)) c r = Some s"
    and s0: "s0 = loop_state.extend s
      \<lparr>cl_session_ids = 1, cl_listener = l, cl_world = w', cl_result = None\<rparr>"
    by (auto simp: client_startup_def split: prod.splits result.splits option.splits)
  have "loop_inv n s0 = loop_inv n s" "abs_gate s0 = abs_gate s" for n
    by (simp_all add: s0 loop_inv_def abs_gate_def loop_state.defs)
  with start_inv [OF s] start_gate [OF s] show ?thesis by simp
qed

lemma client_reachable:
  assumes "client_startup host rt options c r w = (Some (Ok (ctx, s0)), w')"
    and "(client_step host rt ctx)\<^sup>*\<^sup>* s0 s"
  shows "loop_inv (unat (co_max_connections options)) s \<and>
    (gate_step (unat (co_max_connections options)))\<^sup>*\<^sup>* (Accepting, 0)
      (l_phase s, size (running (l_sessions s)))"
  using client_steps [OF assms(2)] client_startup_start [OF assms(1)]
  by (simp add: abs_gate_def)

end

interpretation client_rt: client_runtime demo_runtime "\<lambda>s. s" "\<lambda>js. mset (fst js)"
    "\<lambda>js. mset (snd js)" wc_version wc_closed "\<lambda>r. r"
  by unfold_locales


subsection \<open>A demonstration run\<close>

definition demo_client_host :: "(sim_fs, pem_item list, nat, nat, nat list, rstr, u64 \<times> u64) client_host" where
  "demo_client_host = \<lparr>ch_tls = disk_ops demo_disk, ch_server_name = Ok, ch_sockets = fs_ops\<rparr>"

definition demo_client_options :: client_options where
  "demo_client_options = \<lparr>co_listen_socket = ''/s'', co_server_address = lit ''host:8443'',
     co_server_name = lit ''host'', co_server_ca_cert = ''ca'', co_client_cert = ''cert'',
     co_client_key = ''key'', co_max_connections = 1\<rparr>"

definition demo_client_context :: "(nat list, nat, nat, rstr) client_context" where
  "demo_client_context = \<lparr>cx_connector = \<lparr>tc_versions = [TLS13], tc_peer = ServerRoots [1],
     tc_chain = [7], tc_key = 7, tc_alpn = [ALPN_PROTOCOL]\<rparr>, cx_name = lit ''host'',
     cx_address = lit ''host:8443''\<rparr>"

type_synonym demo_client_task = "(string, nat list, nat, nat, rstr, nat) client_task"

definition demo_client_task :: demo_client_task where
  "demo_client_task = \<lparr>ct_session_id = 1, ct_local = ''a'',
     ct_connector = cx_connector demo_client_context, ct_name = lit ''host'',
     ct_address = lit ''host:8443'', ct_shutdown = 0\<rparr>"

definition demo_client ::
  "nat \<Rightarrow> demo_client_task list \<Rightarrow> watch_chan \<Rightarrow> nat \<Rightarrow> loop_phase \<Rightarrow> loop_warning list \<Rightarrow> u64 \<Rightarrow>
   sim_fs \<Rightarrow>
     (nat, demo_client_task list \<times> demo_client_task list, watch_chan, nat, u64 \<times> u64, sim_fs)
       client_state" where
  "demo_client permits tasks chan rx phase log next_id fs = \<lparr>l_permits = permits,
     l_sessions = (tasks, []), l_channel = chan, l_receiver = rx, l_phase = phase, l_log = log,
     cl_session_ids = next_id, cl_listener = demo_listener, cl_world = fs, cl_result = None\<rparr>"

definition demo_channel :: watch_chan where
  "demo_channel = \<lparr>wc_version = 0, wc_closed = False\<rparr>"

lemma demo_client_start:
  "client_startup demo_client_host demo_runtime demo_client_options
     \<lparr>wc_version = 0, wc_closed = False\<rparr> 0 (demo_fs (Some demo_socket) False) =
   (Some (Ok (demo_client_context,
      demo_client 1 [] \<lparr>wc_version = 0, wc_closed = False\<rparr> 0 Accepting [] 1 demo_fs_bound)),
    demo_fs_bound)"
  by (simp add: client_startup_def demo_client_host_def demo_client_options_def bind_io_def
      map_err_io_def return_io_def demo_client_config demo_bind_stale loop_start_def
      demo_runtime_defs MAX_PERMITS_def demo_client_context_def demo_client_def loop_state.defs)

lemma demo_client_run:
  "(client_step demo_client_host demo_runtime demo_client_context)\<^sup>*\<^sup>*
     (demo_client 1 [] \<lparr>wc_version = 0, wc_closed = False\<rparr> 0 Accepting [] 1 demo_fs_bound)
     (demo_client 0 [demo_client_task] \<lparr>wc_version = 0, wc_closed = True\<rparr> 0 Draining
        [LimitReached] 2 demo_fs_bound)"
  by (rule client_run_steps [where evs = "[ClientAccepted (Ok ''a''), ClientAccepted (Ok ''b''),
        ClientSenderDropped, ClientShutdown]"])
     (simp add: demo_runtime_defs demo_client_def demo_client_task_def client_admit_def Let_def
       admit_def warn_def shutdown_branch_def demo_client_context_def)


subsection \<open>Properties\<close>

text \<open>C25: the client's loop implements the same gate, with the limit of its options, and with the
  monitor among its branches; and once it drains, every session that is still running finds the
  shutdown signal.\<close>

theorem client_implements_gate:
  assumes "client_runtime rt available running finished version closed seen"
    and "client_startup host rt options channel receiver w = (Some (Ok (ctx, s0)), w')"
    and "(client_step host rt ctx)\<^sup>*\<^sup>* s0 s"
  shows "(gate_step (unat (co_max_connections options)))\<^sup>*\<^sup>* (Accepting, 0)
       (l_phase s, size (running (l_sessions s))) \<and>
     size (running (l_sessions s)) \<le> unat (co_max_connections options) \<and>
     (l_phase s = Draining \<longrightarrow> (\<forall>task \<in># running (l_sessions s).
        wt_changed (rt_watch rt) (l_channel s) (ct_shutdown task) \<noteq> None))"
proof -
  have run: "loop_runtime rt available running finished version closed seen"
    using assms(1) by (simp add: client_runtime_def)
  note reach = client_runtime.client_reachable [OF assms]
  note signalled = loop_runtime.inv_signalled [OF run reach [THEN conjunct1]]
  have "size (running (l_sessions s)) \<le> unat (co_max_connections options)"
    using gate_steps_bounded [OF reach [THEN conjunct2]] by simp
  with reach signalled show ?thesis by blast
qed

theorem client_implements_gate_witness:
  "(gate_step 1)\<^sup>*\<^sup>* (Accepting, 0) (Draining, 1) \<and>
   wt_changed versioned_watch \<lparr>wc_version = 0, wc_closed = True\<rparr> (ct_shutdown demo_client_task) \<noteq> None"
  using client_implements_gate [OF client_rt.client_runtime_axioms demo_client_start demo_client_run]
  by (simp add: demo_client_def demo_client_options_def demo_runtime_def)


text \<open>C26: what the monitor guarantees.  After a tick the client either still accepts, with its
  sessions untouched and its listener owning its path, or it has returned an error, with every
  session aborted and the listener closed; and when the path had been taken by another owner, the
  file system is as that owner left it.\<close>

theorem monitor_tick_keeps_or_stops:
  assumes "socket_namespace (ch_sockets host) node live listener_id"
    and "client_runtime rt available running finished version closed seen"
    and "client_on host rt ctx ClientTick s = Some s'"
    and "live (cl_world s) (ul_identity (cl_listener s))"
    and "listener_id (ul_listener (cl_listener s)) = ul_identity (cl_listener s)"
  shows "(l_phase s' = Accepting \<and> l_sessions s' = l_sessions s \<and> cl_result s' = cl_result s \<and>
       ul_path (cl_listener s') = ul_path (cl_listener s) \<and>
       live (cl_world s') (ul_identity (cl_listener s')) \<and>
       (\<exists>st. node (cl_world s') (ul_path (cl_listener s)) = Some st \<and> owns (cl_listener s') st)) \<or>
     (l_phase s' = Stopped \<and> running (l_sessions s') = {#} \<and> (\<exists>e. cl_result s' = Some (Err e)) \<and>
       \<not> live (cl_world s') (ul_identity (cl_listener s)) \<and>
       (\<forall>st. node (cl_world s) (ul_path (cl_listener s)) = Some st \<longrightarrow>
          \<not> owns (cl_listener s) st \<longrightarrow> node (cl_world s') = node (cl_world s)))"
proof -
  have accepting: "l_phase s = Accepting" and s': "s' = monitor_tick host rt s"
    using assms(3) by (auto split: if_splits)
  obtain r l w where v: "verify_or_rebind (ch_sockets host) (cl_listener s) (cl_world s) = (r, l, w)"
    by (metis prod_cases3)
  have abort: "running (js_abort_all (rt_join_set rt) js) = {#}" for js
    using assms(2) by (auto simp: client_runtime_def loop_runtime_def intro: join_set.abort_running)
  show ?thesis
  proof (cases r)
    case (Ok u)
    with v have "verify_or_rebind (ch_sockets host) (cl_listener s) (cl_world s) = (Ok (), l, w)"
      by simp
    from socket_namespace.verify_or_rebind_owned [OF assms(1) this assms(4,5)] assms(4)
    have "ul_path l = ul_path (cl_listener s) \<and> live w (ul_identity l) \<and>
        (\<exists>st. node w (ul_path (cl_listener s)) = Some st \<and> owns l st)"
      by (auto simp: owned_in_def split: option.splits)
    with accepting v Ok show ?thesis by (simp add: s' monitor_tick_def)
  next
    case (Err e)
    note dropped = socket_namespace.drop_listener_cases [OF assms(1), of "cl_listener s" w]
      socket_namespace.verify_then_drop_foreign [OF assms(1) _ _ v]
    from Err v socket_namespace.verify_or_rebind_Err [OF assms(1)] have "l = cl_listener s" by blast
    with v Err dropped assms(5) show ?thesis
      by (auto simp: s' monitor_tick_def client_return_def abort_sessions_def abort)
  qed
qed

text \<open>The path of the demonstration listener taken by another socket.\<close>

definition demo_fs_taken :: sim_fs where
  "demo_fs_taken = (demo_fs (Some demo_socket) True)\<lparr>fs_live := (\<lambda>i. True)\<rparr>"

theorem monitor_tick_keeps_or_stops_witness:
  "\<exists>s' e. client_on demo_client_host demo_runtime demo_client_context ClientTick
       (demo_client 1 [] demo_channel 0 Accepting [] 1 demo_fs_taken) = Some s' \<and>
     cl_result s' = Some (Err e) \<and> fs_nodes (cl_world s') = fs_nodes demo_fs_taken"
proof -
  let ?s = "demo_client 1 [] demo_channel 0 Accepting [] 1 demo_fs_taken"
  have taken: "fs_nodes demo_fs_taken (ul_path demo_listener) = Some demo_socket"
    "\<not> owns demo_listener demo_socket"
    by (simp_all add: demo_fs_taken_def demo_fs_def demo_listener_def demo_socket_def owns_def)
  obtain s' where tick: "client_on demo_client_host demo_runtime demo_client_context ClientTick ?s =
      Some s'"
    by (simp add: demo_client_def)
  have "l_phase s' = Stopped"
    using tick taken by (auto simp: demo_client_def monitor_tick_def verify_or_rebind_def
        demo_client_host_def fs_defs client_return_def abort_sessions_def)
  with monitor_tick_keeps_or_stops [OF _ client_rt.client_runtime_axioms tick,
      of fs_nodes fs_live "\<lambda>l. l"] taken tick
  show ?thesis
    by (auto simp: demo_client_host_def fs.socket_namespace_axioms demo_client_def
        demo_fs_taken_def demo_listener_def ul_identity_def)
qed

end
