(* ===== verification/Main_Cmd.thy ===== *)
theory Main_Cmd
  imports Windows_Renewal Windows_Log Client_Loop
begin

section \<open>The command line program (src/main.rs)\<close>

text \<open>
  From parsed arguments to the options of the two roles and the function that is run.  Parsing is
  the \<open>clap\<close> library's; \<open>unix_args_ok\<close> and \<open>windows_args_ok\<close> state what its declared
  constraints promise.  A result of \<open>None\<close> is a panic.  The functions that are run are parameters.
\<close>

record server_args_files =
  sa_client_ca_cert :: path
  sa_server_cert :: path
  sa_server_key :: path
  sa_max_connections :: usize

record unix_server_args = server_args_files +
  ua_listen_address :: socket_addr
  ua_agent_extra_socket :: "path option"
  ua_agent_socket :: "path option"

record windows_server_args = server_args_files +
  wa_listen_address :: "socket_addr option"
  wa_tailscale_listen_port :: "u16 option"
  wa_agent_extra_socket :: path
  wa_log_path :: path

record client_args =
  ca_listen_socket :: path
  ca_server_address :: rstr
  ca_server_name :: rstr
  ca_server_ca_cert :: path
  ca_client_cert :: path
  ca_client_key :: path
  ca_max_connections :: usize

record windows_renewal_args =
  ra_renewal_script :: path
  ra_step_executable :: path
  ra_ca_url :: rstr
  ra_root_ca_cert :: path
  ra_server_cert :: path
  ra_server_key :: path
  ra_expected_dns_name :: rstr
  ra_bridge_service_name :: rstr
  ra_log_path :: path
  ra_renewal_interval_seconds :: u64

text \<open>\<open>required_unless_present\<close> and \<open>conflicts_with\<close>: exactly one of the two is given.\<close>

definition unix_args_ok :: "unix_server_args \<Rightarrow> bool" where
  "unix_args_ok a \<longleftrightarrow> (ua_agent_extra_socket a = None) = (ua_agent_socket a \<noteq> None)"

definition windows_args_ok :: "windows_server_args \<Rightarrow> bool" where
  "windows_args_ok a \<longleftrightarrow> (wa_listen_address a = None) = (wa_tailscale_listen_port a \<noteq> None)"

definition unix_server_options ::
  "unix_server_args \<Rightarrow> (server_options, config_error) result option" where
  "unix_server_options options =
     map_option (\<lambda>agent.
         server_options_new_with_agent (ua_listen_address options) agent (sa_client_ca_cert options)
           (sa_server_cert options) (sa_server_key options) (sa_max_connections options))
       (case ua_agent_socket options of
          Some socket \<Rightarrow> Some (UnixSocket socket)
        | None \<Rightarrow> map_option Gpg4winRedirect (ua_agent_extra_socket options))"

definition windows_server_options ::
  "windows_server_args \<Rightarrow> (server_options \<times> u16 option, config_error) result option" where
  "windows_server_options options =
     (let tailscale_listen_port = wa_tailscale_listen_port options
      in map_option (\<lambda>listen_address.
             map_ok (\<lambda>o'. (o', tailscale_listen_port))
               (server_options_new_with_agent listen_address
                 (Gpg4winRedirect (wa_agent_extra_socket options)) (sa_client_ca_cert options)
                 (sa_server_cert options) (sa_server_key options) (sa_max_connections options)))
           (case (wa_listen_address options, tailscale_listen_port) of
              (Some address, None) \<Rightarrow> Some address
            | (None, Some port) \<Rightarrow> Some (SocketAddrV4 (0, 0, 0, 0) port)
            | _ \<Rightarrow> None))"

definition client_args_options :: "client_args \<Rightarrow> (client_options, config_error) result" where
  "client_args_options options =
     client_options_new (ca_listen_socket options) (ca_server_address options)
       (ca_server_name options) (ca_server_ca_cert options) (ca_client_cert options)
       (ca_client_key options) (ca_max_connections options)"

definition renewal_args_options :: "windows_renewal_args \<Rightarrow> renewal_options" where
  "renewal_args_options options =
     \<lparr>rn_renewal_script = ra_renewal_script options, rn_step_executable = ra_step_executable options,
      rn_ca_url = ra_ca_url options, rn_root_ca_cert = ra_root_ca_cert options,
      rn_server_cert = ra_server_cert options, rn_server_key = ra_server_key options,
      rn_expected_dns_name = ra_expected_dns_name options,
      rn_bridge_service_name = ra_bridge_service_name options, rn_log_path = ra_log_path options,
      rn_renewal_interval = from_secs (unat (ra_renewal_interval_seconds options))\<rparr>"

text \<open>
  Where the service logs by default: beside the program, or in the current directory when the
  program's path or its directory is not known.  \<open>current_exe\<close>, \<open>parent\<close> and \<open>join\<close> are the
  platform's.
\<close>

definition default_windows_service_log_path ::
  "(path, io_error) result \<Rightarrow> (path \<Rightarrow> path option) \<Rightarrow> (path \<Rightarrow> path \<Rightarrow> path) \<Rightarrow> path" where
  "default_windows_service_log_path current_exe parent join =
     (case (case current_exe of
              Ok p \<Rightarrow> map_option (\<lambda>directory. join directory ''gpg-bridge.log'') (parent p)
            | Err _ \<Rightarrow> None) of
        Some p \<Rightarrow> p
      | None \<Rightarrow> ''gpg-bridge.log'')"

datatype main_error =
    MainConfig config_error
  | MainTailscale tailscale_error
  | MainServer server_error
  | MainClient io_error
  | MainService service_error
  | MainLog io_error

datatype unix_command = UnixServer unix_server_args | UnixClient client_args

datatype windows_command =
    WindowsServer windows_server_args
  | WindowsService windows_server_args
  | WindowsRenewalService windows_renewal_args

fun main_unix ::
  "(server_options \<Rightarrow> ('w, unit, server_error) io) \<Rightarrow> (client_options \<Rightarrow> ('w, unit, io_error) io) \<Rightarrow>
   unix_command \<Rightarrow> 'w \<Rightarrow> ((unit, main_error) result \<times> 'w) option" where
  "main_unix server client (UnixServer args) w =
     map_option (\<lambda>options.
         bind_io (return_io (map_err MainConfig options))
           (\<lambda>o'. map_err_io MainServer (server o')) w)
       (unix_server_options args)"
| "main_unix server client (UnixClient args) w =
     Some (bind_io (return_io (map_err MainConfig (client_args_options args)))
       (\<lambda>o'. map_err_io MainClient (client o')) w)"

text \<open>
  On Windows the two service hosts log to a file, which is opened first; the console server
  resolves the Tailscale address itself, the service host after its registration.
\<close>

record 'w windows_program =
  wp_log_init :: "path \<Rightarrow> rstr \<Rightarrow> ('w, unit, io_error) io"
  wp_listen_address :: "u16 \<Rightarrow> ('w, socket_addr, tailscale_error) io"
  wp_run_server :: "server_options \<Rightarrow> ('w, unit, server_error) io"
  wp_service_run :: "service_options \<Rightarrow> ('w, unit, service_error) io"
  wp_renewal_run :: "renewal_options \<Rightarrow> ('w, unit, service_error) io"

definition resolve_listener ::
  "'w windows_program \<Rightarrow> server_options \<times> u16 option \<Rightarrow> ('w, server_options, main_error) io" where
  "resolve_listener prog options =
     (case options of
        (o', None) \<Rightarrow> return_io (Ok o')
      | (o', Some port) \<Rightarrow>
          bind_io (map_err_io MainTailscale (wp_listen_address prog port))
            (\<lambda>address. return_io (Ok (o'\<lparr>so_listen_address := address\<rparr>))))"

fun main_windows ::
  "'w windows_program \<Rightarrow> windows_command \<Rightarrow> 'w \<Rightarrow> ((unit, main_error) result \<times> 'w) option" where
  "main_windows prog (WindowsServer args) w =
     map_option (\<lambda>options.
         bind_io (return_io (map_err MainConfig options)) (\<lambda>o'.
         bind_io (resolve_listener prog o') (\<lambda>o''.
           map_err_io MainServer (wp_run_server prog o''))) w)
       (windows_server_options args)"
| "main_windows prog (WindowsService args) w =
     (case map_err_io MainLog (wp_log_init prog (wa_log_path args) (lit ''gpg-bridge-service'')) w of
        (Err e, w1) \<Rightarrow> Some (Err e, w1)
      | (Ok _, w1) \<Rightarrow>
          map_option (\<lambda>options.
              bind_io (return_io (map_err MainConfig options)) (\<lambda>(o', port).
                map_err_io MainService (wp_service_run prog
                  \<lparr>sv_server = o', sv_tailscale_listen_port = port\<rparr>)) w1)
            (windows_server_options args))"
| "main_windows prog (WindowsRenewalService args) w =
     Some (bind_io (map_err_io MainLog (wp_log_init prog (ra_log_path args)
           (lit ''gpg-bridge-certificate-renewal-service'')))
       (\<lambda>_. map_err_io MainService (wp_renewal_run prog (renewal_args_options args))) w)"


subsection \<open>Options under the parser's constraints\<close>

lemma unix_server_options_Some_iff: "unix_args_ok a \<Longrightarrow> unix_server_options a \<noteq> None"
  by (auto simp: unix_args_ok_def unix_server_options_def split: option.splits)

lemma windows_server_options_cases:
  assumes "windows_args_ok a"
  obtains (address) address where "wa_listen_address a = Some address"
      "wa_tailscale_listen_port a = None"
    | (port) port where "wa_listen_address a = None" "wa_tailscale_listen_port a = Some port"
  using assms by (cases "wa_listen_address a"; cases "wa_tailscale_listen_port a")
    (auto simp: windows_args_ok_def)

text \<open>The options a Windows server gets before its listener is resolved.\<close>

lemma windows_server_options_Ok:
  assumes "windows_server_options a = Some (Ok (options, port))"
  shows "server_options_ok options \<and> port = wa_tailscale_listen_port a \<and>
    so_agent options = Gpg4winRedirect (wa_agent_extra_socket a) \<and>
    (port = None \<longrightarrow> wa_listen_address a = Some (so_listen_address options))"
  using assms
  by (auto simp: windows_server_options_def Let_def map_ok_Ok_iff server_options_new_with_agent_Ok_iff
      split: option.splits)

lemma resolve_listener_Ok:
  "resolve_listener prog (options, port) w = (Ok options', w') \<longleftrightarrow>
     (case port of
        None \<Rightarrow> options' = options \<and> w' = w
      | Some p \<Rightarrow> \<exists>address. wp_listen_address prog p w = (Ok address, w') \<and>
          options' = options\<lparr>so_listen_address := address\<rparr>)"
  by (auto simp: resolve_listener_def io_splits split: option.splits)


lemma unix_server_options_valid:
  "unix_server_options a = Some (Ok options) \<Longrightarrow> server_options_ok options"
  by (auto simp: unix_server_options_def server_options_new_with_agent_Ok_iff)

lemma windows_server_options_valid:
  "windows_server_options a = Some (Ok (options, port)) \<Longrightarrow> server_options_ok options"
  by (auto simp: windows_server_options_def Let_def map_ok_Ok_iff server_options_new_with_agent_Ok_iff
      split: option.splits)

lemma client_args_options_valid:
  "client_args_options a = Ok options \<Longrightarrow> client_options_ok options"
  by (auto simp: client_args_options_def client_options_new_Ok_iff)

lemma resolve_listener_valid:
  "server_options_ok options \<Longrightarrow> resolve_listener prog (options, port) w = (Ok options', w') \<Longrightarrow>
     server_options_ok options'"
  by (auto simp: resolve_listener_Ok server_options_ok_def split: option.splits)

text \<open>A continuation is run on the values of a successful computation only.\<close>

lemma bind_io_cong_on:
  "(\<And>a w'. m w = (Ok a, w') \<Longrightarrow> k a w' = k' a w') \<Longrightarrow> bind_io m k w = bind_io m k' w"
  by (auto simp: bind_io_def split: prod.splits result.splits)

lemma main_unix_valid:
  assumes "\<And>o' w. server_options_ok o' \<Longrightarrow> server o' w = server' o' w"
    and "\<And>o' w. client_options_ok o' \<Longrightarrow> client o' w = client' o' w"
  shows "main_unix server client cmd w = main_unix server' client' cmd w"
proof (cases cmd)
  case (UnixServer args)
  have "bind_io (return_io (map_err MainConfig options)) (\<lambda>o'. map_err_io MainServer (server o')) w =
      bind_io (return_io (map_err MainConfig options)) (\<lambda>o'. map_err_io MainServer (server' o')) w"
    if "unix_server_options args = Some options" for options
    using unix_server_options_valid [of args] assms(1) that
    by (intro bind_io_cong_on) (auto simp: io_splits map_err_io_def)
  with UnixServer show ?thesis by (cases "unix_server_options args") simp_all
next
  case (UnixClient args)
  show ?thesis
    unfolding UnixClient main_unix.simps option.inject
    using client_args_options_valid [of args] assms(2)
    by (intro bind_io_cong_on) (auto simp: io_splits map_err_io_def)
qed

lemma main_windows_valid:
  assumes "\<And>o' w. server_options_ok o' \<Longrightarrow> wp_run_server prog o' w = server' o' w"
    and "\<And>o' w. server_options_ok (sv_server o') \<Longrightarrow> wp_service_run prog o' w = service' o' w"
  shows "main_windows prog cmd w =
     main_windows (prog\<lparr>wp_run_server := server', wp_service_run := service'\<rparr>) cmd w"
proof (cases cmd)
  case (WindowsServer args)
  have resolve: "resolve_listener (prog\<lparr>wp_run_server := server', wp_service_run := service'\<rparr>) =
      resolve_listener prog"
    by (intro ext) (simp add: resolve_listener_def split: prod.splits option.splits)
  have "bind_io (return_io (map_err MainConfig options)) (\<lambda>o'.
        bind_io (resolve_listener prog o') (\<lambda>o''. map_err_io MainServer (wp_run_server prog o''))) w =
      bind_io (return_io (map_err MainConfig options)) (\<lambda>o'.
        bind_io (resolve_listener prog o') (\<lambda>o''. map_err_io MainServer (server' o''))) w"
    if "windows_server_options args = Some options" for options
  proof (intro bind_io_cong_on)
    fix o1 w1 o2 w2
    assume "return_io (map_err MainConfig options) w = (Ok o1, w1)"
      and "resolve_listener prog o1 w1 = (Ok o2, w2)"
    then have "server_options_ok o2"
      using windows_server_options_valid [of args "fst o1" "snd o1"] that
        resolve_listener_valid [of "fst o1" prog "snd o1" w1 o2 w2]
      by (auto simp: io_splits)
    with assms(1) show "map_err_io MainServer (wp_run_server prog o2) w2 =
        map_err_io MainServer (server' o2) w2"
      by (simp add: map_err_io_def)
  qed
  with WindowsServer resolve show ?thesis by (cases "windows_server_options args") simp_all
next
  case (WindowsService args)
  have "bind_io (return_io (map_err MainConfig options)) (\<lambda>(o', port).
        map_err_io MainService (wp_service_run prog
          \<lparr>sv_server = o', sv_tailscale_listen_port = port\<rparr>)) w1 =
      bind_io (return_io (map_err MainConfig options)) (\<lambda>(o', port).
        map_err_io MainService (service' \<lparr>sv_server = o', sv_tailscale_listen_port = port\<rparr>)) w1"
    if "windows_server_options args = Some options" for options w1
    using windows_server_options_valid [of args] assms(2) that
    by (intro bind_io_cong_on) (auto simp: io_splits map_err_io_def)
  with WindowsService show ?thesis
    by (cases "windows_server_options args") (auto split: prod.splits result.splits)
qed simp


subsection \<open>Properties\<close>

text \<open>C29: only validated options are run.  The program behaves the same with any other server, client
  or service function that agrees with its own on options with non-empty paths, address and name
  and a positive limit: whatever the command line gives, no role is ever started with any other
  options, on either platform.\<close>

theorem commands_run_valid_options:
  assumes "\<And>o' w. server_options_ok o' \<Longrightarrow> server o' w = server' o' w"
    and "\<And>o' w. client_options_ok o' \<Longrightarrow> client o' w = client' o' w"
    and "\<And>o' w. server_options_ok o' \<Longrightarrow> wp_run_server prog o' w = server'' o' w"
    and "\<And>o' w. server_options_ok (sv_server o') \<Longrightarrow> wp_service_run prog o' w = service'' o' w"
  shows "main_unix server client unix_cmd w1 = main_unix server' client' unix_cmd w1 \<and>
     main_windows prog windows_cmd w2 =
       main_windows (prog\<lparr>wp_run_server := server'', wp_service_run := service''\<rparr>) windows_cmd w2"
  by (intro conjI main_unix_valid main_windows_valid assms)

text \<open>The Windows server command.  Under the parser's constraints it never panics, and a server
  that is run has valid options for the Gpg4win agent and listens on the given address or on the
  one that Tailscale reported for the requested port: the placeholder address with which the
  options are first built is never listened on.\<close>

lemma windows_server_listener:
  assumes "windows_args_ok a"
  shows "\<exists>r w'. main_windows prog (WindowsServer a) w = Some (r, w') \<and>
     (r = Ok () \<longrightarrow> (\<exists>options w1. wp_run_server prog options w1 = (Ok (), w') \<and>
        server_options_ok options \<and> so_agent options = Gpg4winRedirect (wa_agent_extra_socket a) \<and>
        (case wa_tailscale_listen_port a of
           None \<Rightarrow> wa_listen_address a = Some (so_listen_address options) \<and> w1 = w
         | Some port \<Rightarrow> wp_listen_address prog port w = (Ok (so_listen_address options), w1))))"
proof -
  obtain o1 where o1: "windows_server_options a = Some o1"
    using assms by (cases rule: windows_server_options_cases) (auto simp: windows_server_options_def)
  obtain r w' where run: "main_windows prog (WindowsServer a) w = Some (r, w')"
    using o1 by (cases "main_windows prog (WindowsServer a) w") auto
  have "\<exists>options w1. wp_run_server prog options w1 = (Ok (), w') \<and>
        server_options_ok options \<and> so_agent options = Gpg4winRedirect (wa_agent_extra_socket a) \<and>
        (case wa_tailscale_listen_port a of
           None \<Rightarrow> wa_listen_address a = Some (so_listen_address options) \<and> w1 = w
         | Some port \<Rightarrow> wp_listen_address prog port w = (Ok (so_listen_address options), w1))"
    if "r = Ok ()"
  proof -
    from run o1 that obtain options port options' w1 where ok: "o1 = Ok (options, port)"
      and listener: "resolve_listener prog (options, port) w = (Ok options', w1)"
      and server: "wp_run_server prog options' w1 = (Ok (), w')"
      by (auto simp: io_splits)
    from windows_server_options_Ok [of a options port] o1 ok listener server show ?thesis
      by (intro exI [of _ options'] exI [of _ w1])
         (auto simp: resolve_listener_Ok server_options_ok_def split: option.splits)
  qed
  with run show ?thesis by blast
qed

definition demo_windows_args :: windows_server_args where
  "demo_windows_args = \<lparr>sa_client_ca_cert = ''ca'', sa_server_cert = ''cert'', sa_server_key = ''key'',
     sa_max_connections = 64, wa_listen_address = None, wa_tailscale_listen_port = Some 4321,
     wa_agent_extra_socket = ''f'', wa_log_path = ''log''\<rparr>"

definition demo_windows_program :: "unit windows_program" where
  "demo_windows_program = \<lparr>wp_log_init = (\<lambda>p c w. (Ok (), w)),
     wp_listen_address = (\<lambda>port w. (Ok (SocketAddrV4 (100, 64, 0, 1) port), w)),
     wp_run_server = (\<lambda>options w. (Ok (), w)), wp_service_run = (\<lambda>options w. (Ok (), w)),
     wp_renewal_run = (\<lambda>options w. (Ok (), w))\<rparr>"

text \<open>Roles that would panic on other options.\<close>

definition strict_server :: "server_options \<Rightarrow> (unit, unit, server_error) io" where
  "strict_server options w =
     (if server_options_ok options then Ok () else Err (ServerBind (io_error_new InvalidInput [])), w)"

definition strict_client :: "client_options \<Rightarrow> (unit, unit, io_error) io" where
  "strict_client options w =
     (if client_options_ok options then Ok () else Err (io_error_new InvalidInput []), w)"

definition strict_service :: "service_options \<Rightarrow> (unit, unit, service_error) io" where
  "strict_service options w =
     (if server_options_ok (sv_server options) then Ok () else Err (ServiceCrate []), w)"

definition no_limit_args :: client_args where
  "no_limit_args = \<lparr>ca_listen_socket = ''/s'', ca_server_address = lit ''host:1'',
     ca_server_name = lit ''host'', ca_server_ca_cert = ''ca'', ca_client_cert = ''cert'',
     ca_client_key = ''key'', ca_max_connections = 0\<rparr>"

theorem commands_run_valid_options_witness:
  "main_unix (\<lambda>o' w. (Ok (), w)) (\<lambda>o' w. (Ok (), w)) (UnixClient no_limit_args) () =
     main_unix strict_server strict_client (UnixClient no_limit_args) () \<and>
   main_unix strict_server strict_client (UnixClient no_limit_args) () =
     Some (Err (MainConfig ZeroMaxConnections), ()) \<and>
   main_windows demo_windows_program (WindowsService demo_windows_args) () =
     main_windows (demo_windows_program\<lparr>wp_run_server := strict_server,
       wp_service_run := strict_service\<rparr>) (WindowsService demo_windows_args) ()"
proof -
  have "main_unix strict_server strict_client (UnixClient no_limit_args) () =
     Some (Err (MainConfig ZeroMaxConnections), ())"
    by (simp add: client_args_options_def no_limit_args_def client_options_new_def
        bind_io_def return_io_def lit_def)
  moreover have "main_unix (\<lambda>o' w. (Ok (), w)) (\<lambda>o' w. (Ok (), w)) (UnixClient no_limit_args) () =
       main_unix strict_server strict_client (UnixClient no_limit_args) () \<and>
     main_windows demo_windows_program (WindowsService demo_windows_args) () =
       main_windows (demo_windows_program\<lparr>wp_run_server := strict_server,
         wp_service_run := strict_service\<rparr>) (WindowsService demo_windows_args) ()"
    by (rule commands_run_valid_options)
       (simp_all add: strict_server_def strict_client_def strict_service_def demo_windows_program_def)
  ultimately show ?thesis by blast
qed

end
