(* ===== verification/Client_Identity.thy ===== *)
theory Client_Identity
  imports Client_Loop
begin

section \<open>What every client session is started with\<close>

text \<open>
  The session tasks of the client's loop: each holds the TLS configuration, the server name and
  the address of the start-up, and an id of its own.  The ids come from a 64-bit counter that
  wraps around, so they are distinct as long as the loop has made fewer than \<open>2 ^ 64 - 1\<close> steps.
\<close>

definition client_tasks_ok ::
  "('roots, 'cert, 'key, 'n) client_context \<Rightarrow>
   ('st, 'roots, 'cert, 'key, 'n, 'r) client_task multiset \<Rightarrow> bool" where
  "client_tasks_ok ctx tasks \<longleftrightarrow>
     (\<forall>task \<in># tasks. ct_connector task = cx_connector ctx \<and> ct_name task = cx_name ctx \<and>
        ct_address task = cx_address ctx)"

definition client_ids_ok ::
  "u64 \<Rightarrow> ('st, 'roots, 'cert, 'key, 'n, 'r) client_task multiset \<Rightarrow> bool" where
  "client_ids_ok next_id tasks \<longleftrightarrow>
     (\<forall>task \<in># tasks. ct_session_id task < next_id) \<and>
     (\<forall>i. count (image_mset ct_session_id tasks) i \<le> 1)"

lemma client_tasks_ok_subset:
  "client_tasks_ok ctx tasks \<Longrightarrow> tasks' \<subseteq># tasks \<Longrightarrow> client_tasks_ok ctx tasks'"
  by (auto simp: client_tasks_ok_def dest: mset_subset_eqD)

lemma client_ids_ok_subset:
  assumes "client_ids_ok next_id tasks" "tasks' \<subseteq># tasks"
  shows "client_ids_ok next_id tasks'"
proof -
  have "count (image_mset ct_session_id tasks') i \<le> count (image_mset ct_session_id tasks) i" for i
    by (intro mset_subset_eq_count image_mset_subseteq_mono assms(2))
  with assms show ?thesis
    unfolding client_ids_ok_def by (meson mset_subset_eqD order_trans)
qed

lemma client_ids_ok_add:
  assumes "client_ids_ok next_id tasks" "ct_session_id task = next_id" "next_id < next_id + 1"
  shows "client_ids_ok (next_id + 1) (add_mset task tasks)"
proof -
  have less: "\<forall>t \<in># tasks. ct_session_id t < next_id"
    using assms(1) by (simp add: client_ids_ok_def)
  then have "count (image_mset ct_session_id tasks) next_id = 0"
    by (auto simp: not_in_iff [symmetric])
  with assms less show ?thesis by (auto simp: client_ids_ok_def)
qed

text \<open>One event either keeps the counter and adds no task, or adds the task with the counter's id.\<close>

definition client_tasks_change ::
  "('roots, 'cert, 'key, 'n) client_context \<Rightarrow>
   u64 \<Rightarrow> ('st, 'roots, 'cert, 'key, 'n, 'r) client_task multiset \<Rightarrow>
   u64 \<Rightarrow> ('st, 'roots, 'cert, 'key, 'n, 'r) client_task multiset \<Rightarrow> bool" where
  "client_tasks_change ctx n tasks n' tasks' \<longleftrightarrow>
     n' = n \<and> tasks' \<subseteq># tasks \<or>
     (\<exists>task. n' = n + 1 \<and> tasks' = add_mset task tasks \<and> ct_session_id task = n \<and>
        client_tasks_ok ctx {#task#})"

context client_runtime
begin

lemma client_admit_change:
  "client_tasks_change ctx (cl_session_ids s) (running (l_sessions s))
     (cl_session_ids (client_admit rt ctx stream s)) (running (l_sessions (client_admit rt ctx stream s)))"
  by (auto simp: client_tasks_change_def client_admit_def admit_def Let_def warn_def
      tasks.spawn_running client_tasks_ok_def split: option.splits)

lemma client_return_running: "running (l_sessions (client_return host rt r s)) = {#}"
  by (simp add: client_return_def abort_running)

lemma client_on_change:
  assumes "client_on host rt ctx ev s = Some s'"
  shows "client_tasks_change ctx (cl_session_ids s) (running (l_sessions s))
    (cl_session_ids s') (running (l_sessions s'))"
proof (cases ev)
  case ClientShutdown
  with assms show ?thesis by (auto simp: client_tasks_change_def shutdown_branch_def split: if_splits)
next
  case ClientTick
  with assms show ?thesis
    by (auto simp: client_tasks_change_def monitor_tick_def client_return_def abort_sessions_def
        tasks.abort_running split: if_splits prod.splits result.splits)
next
  case (ClientAccepted r)
  show ?thesis
  proof (cases r)
    case (Ok stream)
    with ClientAccepted assms client_admit_change [of ctx s stream] show ?thesis
      by (simp split: if_splits)
  next
    case (Err e)
    with ClientAccepted assms show ?thesis
      by (auto simp: client_tasks_change_def warn_def split: if_splits)
  qed
next
  case (ClientJoined panicked)
  with assms show ?thesis
    by (auto simp: client_tasks_change_def join_branch_def warn_def dest!: join_running
        split: if_splits)
next
  case ClientDrained
  with assms show ?thesis
    by (auto simp: client_tasks_change_def drain_one_def dest!: join_running split: if_splits)
next
  case (ClientDrainOver timed_out)
  with assms show ?thesis
    by (auto simp: client_tasks_change_def client_return_def abort_sessions_def
        tasks.abort_running split: if_splits)
next
  case (ClientTaskEnds task)
  with assms show ?thesis
    by (auto simp: client_tasks_change_def task_ends_def dest!: tasks.finish_Some split: if_splits)
qed (use assms in \<open>auto simp: client_tasks_change_def\<close>)

lemma client_steps_tasks:
  "(client_step host rt ctx ^^ n) s0 s \<Longrightarrow> client_tasks_ok ctx (running (l_sessions s0)) \<Longrightarrow>
     client_tasks_ok ctx (running (l_sessions s))"
proof (induction n arbitrary: s)
  case 0
  then show ?case by simp
next
  case (Suc n)
  then obtain t where t: "(client_step host rt ctx ^^ n) s0 t" "client_step host rt ctx t s" by auto
  from t(2) obtain ev where "client_on host rt ctx ev t = Some s" by (rule client_stepE)
  from client_on_change [OF this] Suc.IH [OF t(1) Suc.prems(2)] show ?case
    by (auto simp: client_tasks_change_def intro: client_tasks_ok_subset)
       (auto simp: client_tasks_ok_def)
qed

lemma client_steps_ids:
  "(client_step host rt ctx ^^ n) s0 s \<Longrightarrow> n < 2 ^ 64 - 1 \<Longrightarrow>
   cl_session_ids s0 = 1 \<Longrightarrow> running (l_sessions s0) = {#} \<Longrightarrow>
     unat (cl_session_ids s) \<le> n + 1 \<and> client_ids_ok (cl_session_ids s) (running (l_sessions s))"
proof (induction n arbitrary: s)
  case 0
  then show ?case by (simp add: client_ids_ok_def)
next
  case (Suc n)
  then obtain t where t: "(client_step host rt ctx ^^ n) s0 t" "client_step host rt ctx t s" by auto
  from t(2) obtain ev where ev: "client_on host rt ctx ev t = Some s" by (rule client_stepE)
  let ?i = "cl_session_ids t"
  from Suc.IH [OF t(1)] Suc.prems have le: "unat ?i \<le> n + 1"
    and ids: "client_ids_ok ?i (running (l_sessions t))" by simp_all
  have "unat ?i + 1 < 2 ^ 64" using le Suc.prems(2) by simp
  then have step: "unat (?i + 1) = unat ?i + 1"
    by (simp add: unat_word_ariths)
  then have "?i < ?i + 1" by (simp add: word_less_nat_alt)
  with client_on_change [OF ev] le ids step show ?case
    by (auto simp: client_tasks_change_def intro: client_ids_ok_subset client_ids_ok_add)
qed

end

lemma client_startup_context:
  assumes "client_startup host rt options channel receiver w = (Some (Ok (ctx, s0)), w')"
  shows "\<exists>w1. client_config (ch_tls host) (co_server_ca_cert options) (co_client_cert options)
       (co_client_key options) w = (Ok (cx_connector ctx), w1) \<and>
     ch_server_name host (co_server_name options) = Ok (cx_name ctx) \<and>
     cx_address ctx = co_server_address options \<and> cl_session_ids s0 = 1 \<and>
     (\<exists>s. loop_start rt (unat (co_max_connections options)) channel receiver = Some s \<and>
        l_sessions s0 = l_sessions s)"
  using assms
  by (auto simp: client_startup_def io_splits loop_state.defs
      split: prod.splits result.splits option.splits)

lemma client_session_context:
  assumes "client_runtime rt available running finished version closed seen"
    and "client_startup host rt options channel receiver w = (Some (Ok (ctx, s0)), w')"
    and "(client_step host rt ctx ^^ n) s0 s" "task \<in># running (l_sessions s)"
  shows "\<exists>w1. client_config (ch_tls host) (co_server_ca_cert options) (co_client_cert options)
       (co_client_key options) w = (Ok (ct_connector task), w1) \<and>
     ch_server_name host (co_server_name options) = Ok (ct_name task) \<and>
     ct_address task = co_server_address options \<and>
     cl_session_ids s0 = 1 \<and> running (l_sessions s0) = {#}"
proof -
  from client_startup_context [OF assms(2)] obtain w1 s1 where
      config: "client_config (ch_tls host) (co_server_ca_cert options) (co_client_cert options)
         (co_client_key options) w = (Ok (cx_connector ctx), w1)"
    and ctx: "ch_server_name host (co_server_name options) = Ok (cx_name ctx)"
      "cx_address ctx = co_server_address options" "cl_session_ids s0 = 1"
    and start: "loop_start rt (unat (co_max_connections options)) channel receiver = Some s1"
      "l_sessions s0 = l_sessions s1"
    by blast
  have "loop_runtime rt available running finished version closed seen"
    using assms(1) by (simp add: client_runtime_def)
  from loop_runtime.start_running [OF this start(1)] start(2)
  have none: "running (l_sessions s0) = {#}" by simp
  have "client_tasks_ok ctx (running (l_sessions s))"
    by (rule client_runtime.client_steps_tasks [OF assms(1,3)]) (simp add: none client_tasks_ok_def)
  with assms(4) config ctx none show ?thesis by (auto simp: client_tasks_ok_def)
qed

lemma client_run_length:
  "client_run host rt ctx evs s = Some s' \<Longrightarrow> (client_step host rt ctx ^^ length evs) s s'"
proof (induction evs arbitrary: s)
  case Nil
  then show ?case by simp
next
  case (Cons ev evs)
  then obtain t where "client_on host rt ctx ev s = Some t" "client_run host rt ctx evs t = Some s'"
    by (auto split: option.splits)
  with Cons.IH have "(client_step host rt ctx ^^ Suc (length evs)) s s'"
    by (intro relpowp_Suc_I2 [of _ _ t] client_step.event)
  then show ?case by (simp only: length_Cons)
qed


subsection \<open>Properties\<close>

text \<open>C11: whom a client session talks to.  Every session of a started client, at any time, connects
  to the configured address under the configured server name, with the TLS configuration that was
  loaded from the options: TLS 1.3 and the bridge's protocol only, the server verified against
  trust anchors of the server CA file, and the client's own chain with its protected key.  And no
  other running session has its id, as long as the loop has made fewer than \<open>2 ^ 64 - 1\<close> steps.\<close>

theorem every_client_session_verifies_its_server:
  assumes "client_runtime rt available running finished version closed seen"
    and "client_startup host rt options channel receiver w = (Some (Ok (ctx, s0)), w')"
    and "(client_step host rt ctx ^^ n) s0 s" "task \<in># running (l_sessions s)"
  shows "ct_address task = co_server_address options \<and>
     ch_server_name host (co_server_name options) = Ok (ct_name task) \<and>
     tc_versions (ct_connector task) = [TLS13] \<and> tc_alpn (ct_connector task) = [ALPN_PROTOCOL] \<and>
     (\<exists>roots. tc_peer (ct_connector task) = ServerRoots roots \<and>
        trusted_roots (ch_tls host) (co_server_ca_cert options) roots) \<and>
     own_identity (ch_tls host) (co_client_cert options) (co_client_key options)
       (tc_chain (ct_connector task)) (tc_key (ct_connector task)) \<and>
     (n < 2 ^ 64 - 1 \<longrightarrow>
        count (image_mset ct_session_id (running (l_sessions s))) (ct_session_id task) = 1)"
proof -
  from client_session_context [OF assms] obtain w1 where
      config: "client_config (ch_tls host) (co_server_ca_cert options) (co_client_cert options)
         (co_client_key options) w = (Ok (ct_connector task), w1)"
    and ctx: "ch_server_name host (co_server_name options) = Ok (ct_name task)"
      "ct_address task = co_server_address options"
    and start: "cl_session_ids s0 = 1" "running (l_sessions s0) = {#}"
    by blast
  have "count (image_mset ct_session_id (running (l_sessions s))) (ct_session_id task) = 1"
    if "n < 2 ^ 64 - 1"
  proof -
    have "client_ids_ok (cl_session_ids s) (running (l_sessions s))"
      using client_runtime.client_steps_ids [OF assms(1,3) that start] by blast
    then have "count (image_mset ct_session_id (running (l_sessions s))) (ct_session_id task) \<le> 1"
      by (simp add: client_ids_ok_def)
    moreover have "ct_session_id task \<in># image_mset ct_session_id (running (l_sessions s))"
      using assms(4) by simp
    ultimately show ?thesis by (metis One_nat_def count_greater_zero_iff le_antisym Suc_leI)
  qed
  with ctx client_config_facts [OF config] show ?thesis by auto
qed

lemma demo_client_one_session:
  "(client_step demo_client_host demo_runtime demo_client_context ^^ 1)
     (demo_client 1 [] \<lparr>wc_version = 0, wc_closed = False\<rparr> 0 Accepting [] 1 demo_fs_bound)
     (demo_client 0 [demo_client_task] \<lparr>wc_version = 0, wc_closed = False\<rparr> 0 Accepting [] 2
        demo_fs_bound)"
  using client_run_length [where evs = "[ClientAccepted (Ok ''a'')]" and host = demo_client_host
      and rt = demo_runtime and ctx = demo_client_context]
  by (fastforce simp: demo_runtime_defs demo_client_def demo_client_task_def client_admit_def Let_def
      admit_def demo_client_context_def)

theorem every_client_session_verifies_its_server_witness:
  "trusted_roots (ch_tls demo_client_host) ''ca'' [1] \<and> ct_name demo_client_task = lit ''host'' \<and>
   count (image_mset ct_session_id {#demo_client_task#}) 1 = 1"
  using every_client_session_verifies_its_server [OF client_rt.client_runtime_axioms
      demo_client_start demo_client_one_session, of demo_client_task]
  by (simp add: demo_client_def demo_client_options_def demo_client_host_def demo_client_task_def
      demo_client_context_def)

end
