(* ===== verification/Mutual_Auth.thy ===== *)
theory Mutual_Auth
  imports Client_Identity Server_Loop
begin

section \<open>Mutual authentication, from the configuration to the session\<close>

text \<open>
  The spawned blocks of both accept loops (src/server.rs, line 131; src/client.rs, line 149): a
  session task run with what it was given, its TLS configuration among it.  The handshakes of the
  TLS library are operations over a configuration; the locale \<open>tls_library\<close> states what its
  documentation promises of a handshake that succeeds.  Together with the start-up and the loop
  this says who can be at the other end of a session.
\<close>

subsection \<open>Session tasks\<close>

record ('w, 'st, 'roots, 'cert, 'key, 'n, 'tls) tls_endpoints =
  e_accept :: "('roots, 'cert, 'key) tls_config \<Rightarrow> duration \<Rightarrow> 'st \<Rightarrow> 'w \<Rightarrow>
    ('tls, io_error) result option \<times> 'w"
  e_connect :: "('roots, 'cert, 'key) tls_config \<Rightarrow> duration \<Rightarrow> 'n \<Rightarrow> 'st \<Rightarrow> 'w \<Rightarrow>
    ('tls, io_error) result option \<times> 'w"
  e_alpn :: "'tls \<Rightarrow> u8 list option"

text \<open>
  The session's operations with the acceptor and the shutdown receiver that were moved in; the
  relay and the pause wait for that receiver.
\<close>

definition task_session_ops ::
  "('w, 'st, 'roots, 'cert, 'key, 'n, 'tls) tls_endpoints \<Rightarrow>
   ('r \<Rightarrow> ('tls, ('s, 'u) agent_stream, 'w) relay_env) \<Rightarrow>
   ('w, 'h, 's, 'u, 'st, 'tls) session_ops \<Rightarrow>
   ('st, 'roots, 'cert, 'key, 'r) server_task \<Rightarrow> ('w, 'h, 's, 'u, 'st, 'tls) session_ops" where
  "task_session_ops lib env ops task =
     ops\<lparr>s_accept := e_accept lib (st_acceptor task), s_alpn := e_alpn lib,
         s_relay := env (st_shutdown task)\<rparr>"

definition server_task_run ::
  "('w, 'st, 'roots, 'cert, 'key, 'n, 'tls) tls_endpoints \<Rightarrow>
   ('r \<Rightarrow> ('tls, ('s, 'u) agent_stream, 'w) relay_env) \<Rightarrow>
   ('w, 'h, 's, 'u, 'st, 'tls) session_ops \<Rightarrow>
   ('st, 'roots, 'cert, 'key, 'r) server_task \<Rightarrow> 'w \<Rightarrow>
     (tcp_warning list \<times> session_end \<times> 'w) option" where
  "server_task_run lib env ops task =
     session (task_session_ops lib env ops task) (st_stream task) (st_connector task)"

definition task_client_ops ::
  "('w, 'st, 'roots, 'cert, 'key, 'n, 'tls) tls_endpoints \<Rightarrow>
   ('r \<Rightarrow> ('l, 'tls, 'w) relay_env) \<Rightarrow> ('r \<Rightarrow> duration \<Rightarrow> 'w \<Rightarrow> pause_end \<times> 'w) \<Rightarrow>
   ('w, 'n, 'l, 'st, 'tls) client_ops \<Rightarrow>
   ('l, 'roots, 'cert, 'key, 'n, 'r) client_task \<Rightarrow> ('w, 'n, 'l, 'st, 'tls) client_ops" where
  "task_client_ops lib env pause ops task =
     ops\<lparr>c_tls_connect := e_connect lib (ct_connector task), c_alpn := e_alpn lib,
         c_relay := env (ct_shutdown task), c_pause := pause (ct_shutdown task)\<rparr>"

definition client_task_run ::
  "('w, 'st, 'roots, 'cert, 'key, 'n, 'tls) tls_endpoints \<Rightarrow>
   ('r \<Rightarrow> ('l, 'tls, 'w) relay_env) \<Rightarrow> ('r \<Rightarrow> duration \<Rightarrow> 'w \<Rightarrow> pause_end \<times> 'w) \<Rightarrow>
   ('w, 'n, 'l, 'st, 'tls) client_ops \<Rightarrow>
   ('l, 'roots, 'cert, 'key, 'n, 'r) client_task \<Rightarrow> 'w \<Rightarrow>
     (tcp_warning list \<times> client_end \<times> 'w) option" where
  "client_task_run lib env pause ops task =
     relay_session (task_client_ops lib env pause ops task) (ct_local task) (ct_name task)
       (ct_address task)"


subsection \<open>What the TLS library promises\<close>

text \<open>
  \<open>version\<close> and \<open>peer_chain\<close> are what a stream's connection reports.  \<open>valid_client\<close> and
  \<open>valid_server\<close> are the library's certificate verification: a chain for client authentication
  under some trust anchors, a chain for a server of a given name.
\<close>

locale tls_library =
  fixes lib :: "('w, 'st, 'roots, 'cert, 'key, 'n, 'tls) tls_endpoints"
    and version :: "'tls \<Rightarrow> protocol_version"
    and peer_chain :: "'tls \<Rightarrow> 'cert list"
    and valid_client :: "'roots \<Rightarrow> 'cert list \<Rightarrow> bool"
    and valid_server :: "'roots \<Rightarrow> 'cert list \<Rightarrow> 'n \<Rightarrow> bool"
  assumes accept_version:
      "e_accept lib config d stream w = (Some (Ok tls), w') \<Longrightarrow> version tls \<in> set (tc_versions config)"
    and accept_verified:
      "e_accept lib config d stream w = (Some (Ok tls), w') \<Longrightarrow>
       tc_peer config = ClientVerifier roots \<Longrightarrow> valid_client roots (peer_chain tls)"
    and connect_version:
      "e_connect lib config d name stream w = (Some (Ok tls), w') \<Longrightarrow>
       version tls \<in> set (tc_versions config)"
    and connect_verified:
      "e_connect lib config d name stream w = (Some (Ok tls), w') \<Longrightarrow>
       tc_peer config = ServerRoots roots \<Longrightarrow> valid_server roots (peer_chain tls) name"
begin

lemma server_task_peer:
  assumes "server_task_run lib env ops task v = Some (ws, out, v')" "\<not> refused out"
    and "tc_versions (st_acceptor task) = [TLS13]"
    and "tc_peer (st_acceptor task) = ClientVerifier roots"
  shows "\<exists>tls v0 v1 a v2.
     e_accept lib (st_acceptor task) SERVER_TLS_HANDSHAKE_TIMEOUT (st_stream task) v0 =
       (Some (Ok tls), v1) \<and>
     version tls = TLS13 \<and> valid_client roots (peer_chain tls) \<and> e_alpn lib tls = Some ALPN_PROTOCOL \<and>
     agent_connect (s_agent ops) (st_connector task) v1 = Some (a, v2)"
proof -
  let ?ops = "task_session_ops lib env ops task"
  have reached: "\<exists>tls v1 a v2. handshake ?ops (st_stream task) v = (Some (Ok tls), v1) \<and>
      s_alpn ?ops tls = Some ALPN_PROTOCOL \<and>
      agent_connect (s_agent ?ops) (st_connector task) v1 = Some (a, v2)"
    using assms(1) [unfolded server_task_run_def] assms(2)
    by (cases rule: session_cases) (auto simp del: agent_connect.simps)
  then obtain tls v1 a v2 where
      "e_accept lib (st_acceptor task) SERVER_TLS_HANDSHAKE_TIMEOUT (st_stream task)
         (snd (server_configure_tcp ?ops (st_stream task) v)) = (Some (Ok tls), v1)"
    and "e_alpn lib tls = Some ALPN_PROTOCOL"
    and "agent_connect (s_agent ops) (st_connector task) v1 = Some (a, v2)"
    by (auto simp: handshake_def task_session_ops_def simp del: agent_connect.simps)
  moreover from accept_version [OF this(1)] assms(3) have "version tls = TLS13" by simp
  ultimately show ?thesis using accept_verified assms(4) by blast
qed

lemma client_task_peer:
  assumes "client_task_run lib env pause ops task v = Some (log, out, v')"
    and "out \<notin> {ClientExhausted, ClientStopped, ClientRejected}"
    and "tc_versions (ct_connector task) = [TLS13]"
    and "tc_peer (ct_connector task) = ServerRoots roots"
  shows "\<exists>tls stream u u1 v0 v1 r.
     c_tcp_connect ops TCP_CONNECT_TIMEOUT (ct_address task) u = (Some (Ok stream), u1) \<and>
     e_connect lib (ct_connector task) CLIENT_TLS_HANDSHAKE_TIMEOUT (ct_name task) stream v0 =
       (Some (Ok tls), v1) \<and>
     version tls = TLS13 \<and> valid_server roots (peer_chain tls) (ct_name task) \<and>
     e_alpn lib tls = Some ALPN_PROTOCOL \<and>
     relay (env (ct_shutdown task)) (ct_local task) tls v1 = Some (r, v') \<and> out = relay_end r"
proof -
  let ?ops = "task_client_ops lib env pause ops task"
  from session_loop_history [OF assms(1) [unfolded client_task_run_def relay_session_def]]
  obtain b u where "last_round ?ops (ct_local task) (ct_name task) (ct_address task)
      (c_now ?ops v) (b, u) out v'"
    by (auto simp: session_history_def)
  with assms(2) obtain tls ws v1 r where
      "establish ?ops (ct_name task) (ct_address task) u = (Ok tls, ws, v1)"
    and relayed: "relay (c_relay ?ops) (ct_local task) tls v1 = Some (r, v')" "out = relay_end r"
    by (cases out) auto
  then have "tls_attempt ?ops (ct_name task) (ct_address task) u (Some (Ok tls)) v1"
    and alpn: "c_alpn ?ops tls = Some ALPN_PROTOCOL"
    by (simp_all only: establish_OkD)
  then obtain stream u1 v0 where
      tcp: "c_tcp_connect ops TCP_CONNECT_TIMEOUT (ct_address task) u = (Some (Ok stream), u1)"
    and shake: "e_connect lib (ct_connector task) CLIENT_TLS_HANDSHAKE_TIMEOUT (ct_name task) stream v0 =
        (Some (Ok tls), v1)"
    by (auto simp: tls_attempt_def task_client_ops_def)
  from connect_version [OF shake] assms(3) have "version tls = TLS13" by simp
  with tcp shake connect_verified [OF shake assms(4)] alpn relayed show ?thesis
    by (intro exI [of _ tls] exI [of _ stream] exI [of _ u] exI [of _ u1] exI [of _ v0]
        exI [of _ v1] exI [of _ r]) (simp add: task_client_ops_def)
qed

end


subsection \<open>A library that does so, for the witnesses\<close>

text \<open>
  Certificates are numbers: the last digit says what a certificate is for and the others who has
  issued it.  A stream is what its peer offers; a handshake picks the first common version and
  the first common protocol.
\<close>

record sim_peer =
  sp_versions :: "protocol_version list"
  sp_chain :: "nat list"
  sp_alpn :: "u8 list list"

record sim_tls =
  tl_version :: protocol_version
  tl_chain :: "nat list"
  tl_alpn :: "u8 list option"

fun sim_issued :: "nat list \<Rightarrow> nat list \<Rightarrow> bool" where
  "sim_issued roots [] = False"
| "sim_issued roots (c # cs) = (10 * (c div 10) + 1 \<in> set roots)"

definition sim_valid_client :: "nat list \<Rightarrow> nat list \<Rightarrow> bool" where
  "sim_valid_client roots chain \<longleftrightarrow> sim_issued roots chain \<and> hd chain mod 10 \<in> {3, 7}"

definition sim_valid_server :: "nat list \<Rightarrow> nat list \<Rightarrow> rstr \<Rightarrow> bool" where
  "sim_valid_server roots chain name \<longleftrightarrow> sim_issued roots chain \<and>
     (hd chain mod 10 = 2 \<and> name = lit ''server.test'' \<or>
      hd chain mod 10 = 7 \<and> name = lit ''host'')"

definition sim_handshake ::
  "(nat list, nat, nat) tls_config \<Rightarrow> (nat list \<Rightarrow> bool) \<Rightarrow> sim_peer \<Rightarrow> (sim_tls, io_error) result" where
  "sim_handshake config verified peer =
     (case find (\<lambda>v. v \<in> set (sp_versions peer)) (tc_versions config) of
        None \<Rightarrow> Err (io_error_new InvalidData [])
      | Some v \<Rightarrow>
          if verified (sp_chain peer)
          then Ok \<lparr>tl_version = v, tl_chain = sp_chain peer,
                   tl_alpn = find (\<lambda>p. p \<in> set (sp_alpn peer)) (tc_alpn config)\<rparr>
          else Err (io_error_new InvalidData []))"

definition sim_accept :: "(nat list, nat, nat) tls_config \<Rightarrow> sim_peer \<Rightarrow> (sim_tls, io_error) result" where
  "sim_accept config = sim_handshake config (\<lambda>chain.
     case tc_peer config of ClientVerifier roots \<Rightarrow> sim_valid_client roots chain | ServerRoots _ \<Rightarrow> False)"

definition sim_connect ::
  "(nat list, nat, nat) tls_config \<Rightarrow> rstr \<Rightarrow> sim_peer \<Rightarrow> (sim_tls, io_error) result" where
  "sim_connect config name = sim_handshake config (\<lambda>chain.
     case tc_peer config of ClientVerifier _ \<Rightarrow> False | ServerRoots roots \<Rightarrow> sim_valid_server roots chain name)"

definition sim_library :: "('w, sim_peer, nat list, nat, nat, rstr, sim_tls) tls_endpoints" where
  "sim_library =
     \<lparr>e_accept = (\<lambda>config d peer w. (Some (sim_accept config peer), w)),
      e_connect = (\<lambda>config d name peer w. (Some (sim_connect config name peer), w)),
      e_alpn = tl_alpn\<rparr>"

lemma sim_handshake_Ok:
  "sim_handshake config verified peer = Ok tls \<Longrightarrow>
     tl_version tls \<in> set (tc_versions config) \<and> tl_version tls \<in> set (sp_versions peer) \<and>
     tl_chain tls = sp_chain peer \<and> verified (sp_chain peer) \<and>
     tl_alpn tls = find (\<lambda>p. p \<in> set (sp_alpn peer)) (tc_alpn config)"
  by (auto simp: sim_handshake_def find_Some_iff split: option.splits if_splits)

interpretation sim_tls: tls_library sim_library tl_version tl_chain sim_valid_client sim_valid_server
  by unfold_locales
     (auto simp: sim_library_def sim_accept_def sim_connect_def dest!: sim_handshake_Ok)


subsection \<open>Runs for the witnesses\<close>

definition demo_endpoint_ops :: "(sim_host, u8 list, u16, unit, sim_peer, sim_tls) session_ops" where
  "demo_endpoint_ops =
     \<lparr>s_set_nodelay = (\<lambda>st w. (Ok (), w)), s_set_keepalive = (\<lambda>st d w. (Ok (), w)),
      s_accept = (\<lambda>d st w. (None, w)), s_alpn = (\<lambda>tls. None),
      s_agent = host_ops (\<lambda>t. Some demo_redirect) (\<lambda>t port. port = 4321),
      s_relay = (\<lambda>tls agent w. (False, None, None, w))\<rparr>"

definition demo_relay_env :: "nat \<Rightarrow> ('a, 'b, 'w) relay_env" where
  "demo_relay_env receiver = (\<lambda>a b w. (False, Some (Ok (7, 5)), None, w))"

lemma demo_relay:
  "relay (demo_relay_env receiver) a b w = Some (Ok \<lparr>left_to_right = 7, right_to_left = 5\<rparr>, w)"
  by (subst relay.simps) (simp add: demo_relay_env_def relay_poll_def)

definition demo_good_client :: sim_peer where
  "demo_good_client = \<lparr>sp_versions = [TLS12, TLS13], sp_chain = [3], sp_alpn = [ALPN_PROTOCOL]\<rparr>"

lemma demo_server_task_run:
  "server_task_run sim_library demo_relay_env demo_endpoint_ops (demo_session_task demo_good_client)
     demo_host =
   Some ([], SessionCompleted \<lparr>left_to_right = 7, right_to_left = 5\<rparr>, demo_host_connected)"
proof -
  let ?ops = "task_session_ops sim_library demo_relay_env demo_endpoint_ops
    (demo_session_task demo_good_client)"
  have hs: "handshake ?ops demo_good_client demo_host =
      (Some (Ok \<lparr>tl_version = TLS13, tl_chain = [3], tl_alpn = Some ALPN_PROTOCOL\<rparr>), demo_host)"
    "server_configure_tcp ?ops demo_good_client demo_host = ([], demo_host)"
    by (simp_all add: handshake_def server_configure_tcp_def task_session_ops_def
        demo_endpoint_ops_def demo_session_task_def sim_library_def sim_accept_def
        sim_handshake_def demo_tls_config_def demo_good_client_def sim_valid_client_def)
  have "s_alpn ?ops = tl_alpn" "s_relay ?ops = demo_relay_env 0"
    "s_agent ?ops = host_ops (\<lambda>t. Some demo_redirect) (\<lambda>t port. port = 4321)"
    by (simp_all add: task_session_ops_def sim_library_def demo_endpoint_ops_def
        demo_session_task_def)
  with hs demo_agent_connect [of "''f''"] show ?thesis
    unfolding server_task_run_def session_eq
    by (simp add: demo_session_task_def relay_agent_def demo_relay del: agent_connect.simps)
qed

definition demo_client_endpoint_ops :: "(sim_net, rstr, string, sim_peer, sim_tls) client_ops" where
  "demo_client_endpoint_ops =
     \<lparr>c_tcp_connect = (\<lambda>d address w. (Some (Ok \<lparr>sp_versions = [TLS13], sp_chain = [7],
          sp_alpn = [ALPN_PROTOCOL]\<rparr>), w\<lparr>sn_clock := sn_clock w + 1000000\<rparr>)),
      c_set_nodelay = (\<lambda>st w. (Ok (), w)), c_set_keepalive = (\<lambda>st d w. (Ok (), w)),
      c_tls_connect = (\<lambda>d name st w. (None, w)), c_alpn = (\<lambda>tls. None),
      c_relay = (\<lambda>l tls w. (True, None, None, w)), c_now = sn_clock,
      c_u64_upto = (\<lambda>n w. (n, w)), c_pause = (\<lambda>d w. (Slept, w))\<rparr>"

lemma demo_client_task_run:
  "client_task_run sim_library demo_relay_env (\<lambda>r d w. (Slept, w)) demo_client_endpoint_ops
     demo_client_task \<lparr>sn_clock = 3, sn_rng = 9\<rparr> =
   Some ([], ClientCompleted \<lparr>left_to_right = 7, right_to_left = 5\<rparr>,
     \<lparr>sn_clock = 1000003, sn_rng = 9\<rparr>)"
proof -
  let ?ops = "task_client_ops sim_library demo_relay_env (\<lambda>r d w. (Slept, w))
    demo_client_endpoint_ops demo_client_task"
  have "establish ?ops (lit ''host'') (lit ''host:8443'') \<lparr>sn_clock = 3, sn_rng = 9\<rparr> =
      (Ok \<lparr>tl_version = TLS13, tl_chain = [7], tl_alpn = Some ALPN_PROTOCOL\<rparr>, [],
       \<lparr>sn_clock = 1000003, sn_rng = 9\<rparr>)"
    by (simp add: establish_def task_client_ops_def demo_client_endpoint_ops_def
        client_configure_tcp_def sim_library_def sim_connect_def sim_handshake_def
        demo_client_task_def demo_client_context_def sim_valid_server_def validate_alpn_def)
  moreover have "c_relay ?ops = demo_relay_env 0" "c_now ?ops = sn_clock"
    by (simp_all add: task_client_ops_def demo_client_endpoint_ops_def demo_client_task_def)
  moreover have "ct_name demo_client_task = lit ''host''"
    "ct_address demo_client_task = lit ''host:8443''"
    by (simp_all add: demo_client_task_def)
  ultimately show ?thesis
    unfolding client_task_run_def relay_session_def
    by (subst session_loop.simps)
       (simp add: PRE_RELAY_RECONNECT_WINDOW_def from_secs_def demo_relay relay_end_def)
qed


subsection \<open>Properties\<close>

text \<open>Every session of a server, at any time after its start, accepts its peer with the TLS
  configuration that was loaded from the options: TLS 1.3 and the bridge's protocol only, client
  certificates verified against trust anchors of the client CA file, and the server's own chain
  with its protected key; and it connects to the agent that the options name.\<close>

lemma every_session_authenticates_its_peer:
  assumes "server_runtime rt available running finished version closed seen"
    and "server_startup host rt options channel receiver w = (Some (Ok (lis, ctx, s0)), w')"
    and "(server_step rt ctx)\<^sup>*\<^sup>* s0 s" "task \<in># running (l_sessions s)"
  shows "st_connector task = server_connector (so_agent options) \<and>
    tc_versions (st_acceptor task) = [TLS13] \<and> tc_alpn (st_acceptor task) = [ALPN_PROTOCOL] \<and>
    (\<exists>roots. tc_peer (st_acceptor task) = ClientVerifier roots \<and>
       trusted_roots (sh_tls host) (so_client_ca_cert options) roots) \<and>
    own_identity (sh_tls host) (so_server_cert options) (so_server_key options)
      (tc_chain (st_acceptor task)) (tc_key (st_acceptor task))"
proof -
  from server_runtime.server_session_context [OF assms] obtain w1
    where "server_config (sh_tls host) (so_client_ca_cert options) (so_server_cert options)
        (so_server_key options) w = (Ok (st_acceptor task), w1)"
      and "st_connector task = server_connector (so_agent options)"
    by blast
  with server_config_facts [OF this(1)] show ?thesis by auto
qed

text \<open>C9: whom the agent serves.  A session of a started server, at any time, that is not refused has
  made a TLS 1.3 handshake within its timeout, on its own connection and for the bridge's
  protocol, with a peer whose certificate chain is valid for client authentication under the
  trust anchors of the client CA file; only then was the agent that the options name connected.
  The handshake used the server's own chain and its protected key.\<close>

theorem only_trusted_clients_reach_the_agent:
  assumes "tls_library lib tls_version peer_chain valid_client valid_server"
    and "server_runtime rt available running finished version closed seen"
    and "server_startup host rt options channel receiver w = (Some (Ok (lis, ctx, s0)), w')"
    and "(server_step rt ctx)\<^sup>*\<^sup>* s0 s" "task \<in># running (l_sessions s)"
    and "server_task_run lib env ops task v = Some (ws, out, v')" "\<not> refused out"
  shows "\<exists>roots tls v0 v1 a v2.
     tc_peer (st_acceptor task) = ClientVerifier roots \<and>
     trusted_roots (sh_tls host) (so_client_ca_cert options) roots \<and>
     e_accept lib (st_acceptor task) SERVER_TLS_HANDSHAKE_TIMEOUT (st_stream task) v0 =
       (Some (Ok tls), v1) \<and>
     tls_version tls = TLS13 \<and> valid_client roots (peer_chain tls) \<and>
     e_alpn lib tls = Some ALPN_PROTOCOL \<and>
     own_identity (sh_tls host) (so_server_cert options) (so_server_key options)
       (tc_chain (st_acceptor task)) (tc_key (st_acceptor task)) \<and>
     agent_connect (s_agent ops) (server_connector (so_agent options)) v1 = Some (a, v2)"
proof -
  from every_session_authenticates_its_peer [OF assms(2-5)] obtain roots where
      config: "tc_versions (st_acceptor task) = [TLS13]"
        "tc_peer (st_acceptor task) = ClientVerifier roots"
    and rest: "trusted_roots (sh_tls host) (so_client_ca_cert options) roots"
      "own_identity (sh_tls host) (so_server_cert options) (so_server_key options)
         (tc_chain (st_acceptor task)) (tc_key (st_acceptor task))"
      "st_connector task = server_connector (so_agent options)"
    by blast
  from tls_library.server_task_peer [OF assms(1,6,7) config] rest config(2) show ?thesis by metis
qed

theorem only_trusted_clients_reach_the_agent_witness:
  "trusted_roots (sh_tls demo_host_tls) ''ca'' [1] \<and> sim_valid_client [1] (sp_chain demo_good_client)"
proof -
  have "demo_session_task demo_good_client \<in>#
      mset (fst (l_sessions (demo_server 0 [demo_session_task demo_good_client])))"
    by (simp add: demo_server_def)
  from only_trusted_clients_reach_the_agent [OF sim_tls.tls_library_axioms
      server_rt.server_runtime_axioms demo_server_startup demo_server_session this
      demo_server_task_run]
  show ?thesis
    by (auto simp: sim_library_def sim_accept_def demo_options_def huge_options_def
        demo_session_task_def demo_tls_config_def dest!: sim_handshake_Ok)
qed

text \<open>C10: to whom a client session speaks.  When a session of a started client, at any time, has gone
  beyond its attempts, its relay ran over a TLS 1.3 stream of the bridge's protocol, made on a
  connection to the configured address, whose peer has shown a certificate chain valid for the
  configured server name under the trust anchors of the server CA file; and it is the result of
  that relay that ended the session.\<close>

theorem only_the_named_server_is_relayed_to:
  assumes "tls_library lib tls_version peer_chain valid_client valid_server"
    and "client_runtime rt available running finished version closed seen"
    and "client_startup host rt options channel receiver w = (Some (Ok (ctx, s0)), w')"
    and "(client_step host rt ctx)\<^sup>*\<^sup>* s0 s" "task \<in># running (l_sessions s)"
    and "client_task_run lib env pause ops task v = Some (log, out, v')"
    and "out \<notin> {ClientExhausted, ClientStopped, ClientRejected}"
  shows "\<exists>name roots tls stream u u1 v0 v1 r.
     c_tcp_connect ops TCP_CONNECT_TIMEOUT (co_server_address options) u = (Some (Ok stream), u1) \<and>
     ch_server_name host (co_server_name options) = Ok name \<and>
     tc_peer (ct_connector task) = ServerRoots roots \<and>
     trusted_roots (ch_tls host) (co_server_ca_cert options) roots \<and>
     e_connect lib (ct_connector task) CLIENT_TLS_HANDSHAKE_TIMEOUT name stream v0 =
       (Some (Ok tls), v1) \<and>
     tls_version tls = TLS13 \<and> valid_server roots (peer_chain tls) name \<and>
     e_alpn lib tls = Some ALPN_PROTOCOL \<and>
     relay (env (ct_shutdown task)) (ct_local task) tls v1 = Some (r, v') \<and> out = relay_end r"
proof -
  from assms(4) obtain n where "(client_step host rt ctx ^^ n) s0 s"
    by (auto simp: rtranclp_power)
  from client_session_context [OF assms(2,3) this assms(5)] obtain w1 where
      config: "client_config (ch_tls host) (co_server_ca_cert options) (co_client_cert options)
         (co_client_key options) w = (Ok (ct_connector task), w1)"
    and name: "ch_server_name host (co_server_name options) = Ok (ct_name task)"
      "ct_address task = co_server_address options"
    by blast
  from client_config_facts [OF config] obtain roots where
      facts: "tc_versions (ct_connector task) = [TLS13]"
        "tc_peer (ct_connector task) = ServerRoots roots"
        "trusted_roots (ch_tls host) (co_server_ca_cert options) roots"
    by blast
  from tls_library.client_task_peer [OF assms(1,6,7) facts(1,2)] facts(2,3) name
  show ?thesis by metis
qed

theorem only_the_named_server_is_relayed_to_witness:
  "trusted_roots (ch_tls demo_client_host) ''ca'' [1] \<and>
   sim_valid_server [1] [7] (lit ''host'')"
proof -
  have "demo_client_task \<in>#
      mset (fst (l_sessions (demo_client 0 [demo_client_task] \<lparr>wc_version = 0, wc_closed = True\<rparr> 0 Draining
        [LimitReached] 2 demo_fs_bound)))"
    by (simp add: demo_client_def)
  from only_the_named_server_is_relayed_to [OF sim_tls.tls_library_axioms
      client_rt.client_runtime_axioms demo_client_start demo_client_run this demo_client_task_run]
  show ?thesis
    by (auto simp: sim_library_def sim_connect_def demo_client_options_def demo_client_host_def
        demo_client_task_def demo_client_context_def demo_client_endpoint_ops_def
        dest!: sim_handshake_Ok)
qed

end
