(* ===== verification/Drain.thy ===== *)
theory Drain
  imports Server_Loop Client_Loop
begin

section \<open>The drain at the end of both loops (src/server.rs, lines 140 to 145; src/client.rs, 158 to 163)\<close>

text \<open>
  The last part of both accept loops in time: \<open>timeout(TASK_DRAIN_TIMEOUT, \<dots>)\<close> around the loop
  over \<open>join_next\<close>, then \<open>abort_all\<close>.  The loop polls until \<open>join_next\<close> would wait; the timeout
  looks at its deadline only when the loop is not done; then the task sleeps until some sessions
  end or the deadline passes.  \<open>drain\<close> is that function with the clock; it is related to the
  events of the step relations, which leave out the time.
\<close>

definition TASK_DRAIN_TIMEOUT :: duration where
  "TASK_DRAIN_TIMEOUT = from_secs 10"

definition CLIENT_TASK_DRAIN_TIMEOUT :: duration where
  "CLIENT_TASK_DRAIN_TIMEOUT = from_secs 10"

text \<open>\<open>while sessions.join_next().await.is_some() {}\<close>, until it is done or would wait.\<close>

partial_function (option) join_all ::
  "('sem, 'js, 'k, 'c, 'r) runtime_ops \<Rightarrow> ('sem, 'js, 'c, 'r, 'x) loop_state_scheme \<Rightarrow>
     ('sem, 'js, 'c, 'r, 'x) loop_state_scheme option" where
  "join_all rt s = (case drain_one rt s of None \<Rightarrow> Some s | Some s' \<Rightarrow> join_all rt s')"

text \<open>Session tasks that end while the loop sleeps.\<close>

fun tasks_end ::
  "('sem, 'js, 'k, 'c, 'r) runtime_ops \<Rightarrow> 'k list \<Rightarrow> ('sem, 'js, 'c, 'r, 'x) loop_state_scheme \<Rightarrow>
     ('sem, 'js, 'c, 'r, 'x) loop_state_scheme" where
  "tasks_end rt [] s = s"
| "tasks_end rt (k # ks) s =
     tasks_end rt ks (case task_ends rt k s of Some s' \<Rightarrow> s' | None \<Rightarrow> s)"

text \<open>
  The environment gives, at each wake-up, the tasks that have ended since the last one.  The
  result says whether the timeout elapsed.
\<close>

type_synonym ('k, 'w) drain_env = "'w \<Rightarrow> 'k list \<times> 'w"

partial_function (option) drain ::
  "('sem, 'js, 'k, 'c, 'r) runtime_ops \<Rightarrow> ('k, 'w) drain_env \<Rightarrow> ('w \<Rightarrow> nat) \<Rightarrow> nat \<Rightarrow>
   ('sem, 'js, 'c, 'r, 'x) loop_state_scheme \<Rightarrow> 'w \<Rightarrow>
     (bool \<times> ('sem, 'js, 'c, 'r, 'x) loop_state_scheme \<times> 'w) option" where
  "drain rt env now deadline s w =
     (case join_all rt s of
        None \<Rightarrow> None
      | Some s1 \<Rightarrow>
          if js_is_empty (rt_join_set rt) (l_sessions s1) then Some (False, s1, w)
          else if deadline \<le> now w then Some (True, s1, w)
          else (case env w of (ended, w') \<Rightarrow>
                  drain rt env now deadline (tasks_end rt ended s1) w'))"

text \<open>The world after the first \<open>n\<close> wake-ups, and the tasks that those have reported.\<close>

primrec woken :: "('k, 'w) drain_env \<Rightarrow> nat \<Rightarrow> 'w \<Rightarrow> 'w" where
  "woken env 0 w = w"
| "woken env (Suc n) w = woken env n (snd (env w))"

primrec reported :: "('k, 'w) drain_env \<Rightarrow> nat \<Rightarrow> 'w \<Rightarrow> 'k multiset" where
  "reported env 0 w = {#}"
| "reported env (Suc n) w = mset (fst (env w)) + reported env n (snd (env w))"

definition drain_and_abort ::
  "('sem, 'js, 'k, 'c, 'r) runtime_ops \<Rightarrow> ('k, 'w) drain_env \<Rightarrow> ('w \<Rightarrow> nat) \<Rightarrow>
   ('sem, 'js, 'c, 'r, 'x) loop_state_scheme \<Rightarrow> 'w \<Rightarrow>
     (('sem, 'js, 'c, 'r, 'x) loop_state_scheme \<times> 'w) option" where
  "drain_and_abort rt env now s w =
     map_option (\<lambda>(_, s', w'). (abort_sessions rt s', w'))
       (drain rt env now (now w + TASK_DRAIN_TIMEOUT) s w)"

text \<open>The client's function returns from here, so its listener is dropped as well.\<close>

definition client_drain_and_return ::
  "('w0, 'rd, 'cert, 'key, 'roots, 'n, 'lis) client_host \<Rightarrow> ('sem, 'js, 'k, 'c, 'r) runtime_ops \<Rightarrow>
   ('k, 'w) drain_env \<Rightarrow> ('w \<Rightarrow> nat) \<Rightarrow> ('sem, 'js, 'c, 'r, 'lis, 'w0) client_state \<Rightarrow> 'w \<Rightarrow>
     (('sem, 'js, 'c, 'r, 'lis, 'w0) client_state \<times> 'w) option" where
  "client_drain_and_return host rt env now s w =
     map_option (\<lambda>(_, s', w'). (client_return host rt (Ok ()) s', w'))
       (drain rt env now (now w + CLIENT_TASK_DRAIN_TIMEOUT) s w)"


subsection \<open>A drain is a sequence of the loop's events\<close>

inductive drain_move ::
  "('sem, 'js, 'k, 'c, 'r) runtime_ops \<Rightarrow> ('sem, 'js, 'c, 'r, 'x) loop_state_scheme \<Rightarrow>
     ('sem, 'js, 'c, 'r, 'x) loop_state_scheme \<Rightarrow> bool" for rt where
  joined: "drain_one rt s = Some s' \<Longrightarrow> drain_move rt s s'"
| ended: "task_ends rt k s = Some s' \<Longrightarrow> drain_move rt s s'"

lemma drain_move_phase: "drain_move rt s s' \<Longrightarrow> l_phase s' = l_phase s"
  by (erule drain_move.cases) (auto simp: drain_one_def task_ends_def)

lemma drain_moves_phase: "(drain_move rt)\<^sup>*\<^sup>* s s' \<Longrightarrow> l_phase s' = l_phase s"
  by (induction rule: rtranclp_induct) (auto dest: drain_move_phase)

lemma drain_moves_server:
  "(drain_move rt)\<^sup>*\<^sup>* s s' \<Longrightarrow> l_phase s = Draining \<Longrightarrow> (server_step rt ctx)\<^sup>*\<^sup>* s s'"
proof (induction rule: rtranclp_induct)
  case base
  then show ?case by simp
next
  case (step t u)
  have draining: "l_phase t = Draining"
    using drain_moves_phase [OF step(1)] step(4) by simp
  from step(2) have "server_step rt ctx t u"
  proof cases
    case joined
    with draining show ?thesis by (intro server_step.event [where ev = ServerDrained]) simp
  next
    case (ended k)
    with draining show ?thesis by (intro server_step.event [where ev = "ServerTaskEnds k"]) simp
  qed
  with step(3) [OF step(4)] show ?case by simp
qed

lemma drain_moves_client:
  "(drain_move rt)\<^sup>*\<^sup>* s s' \<Longrightarrow> l_phase s = Draining \<Longrightarrow> (client_step host rt ctx)\<^sup>*\<^sup>* s s'"
proof (induction rule: rtranclp_induct)
  case base
  then show ?case by simp
next
  case (step t u)
  have draining: "l_phase t = Draining"
    using drain_moves_phase [OF step(1)] step(4) by simp
  from step(2) have "client_step host rt ctx t u"
  proof cases
    case joined
    with draining show ?thesis by (intro client_step.event [where ev = ClientDrained]) simp
  next
    case (ended k)
    with draining show ?thesis by (intro client_step.event [where ev = "ClientTaskEnds k"]) simp
  qed
  with step(3) [OF step(4)] show ?case by simp
qed

lemma tasks_end_moves: "(drain_move rt)\<^sup>*\<^sup>* s (tasks_end rt ks s)"
  by (induction ks arbitrary: s)
     (auto split: option.splits intro: converse_rtranclp_into_rtranclp drain_move.ended)

lemma join_all_moves:
  assumes "join_all rt s = Some s'"
  shows "(drain_move rt)\<^sup>*\<^sup>* s s'"
proof (rule join_all.raw_induct [where P = "\<lambda>rt s s'. (drain_move rt)\<^sup>*\<^sup>* s s'", OF _ assms])
  fix f rt s s'
  assume "\<And>rt s s'. f rt s = Some s' \<Longrightarrow> (drain_move rt)\<^sup>*\<^sup>* s s'"
    and "(case drain_one rt s of None \<Rightarrow> Some s | Some s' \<Rightarrow> f rt s') = Some s'"
  then show "(drain_move rt)\<^sup>*\<^sup>* s s'"
    by (auto split: option.splits intro: converse_rtranclp_into_rtranclp drain_move.joined)
qed

text \<open>How a drain can end.\<close>

definition drained ::
  "('sem, 'js, 'k, 'c, 'r) runtime_ops \<Rightarrow> ('w \<Rightarrow> nat) \<Rightarrow> nat \<Rightarrow>
   ('sem, 'js, 'c, 'r, 'x) loop_state_scheme \<Rightarrow>
   bool \<times> ('sem, 'js, 'c, 'r, 'x) loop_state_scheme \<times> 'w \<Rightarrow> bool" where
  "drained rt now deadline s = (\<lambda>(timed_out, s', w').
     (drain_move rt)\<^sup>*\<^sup>* s s' \<and>
     (if timed_out then deadline \<le> now w' else js_is_empty (rt_join_set rt) (l_sessions s')))"

lemma drained_moves:
  "(drain_move rt)\<^sup>*\<^sup>* s t \<Longrightarrow> drained rt now deadline t y \<Longrightarrow> drained rt now deadline s y"
  by (auto simp: drained_def split: prod.splits)

lemma drain_drained:
  assumes "drain rt env now deadline s w = Some y"
  shows "drained rt now deadline s y"
proof (rule drain.raw_induct [where P = "\<lambda>rt env now deadline s w y. drained rt now deadline s y",
      OF _ assms])
  fix f rt env now deadline s w y
  assume IH: "\<And>rt env now deadline s w y. f rt env now deadline s w = Some y \<Longrightarrow>
      drained rt now deadline s y"
    and eq: "(case join_all rt s of
        None \<Rightarrow> None
      | Some s1 \<Rightarrow>
          if js_is_empty (rt_join_set rt) (l_sessions s1) then Some (False, s1, w)
          else if deadline \<le> now w then Some (True, s1, w)
          else (case env w of (ended, w') \<Rightarrow> f rt env now deadline (tasks_end rt ended s1) w')) =
      Some y"
  from eq obtain s1 where s1: "join_all rt s = Some s1" by (auto split: option.splits)
  have moves: "(drain_move rt)\<^sup>*\<^sup>* s (tasks_end rt ended s1)" for ended
    using join_all_moves [OF s1] tasks_end_moves by (rule rtranclp_trans)
  consider (empty) "y = (False, s1, w)" "js_is_empty (rt_join_set rt) (l_sessions s1)"
    | (elapsed) "y = (True, s1, w)" "deadline \<le> now w"
    | (again) ended w' where "f rt env now deadline (tasks_end rt ended s1) w' = Some y"
  proof -
    obtain ended w' where "env w = (ended, w')" by fastforce
    then have body: "(if js_is_empty (rt_join_set rt) (l_sessions s1) then Some (False, s1, w)
        else if deadline \<le> now w then Some (True, s1, w)
        else f rt env now deadline (tasks_end rt ended s1) w') = Some y"
      using eq by (simp only: s1 option.case prod.case)
    show thesis
    proof (cases "js_is_empty (rt_join_set rt) (l_sessions s1)")
      case True
      with body show thesis by (intro empty) (simp_all only: if_True option.inject)
    next
      case False
      with body elapsed again show thesis
        by (cases "deadline \<le> now w") (simp_all only: if_True if_False option.inject simp_thms)
    qed
  qed
  then show "drained rt now deadline s y"
  proof cases
    case again
    from drained_moves [OF moves IH [OF again]] show ?thesis .
  qed (use join_all_moves [OF s1] in \<open>simp_all add: drained_def\<close>)
qed


subsection \<open>It ends, in time\<close>

text \<open>
  What the drain relies on: time passes between two wake-ups, and the timer wakes the task within
  \<open>slack\<close> of the deadline.
\<close>

locale drain_clock =
  fixes env :: "('k, 'w) drain_env" and now :: "'w \<Rightarrow> nat" and deadline slack :: nat
  assumes now_wake: "now w < now (snd (env w))"
    and wake_le: "now w < deadline \<Longrightarrow> now (snd (env w)) \<le> deadline + slack"

context loop_runtime
begin

lemma drain_one_finished:
  "drain_one rt s = Some s' \<Longrightarrow>
     size (finished (l_sessions s')) < size (finished (l_sessions s)) \<and>
     running (l_sessions s') = running (l_sessions s)"
  by (auto simp: drain_one_def dest!: tasks.join_Some)

lemma join_all_returns:
  "\<exists>s'. join_all rt s = Some s' \<and> finished (l_sessions s') = {#} \<and>
     running (l_sessions s') = running (l_sessions s)"
proof (induction "size (finished (l_sessions s))" arbitrary: s rule: less_induct)
  case less
  show ?case
  proof (cases "drain_one rt s")
    case None
    then have "finished (l_sessions s) = {#}"
      by (auto simp: drain_one_def tasks.join_None)
    with None show ?thesis by (simp add: join_all.simps [of rt s])
  next
    case (Some t)
    from less [of t] drain_one_finished [OF Some] Some show ?thesis
      by (simp add: join_all.simps [of rt s])
  qed
qed

lemma task_ends_running_eq:
  "running (l_sessions (case task_ends rt k s of Some s' \<Rightarrow> s' | None \<Rightarrow> s)) =
     running (l_sessions s) - {#k#}"
proof (cases "js_finish (rt_join_set rt) k (l_sessions s)")
  case None
  moreover from this have "k \<notin># running (l_sessions s)" by (simp add: tasks.finish_None)
  ultimately show ?thesis by (simp add: task_ends_def diff_single_trivial)
next
  case (Some js)
  from tasks.finish_Some [OF this] Some show ?thesis by (simp add: task_ends_def)
qed

lemma tasks_end_running:
  "running (l_sessions (tasks_end rt ks s)) = running (l_sessions s) - mset ks"
  by (induction ks arbitrary: s) (simp_all add: task_ends_running_eq)

text \<open>One wake-up of the drain, with the polling done.\<close>

lemma drain_wake:
  obtains s1 where "finished (l_sessions s1) = {#}" "running (l_sessions s1) = running (l_sessions s)"
    "drain rt env now deadline s w =
       (if running (l_sessions s) = {#} then Some (False, s1, w)
        else if deadline \<le> now w then Some (True, s1, w)
        else drain rt env now deadline (tasks_end rt (fst (env w)) s1) (snd (env w)))"
proof -
  from join_all_returns [of s] obtain s1 where "join_all rt s = Some s1"
      "finished (l_sessions s1) = {#}" "running (l_sessions s1) = running (l_sessions s)"
    by blast
  then show ?thesis
    by (intro that [of s1])
       (simp_all add: drain.simps [of rt env now deadline s w] tasks.is_empty_iff case_prod_unfold)
qed

lemma drain_returns:
  assumes "drain_clock env now deadline slack"
  shows "\<exists>timed_out s' w'. drain rt env now deadline s w = Some (timed_out, s', w') \<and>
    now w' \<le> max (now w) (deadline + slack)"
proof (induction "deadline - now w" arbitrary: s w rule: less_induct)
  case less
  obtain s1 where step: "drain rt env now deadline s w =
      (if running (l_sessions s) = {#} then Some (False, s1, w)
       else if deadline \<le> now w then Some (True, s1, w)
       else drain rt env now deadline (tasks_end rt (fst (env w)) s1) (snd (env w)))"
    by (rule drain_wake)
  show ?case
  proof (cases "running (l_sessions s) = {#} \<or> deadline \<le> now w")
    case True
    with step show ?thesis by auto
  next
    case False
    have "now w < now (snd (env w))" "now (snd (env w)) \<le> deadline + slack"
      using False drain_clock.now_wake [OF assms] drain_clock.wake_le [OF assms] by auto
    with less [of "snd (env w)" "tasks_end rt (fst (env w)) s1"] False step show ?thesis by auto
  qed
qed

text \<open>
  Sessions that have all been reported as ended by a time before the deadline are never aborted:
  the timeout polls its loop before it looks at the clock.
\<close>

lemma drain_graceful:
  assumes "drain_clock env now deadline slack" "finish \<le> deadline"
    and "\<And>n. finish \<le> now (woken env n w) \<Longrightarrow> running (l_sessions s) \<subseteq># reported env n w"
    and "drain rt env now deadline s w = Some (timed_out, s', w')"
  shows "\<not> timed_out \<and> running (l_sessions s') = {#}"
  using assms(3-)
proof (induction "deadline - now w" arbitrary: s w rule: less_induct)
  case less
  obtain s1 where s1: "running (l_sessions s1) = running (l_sessions s)"
    and step: "drain rt env now deadline s w =
      (if running (l_sessions s) = {#} then Some (False, s1, w)
       else if deadline \<le> now w then Some (True, s1, w)
       else drain rt env now deadline (tasks_end rt (fst (env w)) s1) (snd (env w)))"
    by (rule drain_wake)
  show ?case
  proof (cases "running (l_sessions s) = {#}")
    case True
    with less.prems(2) step s1 show ?thesis by simp
  next
    case False
    let ?t = "tasks_end rt (fst (env w)) s1"
    have early: "now w < deadline" using False less.prems(1) [of 0] assms(2) by force
    with drain_clock.now_wake [OF assms(1)] have "deadline - now (snd (env w)) < deadline - now w"
      by (meson diff_less_mono2)
    moreover have "running (l_sessions ?t) \<subseteq># reported env n (snd (env w))"
      if "finish \<le> now (woken env n (snd (env w)))" for n
      using less.prems(1) [of "Suc n"] that
      by (simp add: tasks_end_running s1 subset_eq_diff_conv add.commute)
    moreover have "drain rt env now deadline ?t (snd (env w)) = Some (timed_out, s', w')"
      using less.prems(2) step False early by simp
    ultimately show ?thesis by (rule less.hyps)
  qed
qed

end

text \<open>A runtime whose timer wakes the task every second, with the sessions that have ended.\<close>

definition second_env :: "'k list \<Rightarrow> ('k, nat) drain_env" where
  "second_env ks w = (ks, w + 1000000000)"

interpretation seconds: drain_clock "second_env ks" "\<lambda>w. w" deadline 1000000000 for ks deadline
  by unfold_locales (auto simp: second_env_def)

text \<open>The same timer, with the sessions that have ended given by the time.\<close>

definition staged_env :: "(nat \<Rightarrow> 'k list) \<Rightarrow> ('k, nat) drain_env" where
  "staged_env ended w = (ended w, w + 1000000000)"

interpretation staged: drain_clock "staged_env ended" "\<lambda>w. w" deadline 1000000000 for ended deadline
  by unfold_locales (auto simp: staged_env_def)

lemma woken_staged: "woken (staged_env ended) n w = w + n * 1000000000"
  by (induction n arbitrary: w) (simp_all add: staged_env_def)

lemma drain_steps:
  assumes "drain rt env now deadline s w = Some (timed_out, s1, w')" "l_phase s = Draining"
  shows "(drain_move rt)\<^sup>*\<^sup>* s s1 \<and> l_phase s1 = Draining \<and>
    (if timed_out then deadline \<le> now w' else js_is_empty (rt_join_set rt) (l_sessions s1))"
  using drain_drained [OF assms(1)] drain_moves_phase [of rt s s1] assms(2)
  by (auto simp: drained_def)

lemma server_drain_steps:
  assumes "drain rt env now deadline s w = Some (timed_out, s1, w')" "l_phase s = Draining"
  shows "(server_step rt ctx)\<^sup>*\<^sup>* s (abort_sessions rt s1)"
proof -
  note drained = drain_steps [OF assms]
  then have "server_step rt ctx s1 (abort_sessions rt s1)"
    by (intro server_step.event [where ev = "ServerDrainOver timed_out"]) (simp split: if_splits)
  with drain_moves_server [of rt s s1] drained assms(2) show ?thesis
    by (meson rtranclp.rtrancl_into_rtrancl)
qed

lemma client_drain_steps:
  assumes "drain rt env now deadline s w = Some (timed_out, s1, w')" "l_phase s = Draining"
  shows "(client_step host rt ctx)\<^sup>*\<^sup>* s (client_return host rt (Ok ()) s1)"
proof -
  note drained = drain_steps [OF assms]
  then have "client_step host rt ctx s1 (client_return host rt (Ok ()) s1)"
    by (intro client_step.event [where ev = "ClientDrainOver timed_out"]) (simp split: if_splits)
  with drain_moves_client [of rt s s1] drained assms(2) show ?thesis
    by (meson rtranclp.rtrancl_into_rtrancl)
qed

text \<open>The client's drain ends like the server's, with the listener dropped.\<close>

lemma client_drain_ends:
  assumes "client_runtime rt available running finished version closed seen"
    and "drain_clock env now (now w + from_secs 10) slack" "l_phase s = Draining"
  shows "\<exists>s' w'. client_drain_and_return host rt env now s w = Some (s', w') \<and>
    (client_step host rt ctx)\<^sup>*\<^sup>* s s' \<and> l_phase s' = Stopped \<and> cl_result s' = Some (Ok ()) \<and>
    now w' \<le> now w + from_secs 10 + slack"
proof -
  have "loop_runtime rt available running finished version closed seen"
    using assms(1) by (simp add: client_runtime_def)
  from loop_runtime.drain_returns [OF this assms(2), of s w] obtain timed_out s1 w' where
      run: "drain rt env now (now w + from_secs 10) s w = Some (timed_out, s1, w')"
    and time: "now w' \<le> now w + from_secs 10 + slack"
    by (auto simp: max_def split: if_splits)
  from run time client_drain_steps [OF run assms(3), of host ctx] show ?thesis
    by (simp add: client_drain_and_return_def CLIENT_TASK_DRAIN_TIMEOUT_def client_return_def
        abort_sessions_def)
qed


subsection \<open>Properties\<close>

text \<open>The drain ends, in time.  When the server's loop has been left, its drain returns within ten
  seconds and the timer's slack, whatever the sessions do; it is a sequence of the loop's events
  and ends in the stopped phase with no session left; and a session that was still running when
  the tasks were aborted had the full ten seconds.\<close>

lemma server_drain_ends:
  assumes "server_runtime rt available running finished version closed seen"
    and "drain_clock env now (now w + from_secs 10) slack"
    and "l_phase s = Draining"
  shows "\<exists>timed_out s1 s' w'.
     drain rt env now (now w + TASK_DRAIN_TIMEOUT) s w = Some (timed_out, s1, w') \<and>
     drain_and_abort rt env now s w = Some (s', w') \<and> (server_step rt ctx)\<^sup>*\<^sup>* s s' \<and>
     l_phase s' = Stopped \<and> running (l_sessions s') = {#} \<and>
     now w' \<le> now w + from_secs 10 + slack \<and>
     (running (l_sessions s1) \<noteq> {#} \<longrightarrow> now w + from_secs 10 \<le> now w')"
proof -
  have rt: "loop_runtime rt available running finished version closed seen"
    using assms(1) by (simp add: server_runtime_def)
  from loop_runtime.drain_returns [OF rt assms(2), of s w] obtain timed_out s1 w' where
      run: "drain rt env now (now w + from_secs 10) s w = Some (timed_out, s1, w')"
    and time: "now w' \<le> now w + from_secs 10 + slack"
    by (auto simp: max_def split: if_splits)
  have empty: "js_is_empty (rt_join_set rt) (l_sessions s1) \<Longrightarrow> running (l_sessions s1) = {#}"
    using rt join_set.is_empty_iff by (fastforce simp: loop_runtime_def)
  note steps = server_drain_steps [OF run assms(3), of ctx] drain_steps [OF run assms(3)]
  have "running (l_sessions s1) \<noteq> {#} \<longrightarrow> now w + from_secs 10 \<le> now w'"
    using steps(2) empty by (cases timed_out) simp_all
  moreover have "drain_and_abort rt env now s w = Some (abort_sessions rt s1, w')"
    "drain rt env now (now w + TASK_DRAIN_TIMEOUT) s w = Some (timed_out, s1, w')"
    using run by (simp_all add: drain_and_abort_def TASK_DRAIN_TIMEOUT_def)
  moreover have "l_phase (abort_sessions rt s1) = Stopped" by (simp add: abort_sessions_def)
  ultimately show ?thesis using steps(1) loop_runtime.abort_running [OF rt, of s1] time by blast
qed

text \<open>C22: sessions that heed the signal are not aborted.  Each wake-up reports the sessions that have
  ended since the last one.  If every session that was running has been reported, at whichever
  wake-ups, by the first one at or after some time within the ten seconds, the drain finds them
  all, its timeout does not elapse, and nothing is left for \<open>abort_all\<close>, in either role, however
  late the timer wakes the task.\<close>

theorem drain_spares_ending_sessions:
  assumes "loop_runtime rt available running finished version closed seen"
    and "drain_clock env now (now w + from_secs 10) slack" "finish \<le> now w + from_secs 10"
    and "\<And>n. finish \<le> now (woken env n w) \<Longrightarrow> running (l_sessions s) \<subseteq># reported env n w"
  shows "\<exists>s1 w'. drain rt env now (now w + TASK_DRAIN_TIMEOUT) s w = Some (False, s1, w') \<and>
     running (l_sessions s1) = {#} \<and>
     drain_and_abort rt env now s w = Some (abort_sessions rt s1, w')"
proof -
  from loop_runtime.drain_returns [OF assms(1,2), of s w] obtain timed_out s1 w' where
      run: "drain rt env now (now w + from_secs 10) s w = Some (timed_out, s1, w')" by auto
  have "\<not> timed_out \<and> running (l_sessions s1) = {#}"
    by (rule loop_runtime.drain_graceful [OF assms(1-4) run])
  with run show ?thesis by (simp add: drain_and_abort_def TASK_DRAIN_TIMEOUT_def)
qed

theorem drain_spares_ending_sessions_witness:
  "\<exists>s1 w'. drain demo_runtime
       (staged_env (\<lambda>w. if w = 5 then [demo_task ''a''] else if w = 1000000005 then [demo_task ''b''] else []))
       (\<lambda>w. w) (5 + TASK_DRAIN_TIMEOUT)
       (demo_loop 0 [demo_task ''a'', demo_task ''b''] demo_chan 1 Draining []) 5 = Some (False, s1, w') \<and>
     fst (l_sessions s1) = []"
proof -
  let ?ended = "\<lambda>w::nat. if w = 5 then [demo_task ''a''] else if w = 1000000005 then [demo_task ''b''] else []"
  let ?s = "demo_loop 0 [demo_task ''a'', demo_task ''b''] demo_chan 1 Draining []"
  have finish: "2000000005 \<le> (5::nat) + from_secs 10" by (simp add: from_secs_def)
  have ended: "mset (fst (l_sessions ?s)) \<subseteq># reported (staged_env ?ended) n 5"
    if late: "2000000005 \<le> woken (staged_env ?ended) n 5" for n
  proof -
    from late have "n = Suc (Suc (n - 2))" by (simp add: woken_staged)
    then obtain m where "n = Suc (Suc m)" by blast
    then show ?thesis by (simp add: staged_env_def demo_loop_def add.commute)
  qed
  from drain_spares_ending_sessions [OF rt.loop_runtime_axioms
      staged.drain_clock_axioms [where ended = ?ended] finish ended]
  show ?thesis by auto
qed

end
