(* ===== verification/Byte_Flow.thy ===== *)
theory Byte_Flow
  imports Relay "HOL-Library.Sublist"
begin

section \<open>The bytes a relay carries\<close>

text \<open>
  What a relay does to the bytes of its two streams.  The copying itself is the runtime's
  (\<open>copy_bidirectional\<close>): \<open>byte_copy\<close> states what its documentation promises of one wake-up.
  Each direction is a \<open>flow\<close>: the bytes taken from one stream since it was made, the bytes given
  to the other one since it was made, the bytes taken and not yet given, and the number of bytes
  the copy has carried.  A wake-up takes some bytes and gives some, in order, and makes up none.
\<close>

record flow =
  fl_in :: "u8 list"
  fl_out :: "u8 list"
  fl_held :: "u8 list"
  fl_count :: nat

definition flow_moves :: "flow \<Rightarrow> flow \<Rightarrow> bool" where
  "flow_moves f f' \<longleftrightarrow>
     (\<exists>d x. fl_in f' = fl_in f @ d \<and> fl_out f' = fl_out f @ x \<and>
        fl_held f @ d = x @ fl_held f' \<and> fl_count f' = fl_count f + length x)"

lemma flow_moves_refl: "flow_moves f f"
  by (simp add: flow_moves_def)

lemma flow_moves_trans [trans]:
  assumes "flow_moves f g" "flow_moves g h"
  shows "flow_moves f h"
proof -
  from assms obtain d1 x1 d2 x2 where
      1: "fl_in g = fl_in f @ d1" "fl_out g = fl_out f @ x1" "fl_held f @ d1 = x1 @ fl_held g"
        "fl_count g = fl_count f + length x1"
    and 2: "fl_in h = fl_in g @ d2" "fl_out h = fl_out g @ x2" "fl_held g @ d2 = x2 @ fl_held h"
        "fl_count h = fl_count g + length x2"
    unfolding flow_moves_def by blast
  have "fl_held f @ d1 @ d2 = (x1 @ x2) @ fl_held h"
    using 1(3) 2(3) by (metis append.assoc)
  with 1 2 show ?thesis
    unfolding flow_moves_def by (intro exI [of _ "d1 @ d2"] exI [of _ "x1 @ x2"]) simp
qed

text \<open>A direction on which a copy has not begun: nothing taken, nothing held, nothing counted.\<close>

definition flow_idle :: "flow \<Rightarrow> bool" where
  "flow_idle f \<longleftrightarrow> fl_in f = [] \<and> fl_held f = [] \<and> fl_count f = 0"

text \<open>
  From an idle direction on which \<open>pre\<close> had been given already, what has been given since is the
  beginning of what was taken, and all of it when nothing is held back.
\<close>

definition flow_carried :: "u8 list \<Rightarrow> flow \<Rightarrow> bool" where
  "flow_carried pre f \<longleftrightarrow>
     (\<exists>sent. fl_out f = pre @ sent \<and> fl_in f = sent @ fl_held f \<and> fl_count f = length sent)"

lemma flow_moves_carried:
  assumes "flow_moves f f'" "flow_idle f"
  shows "flow_carried (fl_out f) f'"
  using assms by (auto simp: flow_moves_def flow_idle_def flow_carried_def)

lemma flow_carried_prefix:
  "flow_carried pre f \<Longrightarrow> \<exists>sent. fl_out f = pre @ sent \<and> prefix sent (fl_in f)"
  by (auto simp: flow_carried_def)

lemma flow_carried_all:
  "flow_carried pre f \<Longrightarrow> fl_held f = [] \<Longrightarrow>
     fl_out f = pre @ fl_in f \<and> fl_count f = length (fl_in f)"
  by (auto simp: flow_carried_def)


subsection \<open>What the runtime's copy promises\<close>

text \<open>
  \<open>lr\<close> observes the direction from left to right, \<open>rl\<close> the other one.  A completed copy has
  nothing left to give and reports its counters, which are 64 bits wide.
\<close>

locale byte_copy =
  fixes env :: "('l, 'r, 'w) relay_env"
    and lr rl :: "'l \<Rightarrow> 'r \<Rightarrow> 'w \<Rightarrow> flow"
  assumes copy_lr: "env l r w = (b, copy, changed, w') \<Longrightarrow> flow_moves (lr l r w) (lr l r w')"
    and copy_rl: "env l r w = (b, copy, changed, w') \<Longrightarrow> flow_moves (rl l r w) (rl l r w')"
    and copy_done: "env l r w = (b, Some (Ok (n, m)), changed, w') \<Longrightarrow>
      fl_held (lr l r w') = [] \<and> fl_held (rl l r w') = [] \<and>
      n = of_nat (fl_count (lr l r w')) \<and> m = of_nat (fl_count (rl l r w'))"
begin

lemma relay_moves:
  assumes "relay env l r w = Some (res, w')"
  shows "flow_moves (lr l r w) (lr l r w') \<and> flow_moves (rl l r w) (rl l r w')"
proof -
  define ok where "ok e l r w w' \<longleftrightarrow> (e = env \<longrightarrow>
      flow_moves (lr l r w) (lr l r w') \<and> flow_moves (rl l r w) (rl l r w'))"
    for e :: "('l, 'r, 'w) relay_env" and l r w w'
  have "ok env l r w (snd y)" if "relay env l r w = Some y" for y
  proof (rule relay.raw_induct [where P = "\<lambda>env l r w y. ok env l r w (snd y)", OF _ that])
    fix f e l r w y
    assume IH: "\<And>e l r w y. f e l r w = Some y \<Longrightarrow> ok e l r w (snd y)"
      and eq: "(case e l r w of
        (copy_first, copy, changed, w') \<Rightarrow>
          (case relay_poll copy_first copy changed of
             Some r \<Rightarrow> Some (r, w')
           | None \<Rightarrow> f e l r w')) = Some y"
    obtain b copy changed w1 where wake: "e l r w = (b, copy, changed, w1)"
      by (metis prod_cases4)
    show "ok e l r w (snd y)"
      using eq wake copy_lr [of l r w b copy changed w1] copy_rl [of l r w b copy changed w1]
        IH [of e l r w1 y]
      by (auto simp: ok_def split: option.splits intro: flow_moves_trans)
  qed
  from this [OF assms] show ?thesis by (simp add: ok_def)
qed

lemma relay_completed:
  assumes "relay env l r w = Some (Ok st, w')"
  shows "fl_held (lr l r w') = [] \<and> fl_held (rl l r w') = [] \<and>
    left_to_right st = of_nat (fl_count (lr l r w')) \<and>
    right_to_left st = of_nat (fl_count (rl l r w'))"
  using relay_ends [OF assms] copy_done unfolding relay_ended_def by fastforce

text \<open>A whole relay between two idle directions.\<close>

lemma relay_carries:
  assumes "relay env l r w = Some (res, w')"
    and "flow_idle (lr l r w)" "flow_idle (rl l r w)"
  shows "flow_carried (fl_out (lr l r w)) (lr l r w') \<and>
    flow_carried (fl_out (rl l r w)) (rl l r w')"
  using relay_moves [OF assms(1)] assms(2,3) flow_moves_carried by blast

end


subsection \<open>A pipe that keeps the promise\<close>

text \<open>
  An executable copy over a simulated pair of streams: each wake-up gives what is held and takes
  at most \<open>chunk\<close> further bytes; it completes when both streams are at their end.
\<close>

record pipes =
  pp_lr_todo :: "u8 list"
  pp_lr :: flow
  pp_rl_todo :: "u8 list"
  pp_rl :: flow

definition fresh_flow :: flow where
  "fresh_flow = \<lparr>fl_in = [], fl_out = [], fl_held = [], fl_count = 0\<rparr>"

definition flow_turn :: "u8 list \<Rightarrow> flow \<Rightarrow> flow" where
  "flow_turn d f = \<lparr>fl_in = fl_in f @ d, fl_out = fl_out f @ fl_held f, fl_held = d,
     fl_count = fl_count f + length (fl_held f)\<rparr>"

definition pipes_turn :: "nat \<Rightarrow> ('x pipes_scheme \<Rightarrow> bool) \<Rightarrow> 'x pipes_scheme \<Rightarrow>
    bool \<times> (u64 \<times> u64, io_error) result option \<times> (unit, unit) result option \<times> 'x pipes_scheme"
  where
  "pipes_turn chunk stop w =
     (let w' = w\<lparr>pp_lr := flow_turn (take chunk (pp_lr_todo w)) (pp_lr w),
                 pp_lr_todo := drop chunk (pp_lr_todo w),
                 pp_rl := flow_turn (take chunk (pp_rl_todo w)) (pp_rl w),
                 pp_rl_todo := drop chunk (pp_rl_todo w)\<rparr>
      in (True,
          if fl_held (pp_lr w') = [] \<and> fl_held (pp_rl w') = []
          then Some (Ok (of_nat (fl_count (pp_lr w')), of_nat (fl_count (pp_rl w')))) else None,
          if stop w' then Some (Ok ()) else None, w'))"

lemma flow_turn_moves: "flow_moves f (flow_turn d f)"
  by (auto simp: flow_moves_def flow_turn_def)

interpretation pipe: byte_copy "\<lambda>l r. pipes_turn chunk stop" "\<lambda>l r. pp_lr" "\<lambda>l r. pp_rl"
  for chunk stop
  by unfold_locales (auto simp: pipes_turn_def Let_def flow_turn_moves split: if_splits)

end
