(* ===== verification/Session_Flow.thy ===== *)
theory Session_Flow
  imports Byte_Flow Client_Session
begin

section \<open>The bytes a session carries, from end to end\<close>

text \<open>
  The sessions of both roles over streams whose bytes are observed.  The locales say what the
  sessions rely on of their connections: a new connection carries nothing yet, writing appends,
  and an operation on one connection leaves the other one's bytes alone.  The results say which
  bytes the agent and the local application receive, in which order, whatever way the session
  ends.
\<close>

subsection \<open>The server's session\<close>

text \<open>
  \<open>up\<close> observes the direction from the TLS peer to the agent, \<open>down\<close> the other one.  The TLS side
  of both is kept by everything that is done to the agent; an agent connection is new when nothing
  was given to it or taken from it.
\<close>

definition peer_kept ::
  "('tls \<Rightarrow> 'a \<Rightarrow> 'w \<Rightarrow> flow) \<Rightarrow> ('tls \<Rightarrow> 'a \<Rightarrow> 'w \<Rightarrow> flow) \<Rightarrow> 'w \<Rightarrow> 'w \<Rightarrow> bool" where
  "peer_kept up down w w' \<longleftrightarrow>
     (\<forall>tls a. fl_in (up tls a w') = fl_in (up tls a w) \<and>
        fl_out (down tls a w') = fl_out (down tls a w))"

definition agent_new ::
  "('tls \<Rightarrow> 'a \<Rightarrow> 'w \<Rightarrow> flow) \<Rightarrow> ('tls \<Rightarrow> 'a \<Rightarrow> 'w \<Rightarrow> flow) \<Rightarrow> 'a \<Rightarrow> u8 list \<Rightarrow> 'w \<Rightarrow> bool" where
  "agent_new up down a pre w \<longleftrightarrow>
     (\<forall>tls. fl_out (up tls a w) = pre \<and> fl_held (up tls a w) = [] \<and> fl_count (up tls a w) = 0 \<and>
        fl_in (down tls a w) = [] \<and> fl_held (down tls a w) = [] \<and> fl_count (down tls a w) = 0)"

lemma peer_kept_refl [simp]: "peer_kept up down w w"
  by (simp add: peer_kept_def)

lemma peer_kept_trans: "peer_kept up down w w1 \<Longrightarrow> peer_kept up down w1 w2 \<Longrightarrow> peer_kept up down w w2"
  by (simp add: peer_kept_def)

locale server_transport = byte_copy "s_relay ops" up down
  for ops :: "('w, 'h, 's, 'u, 'st, 'tls) session_ops"
    and up down :: "'tls \<Rightarrow> ('s, 'u) agent_stream \<Rightarrow> 'w \<Rightarrow> flow" +
  assumes accept_new: "s_accept ops d st w = (Some (Ok tls), w') \<Longrightarrow>
      fl_in (up tls a w') = [] \<and> fl_out (down tls a w') = []"
    and tcp_new: "a_tcp_connect (s_agent ops) d port w = (Some (Ok s), w') \<Longrightarrow>
      agent_new up down (StreamGpg4win s) [] w'"
    and unix_new: "a_unix_connect (s_agent ops) p w = (Ok u, w') \<Longrightarrow>
      agent_new up down (StreamUnix u) [] w'"
    and write_appends: "a_write_all (s_agent ops) s bs w = (Ok (), w') \<Longrightarrow>
      agent_new up down (StreamGpg4win s) pre w \<Longrightarrow>
      agent_new up down (StreamGpg4win s) (pre @ bs) w'"
    and flush_keeps: "a_flush (s_agent ops) s w = (Ok (), w') \<Longrightarrow>
      agent_new up down (StreamGpg4win s) pre w \<Longrightarrow> agent_new up down (StreamGpg4win s) pre w'"
    and metadata_len_kept: "peer_kept up down w (snd (f_metadata_len (s_agent ops) p w))"
    and open_kept: "peer_kept up down w (snd (f_open (s_agent ops) p w))"
    and read_kept: "peer_kept up down w (snd (f_read_limited (s_agent ops) h n w))"
    and tcp_kept: "peer_kept up down w (snd (a_tcp_connect (s_agent ops) d port w))"
    and unix_kept: "peer_kept up down w (snd (a_unix_connect (s_agent ops) p w))"
    and write_kept: "peer_kept up down w (snd (a_write_all (s_agent ops) s bs w))"
    and flush_kept: "peer_kept up down w (snd (a_flush (s_agent ops) s w))"
    and sleep_kept: "peer_kept up down w (a_sleep (s_agent ops) d w)"
begin

abbreviation "kept \<equiv> peer_kept up down"

lemma op_kept:
  "f_metadata_len (s_agent ops) p w = (r1, w') \<Longrightarrow> kept w w'"
  "f_open (s_agent ops) p w = (r2, w') \<Longrightarrow> kept w w'"
  "f_read_limited (s_agent ops) h n w = (r3, w') \<Longrightarrow> kept w w'"
  "a_tcp_connect (s_agent ops) d port w = (r4, w') \<Longrightarrow> kept w w'"
  "a_write_all (s_agent ops) s bs w = (r5, w') \<Longrightarrow> kept w w'"
  "a_flush (s_agent ops) s w = (r6, w') \<Longrightarrow> kept w w'"
  "a_unix_connect (s_agent ops) p w = (r7, w') \<Longrightarrow> kept w w'"
  using metadata_len_kept [of w p] open_kept [of w p] read_kept [of w h n]
    tcp_kept [of w d port] write_kept [of w s bs] flush_kept [of w s] unix_kept [of w p] by auto

lemma load_kept: "load_metadata (s_agent ops) p w = (r, w') \<Longrightarrow> kept w w'"
  by (cases r) (auto simp: load_metadata_def io_splits split: if_splits
      dest!: op_kept intro: peer_kept_trans)

lemma send_kept: "send_nonce (s_agent ops) s nonce w = (r, w') \<Longrightarrow> kept w w'"
  by (cases r) (auto simp: send_nonce_def io_splits dest!: op_kept intro: peer_kept_trans)

lemma attempt_kept: "gpg4win_attempt (s_agent ops) p w = (a, w') \<Longrightarrow> kept w w'"
  by (auto simp: gpg4win_attempt_def split: prod.splits result.splits option.splits
      dest!: load_kept op_kept(4) send_kept intro: peer_kept_trans)

lemma connect_loop_kept:
  assumes "connect_loop (s_agent ops) p deadline w = Some (r, w')"
  shows "kept w w'"
proof -
  define ok where "ok o' w w' \<longleftrightarrow> (o' = s_agent ops \<longrightarrow> kept w w')" for o' w w'
  have "ok (s_agent ops) w (snd y)" if "connect_loop (s_agent ops) p deadline w = Some y" for y
  proof (rule connect_loop.raw_induct [where P = "\<lambda>o' p deadline w y. ok o' w (snd y)", OF _ that])
    fix f o' p deadline w y
    assume IH: "\<And>o' p deadline w y. f o' p deadline w = Some y \<Longrightarrow> ok o' w (snd y)"
      and eq: "(case gpg4win_attempt o' p w of
          (Finished r, w') \<Rightarrow> Some (r, w')
        | (LastError e, w') \<Rightarrow>
            if deadline \<le> a_now o' w'
            then Some (Err (StartupWindowExpired (agent_error_display e)), w')
            else f o' p deadline (a_sleep o' AGENT_RETRY_DELAY w')) = Some y"
    show "ok o' w (snd y)"
      unfolding ok_def
    proof
      assume o': "o' = s_agent ops"
      obtain a w1 where a: "gpg4win_attempt o' p w = (a, w1)" by fastforce
      from attempt_kept a o' have 1: "kept w w1" by blast
      have 2: "kept w1 (a_sleep o' AGENT_RETRY_DELAY w1)" using sleep_kept o' by blast
      show "kept w (snd y)"
        using eq a 1 2 o' IH [of o' p deadline "a_sleep o' AGENT_RETRY_DELAY w1" y]
        by (auto simp: ok_def split: attempt_result.splits if_splits intro: peer_kept_trans)
    qed
  qed
  from this [OF assms] show ?thesis by (simp add: ok_def)
qed

lemma agent_connect_kept: "agent_connect (s_agent ops) connector w = Some (r, w') \<Longrightarrow> kept w w'"
  by (cases connector)
     (auto simp: connect_gpg4win_def connect_gpg4win_with_window_def dest: connect_loop_kept op_kept
       split: prod.splits result.splits)

text \<open>What has been sent to a new agent connection: the nonce, or nothing.\<close>

lemma authenticated_new:
  assumes "authenticated_connection (s_agent ops) p a w'"
  shows "\<exists>md w0 w1. load_metadata (s_agent ops) p w0 = (Ok md, w1) \<and>
    agent_new up down a (md_nonce md) w'"
  using assms tcp_new write_appends [where pre = "[]"] flush_keeps
  unfolding authenticated_connection_def by (metis append_Nil)

text \<open>A relay that starts on a new agent connection of a peer that was just accepted.\<close>

lemma relay_agent_flow:
  assumes "relay_agent ops tls a w = Some (out, w')"
    and "agent_new up down a pre w"
    and "fl_in (up tls a w) = []" "fl_out (down tls a w) = []"
  shows "flow_carried pre (up tls a w') \<and> flow_carried [] (down tls a w') \<and>
    (\<forall>st. out = SessionCompleted st \<longrightarrow>
       fl_held (up tls a w') = [] \<and> fl_held (down tls a w') = [] \<and>
       left_to_right st = of_nat (fl_count (up tls a w')) \<and>
       right_to_left st = of_nat (fl_count (down tls a w')))"
proof -
  from assms(1) obtain r where r: "relay (s_relay ops) tls a w = Some (r, w')"
    and out: "out = (case r of Ok st \<Rightarrow> SessionCompleted st
      | Err e \<Rightarrow> if io_kind e = Interrupted then SessionCancelled else SessionRelayFailed e)"
    by (auto simp: relay_agent_Some_iff)
  have idle: "flow_idle (up tls a w)" "flow_idle (down tls a w)"
    using assms(2-4) by (simp_all add: flow_idle_def agent_new_def)
  have "fl_out (up tls a w) = pre" using assms(2) by (simp add: agent_new_def)
  with relay_carries [OF r idle] assms(4)
  have "flow_carried pre (up tls a w') \<and> flow_carried [] (down tls a w')" by simp
  moreover have "r = Ok st" if "out = SessionCompleted st" for st
    using out that by (simp split: result.splits if_splits)
  ultimately show ?thesis using relay_completed r by blast
qed

lemma session_flow:
  assumes "session ops stream (ConnGpg4winRedirect p) w = Some (ws, out, w')"
    and "\<not> refused out" "\<And>e. out \<noteq> AgentSetupFailed e"
  shows "\<exists>tls h a md w0 w1. handshake ops stream w = (Some (Ok tls), h) \<and>
    s_alpn ops tls = Some ALPN_PROTOCOL \<and>
    load_metadata (s_agent ops) p w0 = (Ok md, w1) \<and>
    flow_carried (md_nonce md) (up tls a w') \<and> flow_carried [] (down tls a w') \<and>
    (\<forall>st. out = SessionCompleted st \<longrightarrow>
       fl_held (up tls a w') = [] \<and> fl_held (down tls a w') = [] \<and>
       left_to_right st = of_nat (fl_count (up tls a w')) \<and>
       right_to_left st = of_nat (fl_count (down tls a w')))"
  using assms(1)
proof (cases rule: session_cases)
  case (relayed tls h a w2)
  have tls: "fl_in (up tls a h) = []" "fl_out (down tls a h) = []"
    using relayed(1) accept_new by (auto simp: handshake_def)
  from agent_connect_kept [OF relayed(3)] tls
  have tls2: "fl_in (up tls a w2) = []" "fl_out (down tls a w2) = []"
    by (simp_all add: peer_kept_def)
  from authenticated_new [OF agent_connect_gpg4win_authenticated [OF relayed(3)]]
  obtain md w0 w1 where md: "load_metadata (s_agent ops) p w0 = (Ok md, w1)"
    and new: "agent_new up down a (md_nonce md) w2" by blast
  from relay_agent_flow [OF relayed(4) new tls2] md relayed(1,2) show ?thesis by blast
qed (use assms in auto)

end


subsection \<open>The client's session\<close>

text \<open>
  Here \<open>up\<close> leads from the local application to the TLS stream.  What is done to reach the server
  keeps the application's side, so nothing it sent is taken before the relay.
\<close>

definition local_kept ::
  "('l \<Rightarrow> 'tls \<Rightarrow> 'w \<Rightarrow> flow) \<Rightarrow> ('l \<Rightarrow> 'tls \<Rightarrow> 'w \<Rightarrow> flow) \<Rightarrow> 'l \<Rightarrow> 'w \<Rightarrow> 'w \<Rightarrow> bool" where
  "local_kept up down sock w w' \<longleftrightarrow>
     (\<forall>tls. fl_in (up sock tls w') = fl_in (up sock tls w) \<and>
        fl_out (down sock tls w') = fl_out (down sock tls w))"

lemma local_kept_refl [simp]: "local_kept up down sock w w"
  by (simp add: local_kept_def)

lemma local_kept_trans:
  "local_kept up down sock w w1 \<Longrightarrow> local_kept up down sock w1 w2 \<Longrightarrow> local_kept up down sock w w2"
  by (simp add: local_kept_def)

text \<open>The socket of a session as it was accepted: nothing read from it or written to it yet.\<close>

definition local_new ::
  "('l \<Rightarrow> 'tls \<Rightarrow> 'w \<Rightarrow> flow) \<Rightarrow> ('l \<Rightarrow> 'tls \<Rightarrow> 'w \<Rightarrow> flow) \<Rightarrow> 'l \<Rightarrow> 'w \<Rightarrow> bool" where
  "local_new up down sock w \<longleftrightarrow> (\<forall>tls. fl_in (up sock tls w) = [] \<and> fl_out (down sock tls w) = [])"

lemma local_new_kept: "local_new up down sock w \<Longrightarrow> local_kept up down sock w w' \<Longrightarrow> local_new up down sock w'"
  by (simp add: local_new_def local_kept_def)

locale client_transport = byte_copy "c_relay ops" up down
  for ops :: "('w, 'n, 'l, 'st, 'tls) client_ops"
    and up down :: "'l \<Rightarrow> 'tls \<Rightarrow> 'w \<Rightarrow> flow" +
  assumes tls_new: "c_tls_connect ops d name st w = (Some (Ok tls), w') \<Longrightarrow>
      fl_out (up sock tls w') = [] \<and> fl_held (up sock tls w') = [] \<and> fl_count (up sock tls w') = 0 \<and>
      fl_in (down sock tls w') = [] \<and> fl_held (down sock tls w') = [] \<and>
      fl_count (down sock tls w') = 0"
    and tcp_kept: "local_kept up down sock w (snd (c_tcp_connect ops d address w))"
    and nodelay_kept: "local_kept up down sock w (snd (c_set_nodelay ops st w))"
    and keepalive_kept: "local_kept up down sock w (snd (c_set_keepalive ops st d w))"
    and tls_kept: "local_kept up down sock w (snd (c_tls_connect ops d name st w))"
    and draw_kept: "local_kept up down sock w (snd (c_u64_upto ops n w))"
    and pause_kept: "local_kept up down sock w (snd (c_pause ops d w))"
begin

abbreviation "kept \<equiv> local_kept up down"

lemma configure_kept: "kept sock w (snd (client_configure_tcp ops st w))"
  using nodelay_kept [of sock w st] keepalive_kept [of sock "snd (c_set_nodelay ops st w)" st "from_secs 30"]
  by (auto simp: client_configure_tcp_def case_prod_unfold intro: local_kept_trans)

lemma op_kept:
  "c_tcp_connect ops d address w = (r1, w') \<Longrightarrow> kept sock w w'"
  "c_tls_connect ops d name st w = (r2, w') \<Longrightarrow> kept sock w w'"
  "client_configure_tcp ops st w = (ws, w') \<Longrightarrow> kept sock w w'"
  "c_pause ops d w = (r3, w') \<Longrightarrow> kept sock w w'"
  using tcp_kept [of sock w d address] tls_kept [of sock w d name st] configure_kept [of sock w st]
    pause_kept [of sock w d] by auto

lemma next_delay_kept: "next_delay (c_u64_upto ops) b w = (d, b', w') \<Longrightarrow> kept sock w w'"
  using draw_kept by (auto simp: next_delay_def next_delay_with_eq split: prod.splits)
    (metis snd_conv)

lemma establish_kept: "establish ops name address w = (r, ws, w') \<Longrightarrow> kept sock w w'"
  by (auto simp: establish_def split: prod.splits option.splits result.splits
      dest!: op_kept [where sock = sock] intro: local_kept_trans)

lemma retry_rounds_kept:
  "(retry_round ops name address started)\<^sup>*\<^sup>* (b, w) (b', w') \<Longrightarrow> kept sock w w'"
proof (induction rule: rtranclp_induct2)
  case refl
  then show ?case by simp
next
  case (step b1 w1 b2 w2)
  from step(2) have "kept sock w1 w2"
    by cases (auto dest!: establish_kept [where sock = sock] next_delay_kept [where sock = sock]
        op_kept(4) [where sock = sock] intro: local_kept_trans)
  with step(3) show ?case by (rule local_kept_trans)
qed

lemma relayed_flow:
  assumes "local_new up down sock w" "establish ops name address w = (Ok remote, ws, w1)"
    and "relay (c_relay ops) sock remote w1 = Some (r, w')"
  shows "flow_carried [] (up sock remote w') \<and> flow_carried [] (down sock remote w') \<and>
    (\<forall>st. r = Ok st \<longrightarrow> fl_held (up sock remote w') = [] \<and> fl_held (down sock remote w') = [] \<and>
       left_to_right st = of_nat (fl_count (up sock remote w')) \<and>
       right_to_left st = of_nat (fl_count (down sock remote w')))"
proof -
  from assms(2) establish_Ok_iff obtain st w2 where
      "c_tls_connect ops CLIENT_TLS_HANDSHAKE_TIMEOUT name st w2 = (Some (Ok remote), w1)"
    unfolding tls_attempt_def by metis
  note tls = tls_new [OF this, of sock]
  have "local_new up down sock w1"
    using assms(1) establish_kept [OF assms(2)] by (rule local_new_kept)
  with tls have "flow_idle (up sock remote w1)" "flow_idle (down sock remote w1)"
      "fl_out (up sock remote w1) = []" "fl_out (down sock remote w1) = []"
    by (simp_all add: flow_idle_def local_new_def)
  with relay_carries [OF assms(3)] have
    "flow_carried [] (up sock remote w') \<and> flow_carried [] (down sock remote w')" by simp
  with assms(3) relay_completed show ?thesis by blast
qed

lemma last_round_kept:
  assumes "last_round ops sock name address started (b, w) out w'"
    and "out \<in> {ClientExhausted, ClientStopped, ClientRejected}"
  shows "kept sock w w'"
  using assms
  by (auto dest!: establish_kept [where sock = sock] next_delay_kept [where sock = sock]
      op_kept(4) [where sock = sock]) (blast intro: local_kept_trans)+

lemma last_round_relayed:
  assumes "last_round ops sock name address started (b, w) out w'"
    and "out \<notin> {ClientExhausted, ClientStopped, ClientRejected}"
  shows "\<exists>remote ws w1 r. establish ops name address w = (Ok remote, ws, w1) \<and>
    relay (c_relay ops) sock remote w1 = Some (r, w') \<and> out = relay_end r"
  using assms by (cases out) auto

lemma client_session_flow:
  assumes "relay_session ops sock name address w = Some (log, out, w')" "local_new up down sock w"
  shows "out \<in> {ClientExhausted, ClientStopped, ClientRejected} \<and> local_new up down sock w' \<or>
    (\<exists>remote u v. tls_attempt ops name address u (Some (Ok remote)) v \<and>
      c_alpn ops remote = Some ALPN_PROTOCOL \<and>
      flow_carried [] (up sock remote w') \<and> flow_carried [] (down sock remote w') \<and>
      (\<forall>st. out = ClientCompleted st \<longrightarrow>
         fl_held (up sock remote w') = [] \<and> fl_held (down sock remote w') = [] \<and>
         left_to_right st = of_nat (fl_count (up sock remote w')) \<and>
         right_to_left st = of_nat (fl_count (down sock remote w'))))"
proof -
  from session_loop_history [OF assms(1) [unfolded relay_session_def]] obtain b1 w1 where
      rounds: "(retry_round ops name address (c_now ops w))\<^sup>*\<^sup>* (backoff_new, w) (b1, w1)"
    and last: "last_round ops sock name address (c_now ops w) (b1, w1) out w'"
    unfolding session_history_def by auto
  have new: "local_new up down sock w1"
    using assms(2) retry_rounds_kept [OF rounds] by (rule local_new_kept)
  show ?thesis
  proof (cases "out \<in> {ClientExhausted, ClientStopped, ClientRejected}")
    case True
    with local_new_kept [OF new last_round_kept [OF last]] show ?thesis by blast
  next
    case False
    with last_round_relayed [OF last] obtain remote ws w2 r where
        est: "establish ops name address w1 = (Ok remote, ws, w2)"
      and run: "relay (c_relay ops) sock remote w2 = Some (r, w')"
      and out: "out = relay_end r" by blast
    have "r = Ok st" if "out = ClientCompleted st" for st
      using out that by (simp add: relay_end_def split: result.splits if_splits)
    moreover have "tls_attempt ops name address w1 (Some (Ok remote)) w2 \<and>
        c_alpn ops remote = Some ALPN_PROTOCOL"
      using est by (rule establish_OkD)
    ultimately show ?thesis using relayed_flow [OF new est run] by blast
  qed
qed

end


text \<open>
  A client's and a server's session at the two ends of one tunnel: what the server takes is the
  beginning of what the client has given, and the other way round.
\<close>

lemma sessions_joined:
  assumes "client_transport cops c_up c_down" "server_transport sops s_up s_down"
    and "relay_session cops sock name address wc = Some (log, cout, wc')"
    and "\<And>tls. fl_in (c_up sock tls wc) = [] \<and> fl_out (c_down sock tls wc) = []"
    and "cout \<notin> {ClientExhausted, ClientStopped, ClientRejected}"
    and "session sops stream (ConnGpg4winRedirect p) ws = Some (warnings, sout, ws')"
    and "\<not> refused sout" "\<And>e. sout \<noteq> AgentSetupFailed e"
  shows "\<exists>remote u v tls h agent md w0 w1 sent.
     tls_attempt cops name address u (Some (Ok remote)) v \<and>
     c_alpn cops remote = Some ALPN_PROTOCOL \<and>
     handshake sops stream ws = (Some (Ok tls), h) \<and> s_alpn sops tls = Some ALPN_PROTOCOL \<and>
     load_metadata (s_agent sops) p w0 = (Ok md, w1) \<and>
     fl_out (s_up tls agent ws') = md_nonce md @ sent \<and>
     prefix sent (fl_in (s_up tls agent ws')) \<and>
     prefix (fl_out (c_down sock remote wc')) (fl_in (c_down sock remote wc')) \<and>
     (prefix (fl_in (s_up tls agent ws')) (fl_out (c_up sock remote wc')) \<longrightarrow>
        prefix sent (fl_in (c_up sock remote wc'))) \<and>
     (prefix (fl_in (c_down sock remote wc')) (fl_out (s_down tls agent ws')) \<longrightarrow>
        prefix (fl_out (c_down sock remote wc')) (fl_in (s_down tls agent ws'))) \<and>
     (\<forall>cst sst. cout = ClientCompleted cst \<longrightarrow> sout = SessionCompleted sst \<longrightarrow>
        fl_in (s_up tls agent ws') = fl_out (c_up sock remote wc') \<longrightarrow>
        fl_in (c_down sock remote wc') = fl_out (s_down tls agent ws') \<longrightarrow>
        sent = fl_in (c_up sock remote wc') \<and>
        fl_out (c_down sock remote wc') = fl_in (s_down tls agent ws'))"
proof -
  have "local_new c_up c_down sock wc" using assms(4) by (simp add: local_new_def)
  from client_transport.client_session_flow [OF assms(1,3) this] assms(5) obtain remote u v
    where attempt: "tls_attempt cops name address u (Some (Ok remote)) v"
        "c_alpn cops remote = Some ALPN_PROTOCOL"
      and cflow: "flow_carried [] (c_up sock remote wc')" "flow_carried [] (c_down sock remote wc')"
      and ccompl: "\<And>st. cout = ClientCompleted st \<Longrightarrow>
        fl_held (c_up sock remote wc') = [] \<and> fl_held (c_down sock remote wc') = []"
    by blast
  from server_transport.session_flow [OF assms(2,6-8)] obtain tls h agent md w0 w1
    where hs: "handshake sops stream ws = (Some (Ok tls), h)" "s_alpn sops tls = Some ALPN_PROTOCOL"
      and md: "load_metadata (s_agent sops) p w0 = (Ok md, w1)"
      and sflow: "flow_carried (md_nonce md) (s_up tls agent ws')" "flow_carried [] (s_down tls agent ws')"
      and scompl: "\<And>st. sout = SessionCompleted st \<Longrightarrow>
        fl_held (s_up tls agent ws') = [] \<and> fl_held (s_down tls agent ws') = []"
    by blast
  from sflow(1) obtain sent where sent: "fl_out (s_up tls agent ws') = md_nonce md @ sent"
      "prefix sent (fl_in (s_up tls agent ws'))"
    using flow_carried_prefix by blast
  note prefixes = sent(2) cflow [THEN flow_carried_prefix] sflow(2) [THEN flow_carried_prefix]
  have "prefix (fl_in (s_up tls agent ws')) (fl_out (c_up sock remote wc')) \<longrightarrow>
      prefix sent (fl_in (c_up sock remote wc'))"
    "prefix (fl_in (c_down sock remote wc')) (fl_out (s_down tls agent ws')) \<longrightarrow>
      prefix (fl_out (c_down sock remote wc')) (fl_in (s_down tls agent ws'))"
    using prefixes by (auto intro: prefix_order.trans)
  moreover have "sent = fl_in (c_up sock remote wc') \<and>
      fl_out (c_down sock remote wc') = fl_in (s_down tls agent ws')"
    if "cout = ClientCompleted cst" "sout = SessionCompleted sst"
      "fl_in (s_up tls agent ws') = fl_out (c_up sock remote wc')"
      "fl_in (c_down sock remote wc') = fl_out (s_down tls agent ws')" for cst sst
    using ccompl [OF that(1)] scompl [OF that(2)] that(3,4) sent(1)
      cflow [THEN flow_carried_all] sflow [THEN flow_carried_all] by auto
  moreover have "prefix (fl_out (c_down sock remote wc')) (fl_in (c_down sock remote wc'))"
    using cflow(2) [THEN flow_carried_prefix] by simp
  ultimately show ?thesis using attempt hs md sent by blast
qed


subsection \<open>Simulated connections\<close>

text \<open>
  A server session and a client session over the simulated pipes: an accepted or a new connection
  starts with nothing carried, and the relay is the pipes' own copy.
\<close>

definition given_new :: "flow \<Rightarrow> flow" where
  "given_new f = f\<lparr>fl_out := [], fl_held := [], fl_count := 0\<rparr>"

definition taken_new :: "flow \<Rightarrow> flow" where
  "taken_new f = f\<lparr>fl_in := [], fl_held := [], fl_count := 0\<rparr>"

definition wire_agent_ops :: "u8 list \<Rightarrow> (pipes, u8 list, unit, unit) agent_ops" where
  "wire_agent_ops redirect =
     \<lparr>f_metadata_len = (\<lambda>p w. (Ok (of_nat (length redirect)), w)),
      f_open = (\<lambda>p w. (Ok redirect, w)),
      f_read_limited = (\<lambda>bs n w. (Ok (take n bs), w)),
      a_tcp_connect = (\<lambda>d port w. (Some (Ok ()),
         w\<lparr>pp_lr := given_new (pp_lr w), pp_rl := taken_new (pp_rl w)\<rparr>)),
      a_write_all = (\<lambda>s bs w. (Ok (), w\<lparr>pp_lr := (pp_lr w)\<lparr>fl_out := fl_out (pp_lr w) @ bs\<rparr>\<rparr>)),
      a_flush = (\<lambda>s w. (Ok (), w)),
      a_unix_connect = (\<lambda>p w. (Ok (),
         w\<lparr>pp_lr := given_new (pp_lr w), pp_rl := taken_new (pp_rl w)\<rparr>)),
      a_now = (\<lambda>w. 0),
      a_sleep = (\<lambda>d w. w)\<rparr>"

definition wire_session_ops ::
  "u8 list \<Rightarrow> (pipes \<Rightarrow> bool) \<Rightarrow> (pipes, u8 list, unit, unit, unit, unit) session_ops" where
  "wire_session_ops redirect stop =
     \<lparr>s_set_nodelay = (\<lambda>st w. (Ok (), w)),
      s_set_keepalive = (\<lambda>st d w. (Ok (), w)),
      s_accept = (\<lambda>d st w. (Some (Ok ()),
         w\<lparr>pp_lr := (pp_lr w)\<lparr>fl_in := []\<rparr>, pp_rl := (pp_rl w)\<lparr>fl_out := []\<rparr>\<rparr>)),
      s_alpn = (\<lambda>tls. Some ALPN_PROTOCOL),
      s_agent = wire_agent_ops redirect,
      s_relay = (\<lambda>tls a. pipes_turn 2 stop)\<rparr>"

definition wire_client_ops :: "(pipes \<Rightarrow> bool) \<Rightarrow> (pipes, unit, unit, unit, unit) client_ops" where
  "wire_client_ops stop =
     \<lparr>c_tcp_connect = (\<lambda>d address w. (Some (Ok ()), w)),
      c_set_nodelay = (\<lambda>st w. (Ok (), w)),
      c_set_keepalive = (\<lambda>st d w. (Ok (), w)),
      c_tls_connect = (\<lambda>d name st w. (Some (Ok ()),
         w\<lparr>pp_lr := given_new (pp_lr w), pp_rl := taken_new (pp_rl w)\<rparr>)),
      c_alpn = (\<lambda>tls. Some ALPN_PROTOCOL),
      c_relay = (\<lambda>sock tls. pipes_turn 3 stop),
      c_now = (\<lambda>w. 0),
      c_u64_upto = (\<lambda>n w. (n, w)),
      c_pause = (\<lambda>d w. (Slept, w))\<rparr>"

lemmas wire_defs = wire_session_ops_def wire_client_ops_def wire_agent_ops_def given_new_def
  taken_new_def

interpretation wire_server: server_transport "wire_session_ops redirect stop" "\<lambda>tls a. pp_lr" "\<lambda>tls a. pp_rl"
  for redirect stop
  by (intro server_transport.intro server_transport_axioms.intro)
     (auto simp: wire_defs agent_new_def peer_kept_def pipe.byte_copy_axioms)

interpretation wire_client: client_transport "wire_client_ops stop" "\<lambda>sock tls. pp_lr" "\<lambda>sock tls. pp_rl"
  for stop
  by (intro client_transport.intro client_transport_axioms.intro)
     (auto simp: wire_defs local_kept_def pipe.byte_copy_axioms)

text \<open>A request of five bytes, a reply of three.\<close>

definition wire_start :: pipes where
  "wire_start = \<lparr>pp_lr_todo = [0, 255, 1, 2, 3], pp_lr = fresh_flow, pp_rl_todo = [3, 2, 1],
     pp_rl = fresh_flow\<rparr>"

definition wire_end :: "u8 list \<Rightarrow> pipes" where
  "wire_end nonce = \<lparr>pp_lr_todo = [],
     pp_lr = \<lparr>fl_in = [0, 255, 1, 2, 3], fl_out = nonce @ [0, 255, 1, 2, 3], fl_held = [],
        fl_count = 5\<rparr>,
     pp_rl_todo = [],
     pp_rl = \<lparr>fl_in = [3, 2, 1], fl_out = [3, 2, 1], fl_held = [], fl_count = 3\<rparr>\<rparr>"

definition wire_stats :: relay_stats where
  "wire_stats = \<lparr>left_to_right = 5, right_to_left = 3\<rparr>"

lemma wire_copy_server:
  "relay (\<lambda>tls a. pipes_turn 2 (\<lambda>w. False)) l r (wire_start\<lparr>pp_lr := fresh_flow\<lparr>fl_out := nonce\<rparr>\<rparr>) =
     Some (Ok wire_stats, wire_end nonce)"
  by (simp add: relay.simps pipes_turn_def relay_poll_def flow_turn_def Let_def wire_start_def
      wire_end_def wire_stats_def fresh_flow_def)

lemma wire_copy_client:
  "relay (\<lambda>sock tls. pipes_turn 3 (\<lambda>w. False)) l r wire_start = Some (Ok wire_stats, wire_end [])"
  by (simp add: relay.simps pipes_turn_def relay_poll_def flow_turn_def Let_def wire_start_def
      wire_end_def wire_stats_def fresh_flow_def)

lemma wire_load:
  "load_metadata (wire_agent_ops demo_redirect) p w =
     (Ok \<lparr>md_port = 4321, md_nonce = replicate 16 42\<rparr>, w)"
proof -
  have len: "length demo_redirect \<le> 128" by (rule demo_redirect_facts)
  then have "unat (of_nat (length demo_redirect) :: u64) = length demo_redirect"
    by (simp add: unat_of_nat take_bit_nat_eq_self)
  with len show ?thesis
    by (simp add: load_metadata_def wire_agent_ops_def bind_io_def map_err_io_def return_io_def
        MAX_REDIRECT_FILE_SIZE_def demo_redirect_facts(2))
qed

lemma wire_agent_connect:
  "agent_connect (wire_agent_ops demo_redirect) (ConnGpg4winRedirect p) wire_start =
     Some (Ok (StreamGpg4win ()),
       wire_start\<lparr>pp_lr := fresh_flow\<lparr>fl_out := replicate 16 42\<rparr>\<rparr>)"
proof -
  have "gpg4win_attempt (wire_agent_ops demo_redirect) p wire_start =
      (Finished (Ok (StreamGpg4win ())), wire_start\<lparr>pp_lr := fresh_flow\<lparr>fl_out := replicate 16 42\<rparr>\<rparr>)"
    unfolding gpg4win_attempt_def wire_load
    by (simp add: wire_agent_ops_def send_nonce_def bind_io_def map_err_io_def return_io_def
        given_new_def taken_new_def wire_start_def fresh_flow_def)
  then show ?thesis
    by (simp add: connect_gpg4win_def connect_gpg4win_with_window_def connect_loop.simps)
qed

lemma wire_server_run:
  "session (wire_session_ops demo_redirect (\<lambda>w. False)) () (ConnGpg4winRedirect p) wire_start =
     Some ([], SessionCompleted wire_stats, wire_end (replicate 16 42))"
proof -
  let ?ops = "wire_session_ops demo_redirect (\<lambda>w. False)"
  have hs: "handshake ?ops () wire_start = (Some (Ok ()), wire_start)"
    "server_configure_tcp ?ops () wire_start = ([], wire_start)"
    by (simp_all add: handshake_def server_configure_tcp_def wire_session_ops_def wire_start_def
        fresh_flow_def)
  have "s_alpn ?ops () = Some ALPN_PROTOCOL" "s_agent ?ops = wire_agent_ops demo_redirect"
    "s_relay ?ops = (\<lambda>tls a. pipes_turn 2 (\<lambda>w. False))"
    by (simp_all add: wire_session_ops_def)
  with hs wire_agent_connect [of p] show ?thesis
    by (simp add: session_eq relay_agent_def wire_copy_server del: agent_connect.simps)
qed

lemma wire_client_run:
  "relay_session (wire_client_ops (\<lambda>w. False)) () () address wire_start =
     Some ([], ClientCompleted wire_stats, wire_end [])"
proof -
  let ?ops = "wire_client_ops (\<lambda>w. False)"
  have est: "establish ?ops () address wire_start = (Ok (), [], wire_start)"
    by (simp add: establish_def wire_client_ops_def client_configure_tcp_def validate_alpn_def
        given_new_def taken_new_def wire_start_def fresh_flow_def)
  have "c_relay ?ops = (\<lambda>sock tls. pipes_turn 3 (\<lambda>w. False))" "c_now ?ops = (\<lambda>w. 0)"
    by (simp_all add: wire_client_ops_def)
  with est show ?thesis
    by (simp add: relay_session_def session_loop.simps PRE_RELAY_RECONNECT_WINDOW_def from_secs_def
        wire_copy_client relay_end_def)
qed


subsection \<open>Properties\<close>

text \<open>C3: what the agent receives.  However a session with the Gpg4win backend ends once its relay has
  begun, the bytes given to the agent are the nonce of the metadata loaded for this session, and
  then the beginning of what was taken from the authenticated peer, from its first byte, in order
  and without a gap; and the peer is given the beginning of what the agent sent, nothing else.  A
  completed session has delivered everything it took, both ways, and reports how much.\<close>

theorem agent_receives_nonce_then_peer:
  assumes "server_transport ops up down"
    and "session ops stream (ConnGpg4winRedirect p) w = Some (ws, out, w')"
    and "\<not> refused out" "\<And>e. out \<noteq> AgentSetupFailed e"
  shows "\<exists>tls h agent md w0 w1 sent. handshake ops stream w = (Some (Ok tls), h) \<and>
     load_metadata (s_agent ops) p w0 = (Ok md, w1) \<and>
     fl_out (up tls agent w') = md_nonce md @ sent \<and> prefix sent (fl_in (up tls agent w')) \<and>
     prefix (fl_out (down tls agent w')) (fl_in (down tls agent w')) \<and>
     (\<forall>st. out = SessionCompleted st \<longrightarrow>
        sent = fl_in (up tls agent w') \<and> fl_out (down tls agent w') = fl_in (down tls agent w') \<and>
        left_to_right st = of_nat (length sent) \<and>
        right_to_left st = of_nat (length (fl_in (down tls agent w'))))"
proof -
  from server_transport.session_flow [OF assms] obtain tls h agent md w0 w1
    where hs: "handshake ops stream w = (Some (Ok tls), h)"
      and md: "load_metadata (s_agent ops) p w0 = (Ok md, w1)"
      and up: "flow_carried (md_nonce md) (up tls agent w')"
      and down: "flow_carried [] (down tls agent w')"
      and compl: "\<And>st. out = SessionCompleted st \<Longrightarrow>
        fl_held (up tls agent w') = [] \<and> fl_held (down tls agent w') = [] \<and>
        left_to_right st = of_nat (fl_count (up tls agent w')) \<and>
        right_to_left st = of_nat (fl_count (down tls agent w'))"
    by blast
  from up obtain sent where sent: "fl_out (up tls agent w') = md_nonce md @ sent"
      "prefix sent (fl_in (up tls agent w'))"
    using flow_carried_prefix by blast
  have "sent = fl_in (up tls agent w') \<and> fl_out (down tls agent w') = fl_in (down tls agent w') \<and>
      left_to_right st = of_nat (length sent) \<and>
      right_to_left st = of_nat (length (fl_in (down tls agent w')))"
    if "out = SessionCompleted st" for st
    using compl [OF that] flow_carried_all [OF up] flow_carried_all [OF down] sent by auto
  moreover have "prefix (fl_out (down tls agent w')) (fl_in (down tls agent w'))"
    using flow_carried_prefix [OF down] by simp
  ultimately show ?thesis using hs md sent by blast
qed

theorem agent_receives_nonce_then_peer_witness:
  "\<exists>(md :: agent_metadata) sent. fl_out (pp_lr (wire_end (replicate 16 42))) = md_nonce md @ sent \<and>
     sent = [0, 255, 1, 2, 3] \<and> fl_out (pp_rl (wire_end (replicate 16 42))) = [3, 2, 1]"
  using agent_receives_nonce_then_peer [OF wire_server.server_transport_axioms wire_server_run, of "''f''"]
  by (auto simp: wire_end_def)

text \<open>C15: what the local application and the server receive.  Whatever a client session goes through,
  either it never relayed, and then not one byte of the application was taken and none was given
  to it; or the bytes given to the TLS connection are the beginning of what the application sent,
  from its first byte, and the application was given the beginning of what came from the server.
  No attempt that failed before the relay consumed or repeated anything, and a completed session
  delivered everything it took.\<close>

theorem client_forwards_in_order:
  assumes "client_transport ops up down"
    and "relay_session ops sock name address w = Some (log, out, w')"
    and "\<And>tls. fl_in (up sock tls w) = [] \<and> fl_out (down sock tls w) = []"
  shows "out \<in> {ClientExhausted, ClientStopped, ClientRejected} \<and>
       (\<forall>tls. fl_in (up sock tls w') = [] \<and> fl_out (down sock tls w') = []) \<or>
     (\<exists>remote. prefix (fl_out (up sock remote w')) (fl_in (up sock remote w')) \<and>
       prefix (fl_out (down sock remote w')) (fl_in (down sock remote w')) \<and>
       (\<forall>st. out = ClientCompleted st \<longrightarrow>
          fl_out (up sock remote w') = fl_in (up sock remote w') \<and>
          fl_out (down sock remote w') = fl_in (down sock remote w') \<and>
          left_to_right st = of_nat (length (fl_in (up sock remote w'))) \<and>
          right_to_left st = of_nat (length (fl_in (down sock remote w')))))"
proof -
  have "local_new up down sock w" using assms(3) by (simp add: local_new_def)
  from client_transport.client_session_flow [OF assms(1,2) this] show ?thesis
  proof (elim disjE conjE exE)
    fix remote
    assume up: "flow_carried [] (up sock remote w')" and down: "flow_carried [] (down sock remote w')"
      and compl: "\<forall>st. out = ClientCompleted st \<longrightarrow>
        fl_held (up sock remote w') = [] \<and> fl_held (down sock remote w') = [] \<and>
        left_to_right st = of_nat (fl_count (up sock remote w')) \<and>
        right_to_left st = of_nat (fl_count (down sock remote w'))"
    have "fl_out (up sock remote w') = fl_in (up sock remote w') \<and>
        fl_out (down sock remote w') = fl_in (down sock remote w') \<and>
        left_to_right st = of_nat (length (fl_in (up sock remote w'))) \<and>
        right_to_left st = of_nat (length (fl_in (down sock remote w')))"
      if "out = ClientCompleted st" for st
      using compl that flow_carried_all [OF up] flow_carried_all [OF down] by auto
    with flow_carried_prefix [OF up] flow_carried_prefix [OF down] show ?thesis by auto
  qed (auto simp: local_new_def)
qed

theorem client_forwards_in_order_witness:
  "fl_out (pp_lr (wire_end [])) = [0, 255, 1, 2, 3] \<and>
   prefix (fl_out (pp_lr (wire_end []))) (fl_in (pp_lr (wire_end [])))"
proof -
  have "fl_in (pp_lr wire_start) = [] \<and> fl_out (pp_rl wire_start) = []"
    by (simp add: wire_start_def fresh_flow_def)
  from client_forwards_in_order [OF wire_client.client_transport_axioms wire_client_run this]
  show ?thesis by (auto simp: wire_end_def)
qed

end
