(* ===== verification/Unit_Tests.thy ===== *)
theory Unit_Tests
  imports Drain Session_Flow Tailscale Windows_Log
begin

section \<open>The repository's unit tests on the model\<close>

text \<open>
  The \<open>#[cfg(test)]\<close> modules of the sources, test by test, over the model's definitions: the
  definitions behave on the tests' inputs as the tests expect of the code.  Where a test uses real
  sockets, files or streams, the simulated host, file system, disk or pipes of the component stand
  for them.  The TLS handshakes of tls.rs are in \<open>Tls_Duplex\<close>.
\<close>

subsection \<open>retry.rs\<close>

definition caps_and_allows_controlled_full_jitter :: bool where
  "caps_and_allows_controlled_full_jitter =
     (case next_delay_with (\<lambda>_ g. (0, g)) backoff_new () of (d0, b1, _) \<Rightarrow>
      case next_delay_with (\<lambda>cap g. (cap, g)) b1 () of (d1, b2, _) \<Rightarrow>
        d0 = 0 \<and> d1 = from_millis 400 \<and>
        list_all (\<lambda>d. d \<le> MAX_RECONNECT_DELAY) (fst (next_delays (\<lambda>cap g. (cap, g)) 10 b2 ())))"

definition every_session_starts_with_initial_cap :: bool where
  "every_session_starts_with_initial_cap =
     (case next_delay_with (\<lambda>cap g. (cap, g)) backoff_new () of (_, first, _) \<Rightarrow>
      case next_delay_with (\<lambda>cap g. (cap, g)) backoff_new () of (d, next_session, _) \<Rightarrow>
        d = INITIAL_RECONNECT_DELAY)"

lemma retry_tests: "caps_and_allows_controlled_full_jitter" "every_session_starts_with_initial_cap"
proof -
  have "counts \<lparr>attempt = 2\<rparr> 2" by (simp add: counts_def)
  from next_delays_full_jitter [OF this, of 10 "()"]
  have "list_all (\<lambda>d. d \<le> MAX_RECONNECT_DELAY)
      (fst (next_delays (\<lambda>cap g. (cap, g)) 10 \<lparr>attempt = 2\<rparr> ()))"
    by (simp add: list_all_iff spec_cap_le)
  then show "caps_and_allows_controlled_full_jitter"
    by (simp add: caps_and_allows_controlled_full_jitter_def next_delay_with_eq backoff_new_def
        saturating_add_def spec_cap_def from_millis_def)
  show "every_session_starts_with_initial_cap"
    by (simp add: every_session_starts_with_initial_cap_def next_delay_with_eq backoff_new_def
        spec_cap_def INITIAL_RECONNECT_DELAY_def from_millis_def)
qed


subsection \<open>tailscale.rs\<close>

definition parses_one_ipv4_address :: bool where
  "parses_one_ipv4_address =
     (parse_ipv4 (lit ''100.75.96.114'' @ [10]) = Ok (100, 75, 96, 114))"

definition rejects_missing_invalid_or_ambiguous_addresses :: bool where
  "rejects_missing_invalid_or_ambiguous_addresses \<longleftrightarrow>
     parse_ipv4 [10] = Err MissingAddress \<and>
     (case parse_ipv4 (lit ''not-an-address'' @ [10]) of Err (InvalidAddress _) \<Rightarrow> True | _ \<Rightarrow> False) \<and>
     parse_ipv4 (lit ''100.64.0.1'' @ [10] @ lit ''100.64.0.2'' @ [10]) = Err MultipleAddresses"

lemmas text_simps = lit_def trim_def is_whitespace_def dec_nat.simps

lemma tailscale_tests:
  "parses_one_ipv4_address" "rejects_missing_invalid_or_ambiguous_addresses"
proof -
  have "address_lines (lit ''100.75.96.114'' @ [10]) = [show_ipv4 (100, 75, 96, 114)]"
    by (simp add: address_lines_def str_lines_def show_ipv4.simps text_simps)
  then show "parses_one_ipv4_address"
    by (simp add: parses_one_ipv4_address_def parse_ipv4_Ok_iff)
  have 1: "address_lines [10] = []"
    by (simp add: address_lines_def str_lines_def text_simps)
  have 2: "address_lines (lit ''not-an-address'' @ [10]) = [lit ''not-an-address'']"
    by (simp add: address_lines_def str_lines_def text_simps)
  have 3: "address_lines (lit ''100.64.0.1'' @ [10] @ lit ''100.64.0.2'' @ [10]) =
      [show_ipv4 (100, 64, 0, 1), show_ipv4 (100, 64, 0, 2)]"
    by (simp add: address_lines_def str_lines_def show_ipv4.simps text_simps)
  have 4: "parse_line (lit ''not-an-address'') = Err (InvalidAddress (lit ''not-an-address''))"
    by (simp add: parse_line_def parse_ipv4_addr_def read_octet_def lit_def is_digit_def)
  show "rejects_missing_invalid_or_ambiguous_addresses"
    unfolding rejects_missing_invalid_or_ambiguous_addresses_def parse_ipv4_def
    by (simp only: 1 2 3) (simp add: 4)
qed


subsection \<open>windows\_logging.rs\<close>

definition formats_component_and_level_consistently :: bool where
  "formats_component_and_level_consistently =
     (format_line 1726320000 (level_text LevelWarn) (lit ''gpg-bridge-service'') (lit ''agent unavailable'') =
      lit ''1726320000 WARN [gpg-bridge-service] agent unavailable'')"

lemma logging_test: "formats_component_and_level_consistently"
  by (simp add: formats_component_and_level_consistently_def format_line_def text_simps)


subsection \<open>agent.rs\<close>

text \<open>What the test's helper writes to the redirect file.\<close>

definition write_redirect :: "u16 \<Rightarrow> u8 list \<Rightarrow> u8 list" where
  "write_redirect port nonce = ascii_bytes (dec_nat (unat port)) @ nonce"

definition parses_port_and_exact_nonce :: bool where
  "parses_port_and_exact_nonce =
     (case parse_metadata (ascii_bytes (lit ''4321'' @ [10]) @ map of_nat [0..<16]) of
        Ok metadata \<Rightarrow> md_port metadata = 4321 \<and> md_nonce metadata = map of_nat [0..<16]
      | Err _ \<Rightarrow> False)"

definition malformed_metadata_never_panics :: bool where
  "malformed_metadata_never_panics \<longleftrightarrow>
     parse_metadata [] = Err MetadataTooShort \<and>
     parse_metadata (ascii_bytes (lit ''123'')) = Err MetadataTooShort \<and>
     parse_metadata (0xFF # replicate 16 0) = Err InvalidPortEncoding \<and>
     parse_metadata (ascii_bytes (lit ''0'') @ replicate 16 0) = Err ZeroPort"

text \<open>The fake agents: loopback ports that accept, and what each was sent.\<close>

definition connects_to_fake_agent_and_sends_nonce_first :: bool where
  "connects_to_fake_agent_and_sends_nonce_first =
     (case agent_connect (host_ops (\<lambda>_. Some (write_redirect 4321 (replicate 16 42))) (\<lambda>_ p. p = 4321))
            (connector_gpg4win ''S.gpg-agent.extra'') \<lparr>sim_clock = 0, sim_sent = []\<rparr> of
        Some (Ok _, h) \<Rightarrow> sim_sent h = [(4321, replicate 16 42)]
      | _ \<Rightarrow> False)"

definition refreshes_redirect_metadata_for_every_session :: bool where
  "refreshes_redirect_metadata_for_every_session =
     (case agent_connect (host_ops (\<lambda>_. Some (write_redirect 4321 (replicate 16 1))) (\<lambda>_ p. p = 4321))
            (connector_gpg4win ''S.gpg-agent.extra'') \<lparr>sim_clock = 0, sim_sent = []\<rparr> of
        Some (Ok _, h) \<Rightarrow>
          (case agent_connect (host_ops (\<lambda>_. Some (write_redirect 4322 (replicate 16 2))) (\<lambda>_ p. p = 4322))
                 (connector_gpg4win ''S.gpg-agent.extra'') h of
             Some (Ok _, h') \<Rightarrow> sim_sent h' = [(4321, replicate 16 1), (4322, replicate 16 2)]
           | _ \<Rightarrow> False)
      | _ \<Rightarrow> False)"

definition stale_redirect_returns_an_agent_unavailable_error :: bool where
  "stale_redirect_returns_an_agent_unavailable_error =
     (case connect_gpg4win_with_window
            (host_ops (\<lambda>_. Some (write_redirect 4321 (replicate 16 3))) (\<lambda>_ _. False))
            ''S.gpg-agent.extra'' 0 \<lparr>sim_clock = 0, sim_sent = []\<rparr> of
        Some (Err (StartupWindowExpired _), h) \<Rightarrow> sim_sent h = []
      | _ \<Rightarrow> False)"

lemma write_redirect_read:
  assumes "port \<noteq> 0" "length nonce = 16" "unat port < 10000"
  shows "parse_metadata (write_redirect port nonce) = Ok \<lparr>md_port = port, md_nonce = nonce\<rparr>"
    and "length (write_redirect port nonce) \<le> 128"
  using parse_metadata_written [of port nonce "[]" "[]"] assms
    length_dec_nat_le [of "unat port" 4, THEN order_trans]
  by (simp_all add: write_redirect_def ascii_bytes_def)

lemma redirect_connect:
  assumes "port \<noteq> 0" "length nonce = 16" "unat port < 10000" "listening (sim_clock h) port"
  shows "agent_connect (host_ops (\<lambda>_. Some (write_redirect port nonce)) listening)
      (connector_gpg4win f) h =
    Some (Ok (StreamGpg4win port), h\<lparr>sim_clock := sim_clock h + 1000000,
      sim_sent := sim_sent h @ [(port, nonce)]\<rparr>)"
  using host_attempt_ready [of "\<lambda>_. Some (write_redirect port nonce)" h, OF _ write_redirect_read(2,1)]
    assms
  by (simp add: connector_gpg4win_def connect_gpg4win_def connect_gpg4win_with_window_def
      connect_loop.simps)

lemma agent_tests:
  "parses_port_and_exact_nonce" "malformed_metadata_never_panics"
  "connects_to_fake_agent_and_sends_nonce_first" "refreshes_redirect_metadata_for_every_session"
  "stale_redirect_returns_an_agent_unavailable_error"
proof -
  have "dec_nat (unat (4321 :: u16)) = lit ''4321''" by (simp add: text_simps)
  then show "parses_port_and_exact_nonce"
    using parse_metadata_written [of 4321 "map of_nat [0..<16]" "[]" "[10]"]
    by (simp add: parses_port_and_exact_nonce_def is_whitespace_def)
  show "malformed_metadata_never_panics"
    by (simp add: malformed_metadata_never_panics_def parse_metadata_def ascii_bytes_def lit_def
        from_utf8_def utf8_next.simps parse_u16.simps parse_u16_digits.simps
        checked_mul_def checked_add_def trim_def
        is_whitespace_def is_digit_def digit_val_def)
  show "connects_to_fake_agent_and_sends_nonce_first"
    by (simp add: connects_to_fake_agent_and_sends_nonce_first_def redirect_connect
        del: agent_connect.simps)
  show "refreshes_redirect_metadata_for_every_session"
    by (simp add: refreshes_redirect_metadata_for_every_session_def redirect_connect
        del: agent_connect.simps)
  show "stale_redirect_returns_an_agent_unavailable_error"
    by (simp add: stale_redirect_returns_an_agent_unavailable_error_def
        connect_gpg4win_with_window_def connect_loop.simps gpg4win_attempt_def host_load
        write_redirect_read)
qed


subsection \<open>relay.rs\<close>

definition relays_in_both_directions_until_eof :: bool where
  "relays_in_both_directions_until_eof =
     (case relay (\<lambda>_ _. pipes_turn 64 (\<lambda>_. False)) () ()
            \<lparr>pp_lr_todo = ascii_bytes (lit ''request''), pp_lr = fresh_flow,
             pp_rl_todo = ascii_bytes (lit ''reply''), pp_rl = fresh_flow\<rparr> of
        Some (Ok stats, w) \<Rightarrow>
          fl_out (pp_lr w) = ascii_bytes (lit ''request'') \<and>
          fl_out (pp_rl w) = ascii_bytes (lit ''reply'') \<and>
          stats = \<lparr>left_to_right = 7, right_to_left = 5\<rparr>
      | _ \<Rightarrow> False)"

text \<open>Streams on which nothing happens, and a channel whose sender has sent.\<close>

definition stops_on_cancellation :: bool where
  "stops_on_cancellation =
     (case wt_channel versioned_watch False of (shutdown_sender, shutdown) \<Rightarrow>
        (case relay (\<lambda>_ _ c. (True, None, map_option fst (wt_changed versioned_watch c shutdown), c))
               () () (wt_send versioned_watch True shutdown_sender) of
           Some (Err e, _) \<Rightarrow> io_kind e = Interrupted
         | _ \<Rightarrow> False))"

lemma relay_tests: "relays_in_both_directions_until_eof" "stops_on_cancellation"
  by (simp_all add: relays_in_both_directions_until_eof_def stops_on_cancellation_def
      relay.simps pipes_turn_def relay_poll_def flow_turn_def Let_def fresh_flow_def
      ascii_bytes_def lit_def versioned_watch_def relay_cancelled_def)


subsection \<open>unix\_socket.rs\<close>

text \<open>The empty directory of the tests, and the test's way to look at a path.\<close>

definition empty_directory :: sim_fs where
  "empty_directory = demo_fs None False"

definition binds_owner_only_socket_and_cleans_up_its_own_path :: bool where
  "binds_owner_only_socket_and_cleans_up_its_own_path =
     (case bind_socket fs_ops ''/s'' empty_directory of
        (Ok listener, w) \<Rightarrow>
          (case fs_nodes w ''/s'' of
             Some st \<Rightarrow> st_mode st AND 0x1FF = 0x180
           | None \<Rightarrow> False) \<and>
          fs_nodes (drop_listener fs_ops listener w) ''/s'' = None
      | (Err _, _) \<Rightarrow> False)"

definition refuses_regular_file_and_symlink_collisions :: bool where
  "refuses_regular_file_and_symlink_collisions =
     list_all (\<lambda>mode. case bind_socket fs_ops ''/s'' (demo_fs (Some
          \<lparr>st_is_socket = False, st_mode = mode, st_dev = 1, st_ino = 7\<rparr>) False) of
        (Err e, _) \<Rightarrow> io_kind e = AlreadyExists
      | (Ok _, _) \<Rightarrow> False) [0x81A4, 0xA1FF]"

definition rebinds_an_unlinked_owned_socket :: bool where
  "rebinds_an_unlinked_owned_socket =
     (case bind_socket fs_ops ''/s'' empty_directory of
        (Ok listener, w) \<Rightarrow>
          (case verify_or_rebind fs_ops listener (snd (fs_remove ''/s'' w)) of
             (Ok _, _, w') \<Rightarrow> fs_nodes w' ''/s'' \<noteq> None
           | (Err _, _, _) \<Rightarrow> False)
      | (Err _, _) \<Rightarrow> False)"

lemma bind_in_empty_directory:
  "bind_socket fs_ops ''/s'' empty_directory = (Ok demo_listener, demo_fs_bound)"
  by (simp add: empty_directory_def bind_socket_def demo_parent remove_stale_socket_def bind_new_def
      bind_io_def return_io_def fs_defs demo_fs_def demo_listener_def demo_fs_bound_def fun_eq_iff)

lemma unix_socket_tests:
  "binds_owner_only_socket_and_cleans_up_its_own_path"
  "refuses_regular_file_and_symlink_collisions"
  "rebinds_an_unlinked_owned_socket"
proof -
  show "binds_owner_only_socket_and_cleans_up_its_own_path"
    unfolding binds_owner_only_socket_and_cleans_up_its_own_path_def bind_in_empty_directory
    by (simp add: drop_listener_def owns_def fs_defs demo_listener_def demo_fs_bound_def)
  show "refuses_regular_file_and_symlink_collisions"
    by (simp add: refuses_regular_file_and_symlink_collisions_def bind_socket_def demo_parent
        remove_stale_socket_def bind_io_def fs_defs demo_fs_def)
  have "snd (fs_remove ''/s'' demo_fs_bound) = demo_fs_bound\<lparr>fs_nodes := (\<lambda>p. None)\<rparr>"
    by (simp add: fs_remove_def demo_fs_bound_def fun_eq_iff)
  then show "rebinds_an_unlinked_owned_socket"
    by (simp add: rebinds_an_unlinked_owned_socket_def bind_in_empty_directory demo_verify_unlinked)
qed


subsection \<open>tls.rs\<close>

text \<open>
  The generated materials of the tests: one CA, a server and a client certificate with their keys,
  and files without any PEM item.
\<close>

definition materials :: "path \<Rightarrow> (u32 \<times> pem_item list) option" where
  "materials = [''ca.pem'' \<mapsto> (0x1A4, [PemCert 1]),
     ''server.pem'' \<mapsto> (0x1A4, [PemCert 2]), ''server-key.pem'' \<mapsto> (0x180, [PemKey 2]),
     ''client.pem'' \<mapsto> (0x1A4, [PemCert 3]), ''client-key.pem'' \<mapsto> (0x180, [PemKey 3]),
     ''certificate.pem'' \<mapsto> (0x1A4, []), ''key.pem'' \<mapsto> (0x1A4, []), ''empty.pem'' \<mapsto> (0x1A4, [])]"

definition malformed_or_insecure_pem_fails_without_disclosing_contents :: bool where
  "malformed_or_insecure_pem_fails_without_disclosing_contents =
     (case load_private_key (disk_ops materials) ''key.pem'' () of
        (Err e, _) \<Rightarrow>
          \<not> sublist (lit ''not a key'') (tls_error_display e) \<and>
          (case e of InsecurePrivateKeyPermissions _ \<Rightarrow> True | _ \<Rightarrow> False) \<and>
          \<not> is_ok (fst (load_certificates (disk_ops materials) ''certificate.pem'' ()))
      | (Ok _, _) \<Rightarrow> False)"

definition empty_missing_and_mismatched_pem_inputs_name_their_paths :: bool where
  "empty_missing_and_mismatched_pem_inputs_name_their_paths \<longleftrightarrow>
     (case load_certificates (disk_ops materials) ''missing.pem'' () of
        (Err e, _) \<Rightarrow> sublist (path_display ''missing.pem'') (tls_error_display e)
      | (Ok _, _) \<Rightarrow> False) \<and>
     (case load_certificates (disk_ops materials) ''empty.pem'' () of
        (Err (EmptyCertificateChain _), _) \<Rightarrow> True
      | _ \<Rightarrow> False) \<and>
     (case server_config (disk_ops materials) ''ca.pem'' ''server.pem'' ''client-key.pem'' () of
        (Err (TlsConfiguration _ _), _) \<Rightarrow> True
      | _ \<Rightarrow> False)"

definition configuration_only_advertises_tls13_and_required_alpn :: bool where
  "configuration_only_advertises_tls13_and_required_alpn =
     (case server_config (disk_ops materials) ''ca.pem'' ''server.pem'' ''server-key.pem'' () of
        (Ok config, _) \<Rightarrow>
          tc_alpn config = [ALPN_PROTOCOL] \<and> is_ok (validate_alpn (Some ALPN_PROTOCOL)) \<and>
          validate_alpn None = Err AlpnMismatch
      | (Err _, _) \<Rightarrow> False)"

lemma tls_tests:
  "malformed_or_insecure_pem_fails_without_disclosing_contents"
  "empty_missing_and_mismatched_pem_inputs_name_their_paths"
  "configuration_only_advertises_tls13_and_required_alpn"
proof -
  have "\<not> sublist (lit ''not a key'') (tls_error_display (InsecurePrivateKeyPermissions ''key.pem''))"
    by (simp add: lit_def path_display_def utf8_next_ascii sublist_Cons_right)
  then show "malformed_or_insecure_pem_fails_without_disclosing_contents"
    by (simp add: malformed_or_insecure_pem_fails_without_disclosing_contents_def disk_ops_def
        materials_def bind_io_def map_err_io_def return_io_def load_certificates_def
        load_private_key_def check_private_key_permissions_def open_file_def)
  have "sublist p (a @ b @ c @ p @ d)" for p a b c d :: rstr
    using sublist_appendI [of p "a @ b @ c" d] by simp
  then show "empty_missing_and_mismatched_pem_inputs_name_their_paths"
    by (simp add: empty_missing_and_mismatched_pem_inputs_name_their_paths_def disk_simps
        materials_def)
  show "configuration_only_advertises_tls13_and_required_alpn"
    by (simp add: configuration_only_advertises_tls13_and_required_alpn_def disk_simps
        materials_def validate_alpn_def)
qed

end
