(* ===== verification/Tls_Duplex.thy ===== *)
theory Tls_Duplex
  imports Mutual_Auth Unit_Tests
begin

section \<open>The handshakes of the unit tests (src/tls.rs, lines 291 to 385)\<close>

text \<open>
  A handshake between the two configurations over a duplex stream gives both ends' results.  What
  the TLS library promises of it, by the documentation of its verifiers and of TLS 1.3: an end
  that succeeds has verified the other one, and the server finishes only after the client has.
  The tests are Boolean functions of such a library.  The two that expect a failure hold for every
  one that tells the generated certificates apart.  The one that expects a success is a test of the
  library as much as of the configurations: it needs that matching ends do succeed, over a
  connection that is not cut, which \<open>tls_duplex_completes\<close> states for ends whose keys belong to
  their chains.
\<close>

record ('roots, 'cert, 'key, 'n, 'tls) tls_duplex_ops =
  dx_handshake :: "('roots, 'cert, 'key) tls_config \<Rightarrow> ('roots, 'cert, 'key) tls_config \<Rightarrow> 'n \<Rightarrow>
    ('tls, io_error) result \<times> ('tls, io_error) result"
  dx_version :: "'tls \<Rightarrow> protocol_version"
  dx_alpn :: "'tls \<Rightarrow> u8 list option"

locale tls_duplex =
  fixes dx :: "('roots, 'cert, 'key, 'n, 'tls) tls_duplex_ops"
    and valid_client :: "'roots \<Rightarrow> 'cert list \<Rightarrow> bool"
    and valid_server :: "'roots \<Rightarrow> 'cert list \<Rightarrow> 'n \<Rightarrow> bool"
  assumes client_verifies:
      "dx_handshake dx server client name = (Ok tls, r) \<Longrightarrow> tc_peer client = ServerRoots roots \<Longrightarrow>
       valid_server roots (tc_chain server) name"
    and server_verifies:
      "dx_handshake dx server client name = (r, Ok tls) \<Longrightarrow> tc_peer server = ClientVerifier roots \<Longrightarrow>
       valid_client roots (tc_chain client)"
    and server_after_client:
      "dx_handshake dx server client name = (r, Ok tls) \<Longrightarrow> is_ok r"
    and versions:
      "dx_handshake dx server client name = (Ok tls, r) \<Longrightarrow>
       dx_version dx tls \<in> set (tc_versions server) \<inter> set (tc_versions client)"
begin

lemma wrong_name_fails:
  assumes "tc_peer client = ServerRoots roots" "\<not> valid_server roots (tc_chain server) name"
  shows "\<not> is_ok (fst (dx_handshake dx server client name)) \<and>
    \<not> is_ok (snd (dx_handshake dx server client name))"
proof -
  obtain c s where run: "dx_handshake dx server client name = (c, s)" by fastforce
  have "\<not> is_ok c"
  proof (cases c)
    case (Ok tls)
    with client_verifies run assms show ?thesis by blast
  qed simp
  moreover from this have "\<not> is_ok s"
    using server_after_client run by (cases s) auto
  ultimately show ?thesis using run by simp
qed

lemma rogue_client_fails:
  assumes "tc_peer server = ClientVerifier roots" "\<not> valid_client roots (tc_chain client)"
  shows "\<not> is_ok (snd (dx_handshake dx server client name))"
proof -
  obtain c s where run: "dx_handshake dx server client name = (c, s)" by fastforce
  with server_verifies assms show ?thesis by (cases s) auto
qed

end


locale tls_duplex_completes = tls_duplex dx valid_client valid_server
  for dx :: "('roots, 'cert, 'key, 'n, 'tls) tls_duplex_ops"
    and valid_client :: "'roots \<Rightarrow> 'cert list \<Rightarrow> bool"
    and valid_server :: "'roots \<Rightarrow> 'cert list \<Rightarrow> 'n \<Rightarrow> bool" +
  fixes key_of :: "'cert list \<Rightarrow> 'key \<Rightarrow> bool"
  assumes completes:
      "key_of (tc_chain server) (tc_key server) \<Longrightarrow> key_of (tc_chain client) (tc_key client) \<Longrightarrow>
       tc_peer server = ClientVerifier sroots \<Longrightarrow> tc_peer client = ServerRoots croots \<Longrightarrow>
       valid_client sroots (tc_chain client) \<Longrightarrow> valid_server croots (tc_chain server) name \<Longrightarrow>
       tc_versions server = [v] \<Longrightarrow> tc_versions client = [v] \<Longrightarrow>
       tc_alpn server = [p] \<Longrightarrow> tc_alpn client = [p] \<Longrightarrow>
       \<exists>c s. dx_handshake dx server client name = (Ok c, Ok s) \<and> dx_alpn dx s = Some p"


subsection \<open>The tests\<close>

text \<open>Two calls of \<open>materials\<close>: the trusted one and a rogue one with a CA of its own.\<close>

definition all_materials :: "path \<Rightarrow> (u32 \<times> pem_item list) option" where
  "all_materials = materials(
     ''rogue/client.pem'' \<mapsto> (0x1A4, [PemCert 13]), ''rogue/client-key.pem'' \<mapsto> (0x180, [PemKey 13]))"

definition test_server_config :: "((nat list, nat, nat) tls_config, tls_error) result" where
  "test_server_config =
     fst (server_config (disk_ops all_materials) ''ca.pem'' ''server.pem'' ''server-key.pem'' ())"

definition test_client_config :: "path \<Rightarrow> path \<Rightarrow> ((nat list, nat, nat) tls_config, tls_error) result" where
  "test_client_config cert key =
     fst (client_config (disk_ops all_materials) ''ca.pem'' cert key ())"

definition mutual_tls_uses_tls13_and_the_required_alpn ::
  "(nat list, nat, nat, rstr, 'tls) tls_duplex_ops \<Rightarrow> bool" where
  "mutual_tls_uses_tls13_and_the_required_alpn dx =
     (case (test_server_config, test_client_config ''client.pem'' ''client-key.pem'') of
        (Ok server, Ok client) \<Rightarrow>
          (case dx_handshake dx server client (lit ''server.test'') of
             (Ok client_stream, Ok server_stream) \<Rightarrow>
               dx_version dx client_stream = TLS13 \<and>
               dx_alpn dx server_stream = Some ALPN_PROTOCOL
           | _ \<Rightarrow> False)
      | _ \<Rightarrow> False)"

definition wrong_server_name_fails_closed ::
  "(nat list, nat, nat, rstr, 'tls) tls_duplex_ops \<Rightarrow> bool" where
  "wrong_server_name_fails_closed dx =
     (case (test_server_config, test_client_config ''client.pem'' ''client-key.pem'') of
        (Ok server, Ok client) \<Rightarrow>
          (case dx_handshake dx server client (lit ''wrong.test'') of
             (client_result, server_result) \<Rightarrow> \<not> is_ok client_result \<and> \<not> is_ok server_result)
      | _ \<Rightarrow> False)"

definition rogue_client_certificate_is_rejected_by_the_server ::
  "(nat list, nat, nat, rstr, 'tls) tls_duplex_ops \<Rightarrow> bool" where
  "rogue_client_certificate_is_rejected_by_the_server dx =
     (case (test_server_config, test_client_config ''rogue/client.pem'' ''rogue/client-key.pem'') of
        (Ok server, Ok rogue_client) \<Rightarrow>
          (case dx_handshake dx server rogue_client (lit ''server.test'') of
             (_, server_result) \<Rightarrow> \<not> is_ok server_result)
      | _ \<Rightarrow> False)"

lemma test_configs:
  "test_server_config = Ok \<lparr>tc_versions = [TLS13], tc_peer = ClientVerifier [1], tc_chain = [2],
     tc_key = 2, tc_alpn = [ALPN_PROTOCOL]\<rparr>"
  "test_client_config ''client.pem'' ''client-key.pem'' = Ok \<lparr>tc_versions = [TLS13],
     tc_peer = ServerRoots [1], tc_chain = [3], tc_key = 3, tc_alpn = [ALPN_PROTOCOL]\<rparr>"
  "test_client_config ''rogue/client.pem'' ''rogue/client-key.pem'' = Ok \<lparr>tc_versions = [TLS13],
     tc_peer = ServerRoots [1], tc_chain = [13], tc_key = 13, tc_alpn = [ALPN_PROTOCOL]\<rparr>"
  by (simp_all add: test_server_config_def test_client_config_def all_materials_def materials_def
      disk_simps)

lemma tls_handshake_tests:
  assumes "tls_duplex_completes dx valid_client valid_server key_of" "key_of [2] 2" "key_of [3] 3"
    and "valid_client [1] [3]" "\<not> valid_client [1] [13]"
    and "valid_server [1] [2] (lit ''server.test'')" "\<not> valid_server [1] [2] (lit ''wrong.test'')"
  shows "mutual_tls_uses_tls13_and_the_required_alpn dx"
    and "wrong_server_name_fails_closed dx"
    and "rogue_client_certificate_is_rejected_by_the_server dx"
proof -
  have dx: "tls_duplex dx valid_client valid_server"
    using assms(1) by (rule tls_duplex_completes.axioms)
  let ?server = "\<lparr>tc_versions = [TLS13], tc_peer = ClientVerifier [1], tc_chain = [2],
     tc_key = 2, tc_alpn = [ALPN_PROTOCOL]\<rparr>"
  let ?client = "\<lparr>tc_versions = [TLS13], tc_peer = ServerRoots [1], tc_chain = [3],
     tc_key = 3, tc_alpn = [ALPN_PROTOCOL]\<rparr>"
  have "\<exists>c s. dx_handshake dx ?server ?client (lit ''server.test'') = (Ok c, Ok s) \<and>
      dx_alpn dx s = Some ALPN_PROTOCOL"
    using assms(2-4,6) by (intro tls_duplex_completes.completes [OF assms(1)]) simp_all
  then obtain c s where run: "dx_handshake dx ?server ?client (lit ''server.test'') = (Ok c, Ok s)"
    and alpn: "dx_alpn dx s = Some ALPN_PROTOCOL" by blast
  from tls_duplex.versions [OF dx run] have "dx_version dx c = TLS13" by simp
  with run alpn show "mutual_tls_uses_tls13_and_the_required_alpn dx"
    by (simp add: mutual_tls_uses_tls13_and_the_required_alpn_def test_configs)
  from tls_duplex.wrong_name_fails [OF dx, of ?client "[1]" ?server "lit ''wrong.test''"]
    assms(7)
  show "wrong_server_name_fails_closed dx"
    by (simp add: wrong_server_name_fails_closed_def test_configs case_prod_unfold)
  from tls_duplex.rogue_client_fails [OF dx, of ?server "[1]" "?client\<lparr>tc_chain := [13], tc_key := 13\<rparr>"
      "lit ''server.test''"] assms(5)
  show "rogue_client_certificate_is_rejected_by_the_server dx"
    by (simp add: rogue_client_certificate_is_rejected_by_the_server_def test_configs
        case_prod_unfold)
qed


subsection \<open>A library that does so\<close>

definition sim_peer_of :: "(nat list, nat, nat) tls_config \<Rightarrow> sim_peer" where
  "sim_peer_of config = \<lparr>sp_versions = tc_versions config, sp_chain = tc_chain config,
     sp_alpn = tc_alpn config\<rparr>"

definition sim_duplex :: "(nat list, nat, nat, rstr, sim_tls) tls_duplex_ops" where
  "sim_duplex =
     \<lparr>dx_handshake = (\<lambda>server client name.
        let c = sim_connect client name (sim_peer_of server)
        in (c, if is_ok c then sim_accept server (sim_peer_of client)
               else Err (io_error_new InvalidData []))),
      dx_version = tl_version, dx_alpn = tl_alpn\<rparr>"

interpretation sim_dx: tls_duplex_completes sim_duplex sim_valid_client sim_valid_server
    "\<lambda>chain key. hd chain = key"
proof
  fix server client :: "(nat list, nat, nat) tls_config" and sroots croots name v p
  assume "tc_peer server = ClientVerifier sroots" "tc_peer client = ServerRoots croots"
    "sim_valid_client sroots (tc_chain client)" "sim_valid_server croots (tc_chain server) name"
    "tc_versions server = [v]" "tc_versions client = [v]" "tc_alpn server = [p]" "tc_alpn client = [p]"
  then show "\<exists>c s. dx_handshake sim_duplex server client name = (Ok c, Ok s) \<and>
      dx_alpn sim_duplex s = Some p"
    by (simp add: sim_duplex_def sim_connect_def sim_accept_def sim_handshake_def sim_peer_of_def)
qed (auto simp: sim_duplex_def sim_connect_def sim_accept_def sim_peer_of_def Let_def
    dest!: sim_handshake_Ok split: if_splits)

lemma sim_handshake_tests:
  "mutual_tls_uses_tls13_and_the_required_alpn sim_duplex"
  "wrong_server_name_fails_closed sim_duplex"
  "rogue_client_certificate_is_rejected_by_the_server sim_duplex"
proof -
  have "sim_valid_client [1] [3]" "\<not> sim_valid_client [1] [13]"
    "sim_valid_server [1] [2] (lit ''server.test'')"
    "\<not> sim_valid_server [1] [2] (lit ''wrong.test'')"
    by (simp_all add: sim_valid_client_def sim_valid_server_def lit_def)
  from tls_handshake_tests [OF sim_dx.tls_duplex_completes_axioms _ _ this]
  show "mutual_tls_uses_tls13_and_the_required_alpn sim_duplex"
    "wrong_server_name_fails_closed sim_duplex"
    "rogue_client_certificate_is_rejected_by_the_server sim_duplex" by simp_all
qed


subsection \<open>Configurations that were built\<close>

text \<open>
  Between a server's and a client's configuration, built from whatever files, a handshake succeeds
  at the server only when the client's chain is valid under the anchors of the server's client CA
  file and the server's chain is valid for the requested name under the anchors of the client's
  server CA file; a client that cannot verify the server fails; and success is TLS 1.3.
\<close>

lemma configurations_authenticate_each_other:
  assumes "tls_duplex dx valid_client valid_server"
    and "server_config sops client_ca server_cert server_key w1 = (Ok server, w1')"
    and "client_config cops server_ca client_cert client_key w2 = (Ok client, w2')"
    and "dx_handshake dx server client name = (c, s)"
  shows "\<exists>sroots croots. trusted_roots sops client_ca sroots \<and> trusted_roots cops server_ca croots \<and>
     (is_ok s \<longrightarrow> valid_client sroots (tc_chain client) \<and> valid_server croots (tc_chain server) name) \<and>
     (is_ok c \<longrightarrow> valid_server croots (tc_chain server) name) \<and>
     (\<forall>tls. c = Ok tls \<longrightarrow> dx_version dx tls = TLS13)"
proof -
  from server_config_facts [OF assms(2)] obtain sroots where
      server: "tc_peer server = ClientVerifier sroots" "trusted_roots sops client_ca sroots" by blast
  from client_config_facts [OF assms(3)] obtain croots where
      client: "tc_peer client = ServerRoots croots" "trusted_roots cops server_ca croots"
        "tc_versions client = [TLS13]" by blast
  have wrong: "\<not> is_ok c \<and> \<not> is_ok s" if "\<not> valid_server croots (tc_chain server) name"
    using tls_duplex.wrong_name_fails [OF assms(1) client(1) that] assms(4) by simp
  have rogue: "\<not> is_ok s" if "\<not> valid_client sroots (tc_chain client)"
    using tls_duplex.rogue_client_fails [OF assms(1) server(1) that, of name] assms(4) by simp
  have "\<forall>tls. c = Ok tls \<longrightarrow> dx_version dx tls = TLS13"
    using tls_duplex.versions [OF assms(1), of server client name] assms(4) client(3) by auto
  with server(2) client(2) wrong rogue show ?thesis by blast
qed

end
