(* ===== verification/Client_Shutdown.thy ===== *)
theory Client_Shutdown
  imports Drain
begin

section \<open>From the signal to the end of the client\<close>

text \<open>
  The shutdown handler, the client's loop and its drain together.  The client also owns a socket:
  the listener it holds, whichever the monitor bound last, stays bound to the path of the options,
  and the return of the function closes it.
\<close>

subsection \<open>The listener of every reachable state\<close>

definition client_listener_ok ::
  "('lis \<Rightarrow> u64 \<times> u64) \<Rightarrow> path \<Rightarrow> 'lis owned_unix_listener \<Rightarrow> bool" where
  "client_listener_ok listener_id p l \<longleftrightarrow>
     ul_path l = p \<and> listener_id (ul_listener l) = ul_identity l"

context socket_namespace
begin

lemma verify_or_rebind_listener:
  assumes "verify_or_rebind ops l w = (r, l', w')" "client_listener_ok listener_id p l"
  shows "client_listener_ok listener_id p l'"
proof -
  obtain s w1 where s: "u_symlink_metadata ops (ul_path l) w = (s, w1)" by fastforce
  obtain b w2 where b: "bind_new ops (ul_path l) w1 = (b, w2)" by fastforce
  show ?thesis
  proof (cases b)
    case (Ok replacement)
    with b bind_new_Ok have "ul_path replacement = ul_path l \<and> owned replacement w2" by blast
    with assms s b Ok show ?thesis
      by (auto simp: verify_or_rebind_def client_listener_ok_def owned_in_def
          split: result.splits if_splits)
  next
    case (Err e)
    with assms s b show ?thesis
      by (auto simp: verify_or_rebind_def split: result.splits if_splits)
  qed
qed

lemma monitor_tick_listener:
  assumes "client_listener_ok listener_id p (cl_listener s)" "ch_sockets host = ops"
  shows "client_listener_ok listener_id p (cl_listener (monitor_tick host rt s))"
proof -
  obtain r l w where v: "verify_or_rebind ops (cl_listener s) (cl_world s) = (r, l, w)"
    by (metis prod_cases3)
  from verify_or_rebind_listener [OF v assms(1)] assms(2) v show ?thesis
    by (cases r) (simp_all add: monitor_tick_def client_return_def abort_sessions_def)
qed

lemma client_on_listener:
  assumes "client_on host rt ctx ev s = Some s'" "ch_sockets host = ops"
    and "client_listener_ok listener_id p (cl_listener s)"
  shows "client_listener_ok listener_id p (cl_listener s')"
proof (cases ev)
  case ClientTick
  with assms monitor_tick_listener show ?thesis by (auto split: if_splits)
next
  case (ClientAccepted r)
  with assms show ?thesis
    by (cases r) (auto simp: client_admit_def admit_def warn_def Let_def
        split: if_splits option.splits)
qed (use assms in \<open>auto simp: shutdown_branch_def join_branch_def warn_def drain_one_def
      client_return_def abort_sessions_def task_ends_def split: if_splits option.splits prod.splits\<close>)

lemma client_steps_listener:
  "(client_step host rt ctx)\<^sup>*\<^sup>* s s' \<Longrightarrow> ch_sockets host = ops \<Longrightarrow>
     client_listener_ok listener_id p (cl_listener s) \<Longrightarrow>
     client_listener_ok listener_id p (cl_listener s')"
  by (induction rule: rtranclp_induct) (auto elim!: client_stepE dest: client_on_listener)

lemma client_startup_listener:
  assumes "client_startup host rt options channel receiver w = (Some (Ok (ctx, s0)), w')"
    and "ch_sockets host = ops"
  shows "client_listener_ok listener_id (co_listen_socket options) (cl_listener s0)"
proof -
  from assms obtain w1 w2 l where "bind_socket ops (co_listen_socket options) w1 = (Ok l, w2)"
      "cl_listener s0 = l"
    by (auto simp: client_startup_def io_splits loop_state.defs
        split: prod.splits result.splits option.splits)
  with bind_socket_cases [of "co_listen_socket options" w1 "Ok l" w2] show ?thesis
    by (auto simp: client_listener_ok_def owned_in_def)
qed

end

context client_runtime
begin

lemma client_on_closed:
  assumes "client_on host rt ctx ev s = Some s'" "closed (l_channel s)"
  shows "closed (l_channel s')"
proof (cases ev)
  case (ClientAccepted r)
  with assms show ?thesis
    by (cases r) (auto simp: client_admit_def admit_def warn_def Let_def
        split: if_splits option.splits)
next
  case ClientTick
  with assms show ?thesis
    by (auto simp: monitor_tick_def client_return_def abort_sessions_def
        split: if_splits prod.splits result.splits)
next
  case (ClientJoined panicked)
  with assms show ?thesis by (auto split: if_splits dest!: join_branch_eq)
qed (use assms in \<open>auto simp: shutdown_branch_def drain_one_def client_return_def
      abort_sessions_def task_ends_def split: if_splits\<close>)

lemma client_steps_closed:
  "(client_step host rt ctx)\<^sup>*\<^sup>* s s' \<Longrightarrow> closed (l_channel s) \<Longrightarrow> closed (l_channel s')"
  by (induction rule: rtranclp_induct) (auto elim!: client_stepE dest: client_on_closed)

lemma client_notify_shutdown_steps:
  assumes "notify_shutdown (rt_watch rt) sig (l_channel s) w = (r, c, w')"
  shows "(client_step host rt ctx)\<^sup>*\<^sup>* s (s\<lparr>l_channel := c\<rparr>) \<and> closed c"
proof -
  have "client_run host rt ctx (case r of Ok _ \<Rightarrow> [ClientSignalled True, ClientSenderDropped]
      | Err _ \<Rightarrow> [ClientSenderDropped]) s = Some (s\<lparr>l_channel := c\<rparr>)"
    using assms by (auto simp: notify_shutdown_def split: prod.splits result.splits)
  with watch.notify_shutdown_closed [OF assms] show ?thesis using client_run_steps by blast
qed

end

text \<open>The drain leaves the listener and the world alone.\<close>

lemma drain_move_own_fields:
  "drain_move rt s s' \<Longrightarrow> cl_listener s' = cl_listener s \<and> cl_world s' = cl_world s"
  by (erule drain_move.cases) (auto simp: drain_one_def task_ends_def)

lemma drain_moves_own_fields:
  "(drain_move rt)\<^sup>*\<^sup>* s s' \<Longrightarrow> cl_listener s' = cl_listener s \<and> cl_world s' = cl_world s"
  by (induction rule: rtranclp_induct) (auto dest: drain_move_own_fields)


subsection \<open>Properties\<close>

text \<open>C5: the client stops when it is told to.  From any reachable state, when the shutdown handler
  has returned, with a signal or with an error, then whatever the loop does next, as long as it
  accepts its shutdown branch is ready; and once that branch is taken, the drain returns within
  ten seconds and the timer's slack, no session is left, the socket is closed, nothing but the
  client's own socket has been removed, and \<open>run_client_until\<close> returns successfully.\<close>

theorem client_stops_after_signal:
  assumes "socket_namespace (ch_sockets host) node live listener_id"
    and "client_runtime rt available running finished version closed seen"
    and "client_startup host rt options channel receiver w = (Some (Ok (ctx, s0)), w')"
    and "(client_step host rt ctx)\<^sup>*\<^sup>* s0 s"
    and "notify_shutdown (rt_watch rt) sig (l_channel s) w1 = (r, c, w2)"
    and "(client_step host rt ctx)\<^sup>*\<^sup>* (s\<lparr>l_channel := c\<rparr>) s'" "l_phase s' = Accepting"
    and "drain_clock env now (now v + from_secs 10) slack"
  shows "\<exists>t u v'. client_on host rt ctx ClientShutdown s' = Some t \<and>
     client_drain_and_return host rt env now t v = Some (u, v') \<and>
     now v' \<le> now v + from_secs 10 + slack \<and> running (l_sessions u) = {#} \<and>
     (client_step host rt ctx)\<^sup>*\<^sup>* s' u \<and>
     \<not> live (cl_world u) (ul_identity (cl_listener s')) \<and>
     (node (cl_world u) = node (cl_world s') \<or>
      (\<exists>st. node (cl_world s') (co_listen_socket options) = Some st \<and> owns (cl_listener s') st \<and>
         node (cl_world u) = (node (cl_world s'))(co_listen_socket options := None))) \<and>
     run_client_until host rt options channel receiver w (Ok ())"
proof -
  have rt: "loop_runtime rt available running finished version closed seen"
    using assms(2) by (simp add: client_runtime_def)
  note handler = client_runtime.client_notify_shutdown_steps [OF assms(2,5), of host ctx]
  have "closed (l_channel s')"
    using client_runtime.client_steps_closed [OF assms(2,6)] handler by simp
  from loop_runtime.shutdown_branch_closed [OF rt this] obtain rx where
      shut: "client_on host rt ctx ClientShutdown s' = Some (s'\<lparr>l_receiver := rx, l_phase := Draining\<rparr>)"
    using assms(7) by auto
  let ?t = "s'\<lparr>l_receiver := rx, l_phase := Draining\<rparr>"
  from loop_runtime.drain_returns [OF rt assms(8), of ?t v] obtain timed_out s1 v' where
      run: "drain rt env now (now v + from_secs 10) ?t v = Some (timed_out, s1, v')"
    and time: "now v' \<le> now v + from_secs 10 + slack"
    by (auto simp: max_def split: if_splits)
  let ?u = "client_return host rt (Ok ()) s1"
  have s'_u: "(client_step host rt ctx)\<^sup>*\<^sup>* s' ?u"
  proof (rule converse_rtranclp_into_rtranclp)
    show "client_step host rt ctx s' ?t" using shut by (rule client_step.event)
    show "(client_step host rt ctx)\<^sup>*\<^sup>* ?t ?u" using run by (rule client_drain_steps) simp
  qed
  have s0_s': "(client_step host rt ctx)\<^sup>*\<^sup>* s0 s'"
    using assms(4) handler assms(6) by (meson rtranclp_trans)
  have result: "run_client_until host rt options channel receiver w (Ok ())"
    using run_client_until.stopped [OF assms(3) rtranclp_trans [OF s0_s' s'_u]]
    by (simp add: client_return_def)
  have listener: "client_listener_ok listener_id (co_listen_socket options) (cl_listener s')"
    by (rule socket_namespace.client_steps_listener [OF assms(1) s0_s' refl
          socket_namespace.client_startup_listener [OF assms(1,3) refl]])
  have u: "cl_world ?u = drop_listener (ch_sockets host) (cl_listener s') (cl_world s')"
    "running (l_sessions ?u) = {#}"
    using drain_moves_own_fields [OF drain_steps [OF run, THEN conjunct1]]
      loop_runtime.abort_running [OF rt, of s1]
    by (simp_all add: client_return_def)
  have drained: "client_drain_and_return host rt env now ?t v = Some (?u, v')"
    using run by (simp add: client_drain_and_return_def CLIENT_TASK_DRAIN_TIMEOUT_def)
  have dropped: "\<not> live (cl_world ?u) (ul_identity (cl_listener s')) \<and>
     (node (cl_world ?u) = node (cl_world s') \<or>
      (\<exists>st. node (cl_world s') (co_listen_socket options) = Some st \<and> owns (cl_listener s') st \<and>
         node (cl_world ?u) = (node (cl_world s'))(co_listen_socket options := None)))"
    using socket_namespace.drop_listener_cases [OF assms(1), of "cl_listener s'" "cl_world s'"]
      listener unfolding u(1) client_listener_ok_def by auto
  show ?thesis
    by (intro exI conjI) (rule shut drained time u(2) s'_u result dropped [THEN conjunct1]
        dropped [THEN conjunct2])+
qed

lemma demo_client_accepted:
  "(client_step demo_client_host demo_runtime demo_client_context)\<^sup>*\<^sup>*
     (demo_client 1 [] \<lparr>wc_version = 0, wc_closed = False\<rparr> 0 Accepting [] 1 demo_fs_bound)
     (demo_client 0 [demo_client_task] \<lparr>wc_version = 0, wc_closed = False\<rparr> 0 Accepting [] 2
       demo_fs_bound)"
  by (rule client_run_steps [where evs = "[ClientAccepted (Ok ''a'')]"])
     (simp add: demo_runtime_defs demo_client_def demo_client_task_def client_admit_def Let_def
       admit_def demo_client_context_def)

theorem client_stops_after_signal_witness:
  "\<exists>t u v'. client_drain_and_return demo_client_host demo_runtime (second_env []) (\<lambda>v. v) t 5 =
       Some (u, v') \<and>
     client_on demo_client_host demo_runtime demo_client_context ClientShutdown
       ((demo_client 0 [demo_client_task] \<lparr>wc_version = 0, wc_closed = False\<rparr> 0 Accepting [] 2
          demo_fs_bound)\<lparr>l_channel := \<lparr>wc_version = 1, wc_closed = True\<rparr>\<rparr>) = Some t \<and>
     v' \<le> 5 + from_secs 10 + 1000000000 \<and> fst (l_sessions u) = [] \<and>
     \<not> fs_live (cl_world u) (ul_identity demo_listener)"
proof -
  let ?s = "demo_client 0 [demo_client_task] \<lparr>wc_version = 0, wc_closed = False\<rparr> 0 Accepting [] 2
    demo_fs_bound"
  let ?sig = "\<lparr>sg_register_terminate = (\<lambda>w. (Ok (), w)), sg_wait = (\<lambda>w. (Terminated, w))\<rparr>"
  have handler: "notify_shutdown (rt_watch demo_runtime) ?sig (l_channel ?s) () =
      (Ok (), \<lparr>wc_version = 1, wc_closed = True\<rparr>, ())"
    by (simp add: notify_shutdown_def wait_for_shutdown_def bind_io_def demo_runtime_defs
        demo_client_def)
  have ns: "socket_namespace (ch_sockets demo_client_host) fs_nodes fs_live (\<lambda>l. l)"
    by (simp add: demo_client_host_def fs.socket_namespace_axioms)
  have accepting: "l_phase (?s\<lparr>l_channel := \<lparr>wc_version = 1, wc_closed = True\<rparr>\<rparr>) = Accepting"
    by (simp add: demo_client_def)
  show ?thesis
    using client_stops_after_signal [OF ns client_rt.client_runtime_axioms demo_client_start
      demo_client_accepted handler rtranclp.rtrancl_refl accepting
      seconds.drain_clock_axioms [where ks = "[]"], where v = 5]
    by (auto simp: demo_client_def)
qed

end
