(* ===== verification/Integration_Tests.thy ===== *)
theory Integration_Tests
  imports Tls_Duplex Client_Shutdown
begin

section \<open>The integration tests on the model (tests/bridge.rs)\<close>

text \<open>
  Client and server put together: options, start-up, the accepted connections, the two session
  tasks, the signal and the end.  The generated materials are those of the unit tests, the TLS
  library is the simulated one, and the two sessions run over pipes: the server's session takes
  what the client's has sent, and the client's takes what the server's has sent back.
\<close>

definition test_server_host :: "(unit, pem_item list, nat, nat, nat list, unit) server_host" where
  "test_server_host = \<lparr>sh_tls = disk_ops all_materials, sh_bind = (\<lambda>a w. (Ok (), w)),
     sh_local_addr = (\<lambda>lis w. (Ok (SocketAddrV4 (127, 0, 0, 1) 4321), w))\<rparr>"

definition test_client_host :: "(sim_fs, pem_item list, nat, nat, nat list, rstr, u64 \<times> u64) client_host" where
  "test_client_host = \<lparr>ch_tls = disk_ops all_materials, ch_server_name = Ok, ch_sockets = fs_ops\<rparr>"

text \<open>The handshakes of the simulated library, each on a new connection of the pipes' worlds.\<close>

definition test_library :: "(pipes, sim_peer, nat list, nat, nat, rstr, sim_tls) tls_endpoints" where
  "test_library =
     \<lparr>e_accept = (\<lambda>config d peer w. (Some (sim_accept config peer),
         w\<lparr>pp_lr := (pp_lr w)\<lparr>fl_in := []\<rparr>, pp_rl := (pp_rl w)\<lparr>fl_out := []\<rparr>\<rparr>)),
      e_connect = (\<lambda>config d name peer w. (Some (sim_connect config name peer),
         w\<lparr>pp_lr := given_new (pp_lr w), pp_rl := taken_new (pp_rl w)\<rparr>)),
      e_alpn = tl_alpn\<rparr>"

interpretation test_tls: tls_library test_library tl_version tl_chain sim_valid_client sim_valid_server
  by unfold_locales
     (auto simp: test_library_def sim_accept_def sim_connect_def dest!: sim_handshake_Ok)

definition test_session_ops ::
  "u8 list \<Rightarrow> (pipes, u8 list, unit, unit, sim_peer, sim_tls) session_ops" where
  "test_session_ops redirect =
     \<lparr>s_set_nodelay = (\<lambda>st w. (Ok (), w)), s_set_keepalive = (\<lambda>st d w. (Ok (), w)),
      s_accept = (\<lambda>d st w. (None, w)), s_alpn = (\<lambda>tls. None), s_agent = wire_agent_ops redirect,
      s_relay = (\<lambda>tls a w. (True, None, None, w))\<rparr>"

definition test_client_ops :: "sim_peer \<Rightarrow> (pipes, rstr, unit, sim_peer, sim_tls) client_ops" where
  "test_client_ops server =
     \<lparr>c_tcp_connect = (\<lambda>d address w. (Some (Ok server), w)),
      c_set_nodelay = (\<lambda>st w. (Ok (), w)), c_set_keepalive = (\<lambda>st d w. (Ok (), w)),
      c_tls_connect = (\<lambda>d name st w. (None, w)), c_alpn = (\<lambda>tls. None),
      c_relay = (\<lambda>l tls w. (True, None, None, w)), c_now = (\<lambda>w. 0),
      c_u64_upto = (\<lambda>n w. (n, w)), c_pause = (\<lambda>d w. (Slept, w))\<rparr>"

definition test_pipes :: "u8 list \<Rightarrow> u8 list \<Rightarrow> pipes" where
  "test_pipes up down = \<lparr>pp_lr_todo = up, pp_lr = fresh_flow, pp_rl_todo = down, pp_rl = fresh_flow\<rparr>"

definition test_copy :: "nat \<Rightarrow> ('a, 'b, pipes) relay_env" where
  "test_copy receiver = (\<lambda>a b. pipes_turn 64 (\<lambda>w. False))"

text \<open>The two loops after the start-up and one accepted connection each.\<close>

definition test_accepted ::
  "server_options \<Rightarrow> client_options \<Rightarrow>
     ((nat list, nat, nat) server_context \<times>
      (nat, (sim_peer, nat list, nat, nat, nat) server_task list \<times>
            (sim_peer, nat list, nat, nat, nat) server_task list, watch_chan, nat) loop_state \<times>
      (nat list, nat, nat, rstr) client_context \<times>
      (nat, (unit, nat list, nat, nat, rstr, nat) client_task list \<times>
            (unit, nat list, nat, nat, rstr, nat) client_task list, watch_chan, nat, u64 \<times> u64,
       sim_fs) client_state) option" where
  "test_accepted server_options client_options =
     (case (fst (server_startup test_server_host demo_runtime server_options demo_channel 0 ()),
            fst (client_startup test_client_host demo_runtime client_options demo_channel 0
              empty_directory)) of
        (Some (Ok (_, sctx, s0)), Some (Ok (cctx, c0))) \<Rightarrow>
          (case (server_on demo_runtime sctx (ServerAccepted (Ok (sim_peer_of (cx_connector cctx)))) s0,
                 client_on test_client_host demo_runtime cctx (ClientAccepted (Ok ())) c0) of
             (Some s1, Some c1) \<Rightarrow> Some (sctx, s1, cctx, c1)
           | _ \<Rightarrow> None)
      | _ \<Rightarrow> None)"

text \<open>The sessions, and the bytes at both ends.\<close>

definition test_relayed ::
  "u8 list \<Rightarrow> sim_peer \<Rightarrow> (sim_peer, nat list, nat, nat, nat) server_task \<Rightarrow>
   (unit, nat list, nat, nat, rstr, nat) client_task \<Rightarrow> u8 list \<Rightarrow> u8 list \<Rightarrow> u8 list \<Rightarrow> bool" where
  "test_relayed redirect server_peer stask ctask preface request reply =
     (case client_task_run test_library test_copy (\<lambda>r d w. (Slept, w)) (test_client_ops server_peer)
             ctask (test_pipes request reply) of
        Some (_, ClientCompleted _, cw) \<Rightarrow>
          (case server_task_run test_library test_copy (test_session_ops redirect) stask
                  (test_pipes (fl_out (pp_lr cw)) reply) of
             Some (_, SessionCompleted _, sw) \<Rightarrow>
               fl_out (pp_lr sw) = preface @ request \<and>
               fl_out (pp_rl sw) = reply \<and>
               fl_out (pp_rl cw) = reply
           | _ \<Rightarrow> False)
      | _ \<Rightarrow> False)"

text \<open>The signals, and the ends of both programs.\<close>

definition test_stopped ::
  "(nat list, nat, nat) server_context \<Rightarrow>
      (nat, (sim_peer, nat list, nat, nat, nat) server_task list \<times>
            (sim_peer, nat list, nat, nat, nat) server_task list, watch_chan, nat) loop_state \<Rightarrow>
      (nat list, nat, nat, rstr) client_context \<Rightarrow>
      (nat, (unit, nat list, nat, nat, rstr, nat) client_task list \<times>
            (unit, nat list, nat, nat, rstr, nat) client_task list, watch_chan, nat, u64 \<times> u64,
       sim_fs) client_state \<Rightarrow> bool" where
  "test_stopped sctx s cctx c =
     (case (client_run test_client_host demo_runtime cctx
              [ClientTaskEnds (hd (fst (l_sessions c))), ClientSignalled True, ClientShutdown,
               ClientDrained, ClientDrainOver False] c,
            server_run demo_runtime sctx
              [ServerTaskEnds (hd (fst (l_sessions s))), ServerSignalled True, ServerShutdown,
               ServerDrained, ServerDrainOver False] s) of
        (Some c', Some s') \<Rightarrow> cl_result c' = Some (Ok ()) \<and> l_phase s' = Stopped
      | _ \<Rightarrow> False)"

definition bridge_test :: "server_agent \<Rightarrow> u8 list \<Rightarrow> u8 list \<Rightarrow> u8 list \<Rightarrow> u8 list \<Rightarrow> bool" where
  "bridge_test agent redirect preface request reply =
     (case (server_options_new_with_agent (SocketAddrV4 (127, 0, 0, 1) 4321) agent
              ''ca.pem'' ''server.pem'' ''server-key.pem'' 4,
            client_options_new ''/s'' (lit ''127.0.0.1:4321'') (lit ''server.test'')
              ''ca.pem'' ''client.pem'' ''client-key.pem'' 4) of
        (Ok server_options, Ok client_options) \<Rightarrow>
          (case test_accepted server_options client_options of
             None \<Rightarrow> False
           | Some (sctx, s, cctx, c) \<Rightarrow>
               test_relayed redirect (sim_peer_of (sx_acceptor sctx)) (hd (fst (l_sessions s)))
                 (hd (fst (l_sessions c))) preface request reply \<and>
               test_stopped sctx s cctx c)
      | _ \<Rightarrow> False)"

definition client_and_server_relay_binary_data_over_mutual_tls :: bool where
  "client_and_server_relay_binary_data_over_mutual_tls =
     bridge_test (Gpg4winRedirect ''S.gpg-agent.extra'') (write_redirect 4321 (replicate 16 9))
       (replicate 16 9) [0, 255, 1, 2, 3] [3, 2, 1, 255, 0]"

definition client_and_server_relay_through_a_unix_agent_socket :: bool where
  "client_and_server_relay_through_a_unix_agent_socket =
     bridge_test (UnixSocket ''S.gpg-agent.extra'') [] [] [0, 255, 1, 2] [2, 1, 255, 0]"


subsection \<open>They hold\<close>

definition test_acceptor :: "(nat list, nat, nat) tls_config" where
  "test_acceptor = \<lparr>tc_versions = [TLS13], tc_peer = ClientVerifier [1], tc_chain = [2],
     tc_key = 2, tc_alpn = [ALPN_PROTOCOL]\<rparr>"

definition test_connector :: "(nat list, nat, nat) tls_config" where
  "test_connector = \<lparr>tc_versions = [TLS13], tc_peer = ServerRoots [1], tc_chain = [3],
     tc_key = 3, tc_alpn = [ALPN_PROTOCOL]\<rparr>"

definition test_server_task :: "server_agent \<Rightarrow> (sim_peer, nat list, nat, nat, nat) server_task" where
  "test_server_task agent = \<lparr>st_stream = sim_peer_of test_connector, st_acceptor = test_acceptor,
     st_connector = server_connector agent, st_shutdown = 0\<rparr>"

definition test_client_task :: "(unit, nat list, nat, nat, rstr, nat) client_task" where
  "test_client_task = \<lparr>ct_session_id = 1, ct_local = (), ct_connector = test_connector,
     ct_name = lit ''server.test'', ct_address = lit ''127.0.0.1:4321'', ct_shutdown = 0\<rparr>"

definition test_server_options :: "server_agent \<Rightarrow> server_options" where
  "test_server_options agent = \<lparr>so_listen_address = SocketAddrV4 (127, 0, 0, 1) 4321,
     so_agent = agent, so_client_ca_cert = ''ca.pem'', so_server_cert = ''server.pem'',
     so_server_key = ''server-key.pem'', so_max_connections = 4\<rparr>"

definition test_client_options :: client_options where
  "test_client_options = \<lparr>co_listen_socket = ''/s'', co_server_address = lit ''127.0.0.1:4321'',
     co_server_name = lit ''server.test'', co_server_ca_cert = ''ca.pem'',
     co_client_cert = ''client.pem'', co_client_key = ''client-key.pem'', co_max_connections = 4\<rparr>"

lemma test_options:
  "agent_path agent \<noteq> [] \<Longrightarrow>
     server_options_new_with_agent (SocketAddrV4 (127, 0, 0, 1) 4321) agent
       ''ca.pem'' ''server.pem'' ''server-key.pem'' 4 = Ok (test_server_options agent)"
  "client_options_new ''/s'' (lit ''127.0.0.1:4321'') (lit ''server.test'')
     ''ca.pem'' ''client.pem'' ''client-key.pem'' 4 = Ok test_client_options"
  by (simp_all add: server_options_new_with_agent_Ok_iff client_options_new_Ok_iff
      server_options_ok_def client_options_ok_def test_server_options_def test_client_options_def
      lit_def)

definition test_server_loop :: "server_agent \<Rightarrow>
    (nat, (sim_peer, nat list, nat, nat, nat) server_task list \<times>
          (sim_peer, nat list, nat, nat, nat) server_task list, watch_chan, nat) loop_state" where
  "test_server_loop agent = \<lparr>l_permits = 3, l_sessions = ([test_server_task agent], []),
     l_channel = demo_channel, l_receiver = 0, l_phase = Accepting, l_log = []\<rparr>"

definition test_client_loop ::
  "(nat, (unit, nat list, nat, nat, rstr, nat) client_task list \<times>
         (unit, nat list, nat, nat, rstr, nat) client_task list, watch_chan, nat, u64 \<times> u64,
    sim_fs) client_state" where
  "test_client_loop = \<lparr>l_permits = 3, l_sessions = ([test_client_task], []),
     l_channel = demo_channel, l_receiver = 0, l_phase = Accepting, l_log = [],
     cl_session_ids = 2, cl_listener = demo_listener, cl_world = demo_fs_bound, cl_result = None\<rparr>"

definition test_server_context :: "server_agent \<Rightarrow> (nat list, nat, nat) server_context" where
  "test_server_context agent =
     \<lparr>sx_acceptor = test_acceptor, sx_connector = server_connector agent\<rparr>"

definition test_client_context :: "(nat list, nat, nat, rstr) client_context" where
  "test_client_context = \<lparr>cx_connector = test_connector, cx_name = lit ''server.test'',
     cx_address = lit ''127.0.0.1:4321''\<rparr>"

lemmas test_loop_defs = test_server_loop_def test_client_loop_def test_server_context_def
  test_client_context_def test_server_task_def test_client_task_def demo_runtime_defs

lemma test_server_start:
  "fst (server_startup test_server_host demo_runtime (test_server_options agent) demo_channel 0 ()) =
     Some (Ok ((), test_server_context agent,
       (test_server_loop agent)\<lparr>l_permits := 4, l_sessions := ([], [])\<rparr>))"
proof -
  have "server_config (disk_ops all_materials) ''ca.pem'' ''server.pem'' ''server-key.pem'' () =
      (Ok test_acceptor, ())"
    using test_configs(1) by (simp add: test_server_config_def test_acceptor_def prod_eq_iff)
  then show ?thesis
    by (simp add: server_startup_def test_server_host_def test_server_options_def bind_io_def
        map_err_io_def return_io_def loop_start_def MAX_PERMITS_def test_loop_defs)
qed

lemma test_client_start:
  "fst (client_startup test_client_host demo_runtime test_client_options demo_channel 0
      empty_directory) =
     Some (Ok (test_client_context,
       test_client_loop\<lparr>l_permits := 4, l_sessions := ([], []), cl_session_ids := 1\<rparr>))"
proof -
  have "client_config (disk_ops all_materials) ''ca.pem'' ''client.pem'' ''client-key.pem'' w =
      (Ok test_connector, w)" for w :: sim_fs
    by (simp add: disk_simps all_materials_def materials_def test_connector_def)
  then show ?thesis
    by (simp add: client_startup_def test_client_host_def test_client_options_def bind_io_def
        map_err_io_def return_io_def bind_in_empty_directory loop_start_def MAX_PERMITS_def
        loop_state.defs test_loop_defs)
qed

lemma test_server_accept:
  "server_on demo_runtime (test_server_context agent)
     (ServerAccepted (Ok (sim_peer_of test_connector)))
     ((test_server_loop agent)\<lparr>l_permits := 4, l_sessions := ([], [])\<rparr>) =
   Some (test_server_loop agent)"
  by (simp add: admit_def test_loop_defs)

lemma test_client_accept:
  "client_on test_client_host demo_runtime test_client_context (ClientAccepted (Ok ()))
     (test_client_loop\<lparr>l_permits := 4, l_sessions := ([], []), cl_session_ids := 1\<rparr>) =
   Some test_client_loop"
  by (simp add: client_admit_def admit_def Let_def test_loop_defs)

lemma test_accepts:
  "test_accepted (test_server_options agent) test_client_options =
     Some (test_server_context agent, test_server_loop agent, test_client_context, test_client_loop)"
proof -
  have "cx_connector test_client_context = test_connector" by (simp add: test_client_context_def)
  then show ?thesis
    by (simp only: test_accepted_def test_server_start test_client_start test_server_accept
        test_client_accept option.case result.case prod.case)
qed

lemma test_stops:
  "test_stopped (test_server_context agent) (test_server_loop agent) test_client_context
     test_client_loop"
proof -
  have client: "\<exists>c. client_run test_client_host demo_runtime test_client_context
      [ClientTaskEnds test_client_task, ClientSignalled True, ClientShutdown, ClientDrained,
       ClientDrainOver False] test_client_loop = Some c \<and> cl_result c = Some (Ok ())"
    by (simp add: task_ends_def shutdown_branch_def drain_one_def client_return_def
        abort_sessions_def demo_channel_def test_loop_defs)
  have server: "\<exists>s. server_run demo_runtime (test_server_context agent)
      [ServerTaskEnds (test_server_task agent), ServerSignalled True, ServerShutdown, ServerDrained,
       ServerDrainOver False] (test_server_loop agent) = Some s \<and> l_phase s = Stopped"
    by (simp add: task_ends_def shutdown_branch_def drain_one_def abort_sessions_def
        demo_channel_def test_loop_defs)
  have "hd (fst (l_sessions test_client_loop)) = test_client_task"
    "hd (fst (l_sessions (test_server_loop agent))) = test_server_task agent"
    by (simp_all add: test_client_loop_def test_server_loop_def)
  with client server show ?thesis by (auto simp only: test_stopped_def option.case prod.case)
qed

text \<open>The copy of the pipes, when both directions fit into one turn.\<close>

lemma test_copy_run:
  assumes "length up \<le> 64" "length down \<le> 64"
  shows "relay (test_copy receiver) a b
      ((test_pipes up down)\<lparr>pp_lr := fresh_flow\<lparr>fl_out := pre\<rparr>\<rparr>) =
    Some (Ok \<lparr>left_to_right = of_nat (length up), right_to_left = of_nat (length down)\<rparr>,
      \<lparr>pp_lr_todo = [], pp_lr = \<lparr>fl_in = up, fl_out = pre @ up, fl_held = [], fl_count = length up\<rparr>,
       pp_rl_todo = [], pp_rl = \<lparr>fl_in = down, fl_out = down, fl_held = [], fl_count = length down\<rparr>\<rparr>)"
  using assms
  by (simp add: test_copy_def test_pipes_def relay.simps pipes_turn_def relay_poll_def flow_turn_def
      Let_def fresh_flow_def)

text \<open>The sessions.\<close>

lemma test_new_flows: "given_new fresh_flow = fresh_flow" "taken_new fresh_flow = fresh_flow"
  "fresh_flow\<lparr>fl_in := []\<rparr> = fresh_flow" "fresh_flow\<lparr>fl_out := []\<rparr> = fresh_flow"
  by (simp_all add: given_new_def taken_new_def fresh_flow_def)

lemma test_verified:
  "sim_connect test_connector (lit ''server.test'') (sim_peer_of test_acceptor) =
     Ok \<lparr>tl_version = TLS13, tl_chain = [2], tl_alpn = Some ALPN_PROTOCOL\<rparr>"
  "sim_accept test_acceptor (sim_peer_of test_connector) =
     Ok \<lparr>tl_version = TLS13, tl_chain = [3], tl_alpn = Some ALPN_PROTOCOL\<rparr>"
  by (simp_all add: sim_connect_def sim_accept_def sim_handshake_def sim_peer_of_def
      test_connector_def test_acceptor_def sim_valid_client_def sim_valid_server_def)

lemma test_client_run:
  assumes "length request \<le> 64" "length reply \<le> 64"
  shows "\<exists>st cw. client_task_run test_library test_copy (\<lambda>r d w. (Slept, w))
       (test_client_ops (sim_peer_of test_acceptor)) test_client_task (test_pipes request reply) =
     Some ([], ClientCompleted st, cw) \<and> fl_out (pp_lr cw) = request \<and> fl_out (pp_rl cw) = reply \<and>
     fl_in (pp_lr cw) = request \<and> fl_in (pp_rl cw) = reply"
proof -
  let ?ops = "task_client_ops test_library test_copy (\<lambda>r d w. (Slept, w))
    (test_client_ops (sim_peer_of test_acceptor)) test_client_task"
  let ?tls = "\<lparr>tl_version = TLS13, tl_chain = [2], tl_alpn = Some ALPN_PROTOCOL\<rparr>"
  have task: "ct_connector test_client_task = test_connector"
    "ct_name test_client_task = lit ''server.test''"
    "ct_address test_client_task = lit ''127.0.0.1:4321''"
    by (simp_all add: test_client_task_def)
  have "establish ?ops (lit ''server.test'') (lit ''127.0.0.1:4321'') (test_pipes request reply) =
      (Ok ?tls, [], test_pipes request reply)"
    by (simp add: establish_def task_client_ops_def test_client_ops_def client_configure_tcp_def
        test_library_def task test_verified validate_alpn_def test_pipes_def test_new_flows)
  moreover have "c_relay ?ops = test_copy (ct_shutdown test_client_task)" "c_now ?ops = (\<lambda>w. 0)"
    by (simp_all add: task_client_ops_def test_client_ops_def)
  moreover note test_copy_run [OF assms, of "ct_shutdown test_client_task"
      "ct_local test_client_task" ?tls "[]"]
  moreover have "(test_pipes request reply)\<lparr>pp_lr := fresh_flow\<lparr>fl_out := []\<rparr>\<rparr> = test_pipes request reply"
    by (simp add: test_pipes_def test_new_flows)
  ultimately show ?thesis
    unfolding client_task_run_def relay_session_def task
    by (subst session_loop.simps)
       (simp add: PRE_RELAY_RECONNECT_WINDOW_def from_secs_def relay_end_def)
qed

lemma test_server_run:
  assumes "length request \<le> 64" "length reply \<le> 64"
    and "agent_connect (wire_agent_ops redirect) (server_connector agent) (test_pipes request reply) =
      Some (Ok stream, (test_pipes request reply)\<lparr>pp_lr := fresh_flow\<lparr>fl_out := preface\<rparr>\<rparr>)"
  shows "\<exists>st sw. server_task_run test_library test_copy (test_session_ops redirect)
       (test_server_task agent) (test_pipes request reply) = Some ([], SessionCompleted st, sw) \<and>
     fl_out (pp_lr sw) = preface @ request \<and> fl_out (pp_rl sw) = reply \<and>
     fl_in (pp_lr sw) = request \<and> fl_in (pp_rl sw) = reply"
proof -
  let ?ops = "task_session_ops test_library test_copy (test_session_ops redirect)
    (test_server_task agent)"
  let ?tls = "\<lparr>tl_version = TLS13, tl_chain = [3], tl_alpn = Some ALPN_PROTOCOL\<rparr>"
  have task: "st_acceptor (test_server_task agent) = test_acceptor"
    "st_stream (test_server_task agent) = sim_peer_of test_connector"
    "st_connector (test_server_task agent) = server_connector agent"
    by (simp_all add: test_server_task_def)
  have "handshake ?ops (sim_peer_of test_connector) (test_pipes request reply) =
      (Some (Ok ?tls), test_pipes request reply)"
    "server_configure_tcp ?ops (sim_peer_of test_connector) (test_pipes request reply) =
      ([], test_pipes request reply)"
    by (simp_all add: handshake_def server_configure_tcp_def task_session_ops_def
        test_session_ops_def test_library_def task test_verified test_pipes_def test_new_flows)
  moreover have "s_alpn ?ops = tl_alpn" "s_agent ?ops = wire_agent_ops redirect"
    "s_relay ?ops = test_copy (st_shutdown (test_server_task agent))"
    by (simp_all add: task_session_ops_def test_session_ops_def test_library_def)
  moreover note test_copy_run [OF assms(1,2), of "st_shutdown (test_server_task agent)" ?tls stream
      preface]
  ultimately show ?thesis
    unfolding server_task_run_def task session_eq
    by (simp add: assms(3) relay_agent_def del: agent_connect.simps)
qed

lemma test_agent_gpg4win:
  assumes "port \<noteq> 0" "length nonce = 16" "unat port < 10000"
  shows "agent_connect (wire_agent_ops (write_redirect port nonce))
      (server_connector (Gpg4winRedirect p)) (test_pipes up down) =
    Some (Ok (StreamGpg4win ()), (test_pipes up down)\<lparr>pp_lr := fresh_flow\<lparr>fl_out := nonce\<rparr>\<rparr>)"
proof -
  let ?ops = "wire_agent_ops (write_redirect port nonce)"
  note redirect = write_redirect_read [OF assms]
  then have "unat (of_nat (length (write_redirect port nonce)) :: u64) =
      length (write_redirect port nonce)"
    by (simp add: unat_of_nat take_bit_nat_eq_self)
  with redirect have "load_metadata ?ops p w = (Ok \<lparr>md_port = port, md_nonce = nonce\<rparr>, w)" for w
    by (simp add: load_metadata_def wire_agent_ops_def bind_io_def map_err_io_def return_io_def
        MAX_REDIRECT_FILE_SIZE_def)
  then have "gpg4win_attempt ?ops p (test_pipes up down) =
      (Finished (Ok (StreamGpg4win ())),
       (test_pipes up down)\<lparr>pp_lr := fresh_flow\<lparr>fl_out := nonce\<rparr>\<rparr>)"
    by (simp add: gpg4win_attempt_def wire_agent_ops_def send_nonce_def bind_io_def map_err_io_def
        return_io_def given_new_def taken_new_def test_pipes_def fresh_flow_def)
  then show ?thesis
    by (simp add: connector_gpg4win_def connect_gpg4win_def connect_gpg4win_with_window_def
        connect_loop.simps)
qed

lemma test_agent_unix:
  "agent_connect (wire_agent_ops redirect) (server_connector (UnixSocket p)) (test_pipes up down) =
     Some (Ok (StreamUnix ()), (test_pipes up down)\<lparr>pp_lr := fresh_flow\<lparr>fl_out := []\<rparr>\<rparr>)"
  by (simp add: wire_agent_ops_def test_pipes_def test_new_flows)

lemma bridge_test_holds:
  assumes "agent_path agent \<noteq> []" "length request \<le> 64" "length reply \<le> 64"
    and "agent_connect (wire_agent_ops redirect) (server_connector agent) (test_pipes request reply) =
      Some (Ok stream, (test_pipes request reply)\<lparr>pp_lr := fresh_flow\<lparr>fl_out := preface\<rparr>\<rparr>)"
  shows "bridge_test agent redirect preface request reply"
proof -
  have tasks: "hd (fst (l_sessions test_client_loop)) = test_client_task"
    "hd (fst (l_sessions (test_server_loop agent))) = test_server_task agent"
    "sx_acceptor (test_server_context agent) = test_acceptor"
    by (simp_all add: test_client_loop_def test_server_loop_def test_server_context_def)
  from test_client_run [OF assms(2,3)] test_server_run [OF assms(2-4)]
  have "test_relayed redirect (sim_peer_of test_acceptor) (test_server_task agent) test_client_task
      preface request reply"
    by (auto simp: test_relayed_def)
  with test_stops [of agent] show ?thesis
    by (simp add: bridge_test_def test_options(1) [OF assms(1)] test_options(2) test_accepts tasks)
qed

lemma bridge_tests:
  "client_and_server_relay_binary_data_over_mutual_tls"
  "client_and_server_relay_through_a_unix_agent_socket"
  unfolding client_and_server_relay_binary_data_over_mutual_tls_def
    client_and_server_relay_through_a_unix_agent_socket_def
  by (rule bridge_test_holds [OF _ _ _ test_agent_gpg4win] bridge_test_holds [OF _ _ _ test_agent_unix],
      simp_all)+

end
