(* ===== verification/End_To_End.thy ===== *)
theory End_To_End
  imports Integration_Tests
begin

section \<open>From the local application to the agent\<close>

text \<open>
  The two programs, started from their options, with one session each at the two ends of a TLS
  connection: who the two ends are, and which bytes come out of them.
\<close>

lemma server_end_verified:
  assumes "tls_library lib tls_version peer_chain valid_client valid_server"
    and "server_runtime rt available running finished version closed seen"
    and "server_startup host rt options channel receiver w = (Some (Ok (lis, ctx, s0)), w')"
    and "(server_step rt ctx)\<^sup>*\<^sup>* s0 s" "task \<in># running (l_sessions s)"
    and "handshake (task_session_ops lib env ops task) stream v = (Some (Ok tls), v1)"
  shows "\<exists>roots. trusted_roots (sh_tls host) (so_client_ca_cert options) roots \<and>
     tls_version tls = TLS13 \<and> valid_client roots (peer_chain tls)"
proof -
  from every_session_authenticates_its_peer [OF assms(2-5)] obtain roots where
      config: "tc_versions (st_acceptor task) = [TLS13]"
        "tc_peer (st_acceptor task) = ClientVerifier roots"
        "trusted_roots (sh_tls host) (so_client_ca_cert options) roots"
    by blast
  obtain v0 where shake: "e_accept lib (st_acceptor task) SERVER_TLS_HANDSHAKE_TIMEOUT stream v0 =
      (Some (Ok tls), v1)"
    using assms(6) by (auto simp: handshake_def task_session_ops_def)
  from tls_library.accept_version [OF assms(1) shake] tls_library.accept_verified [OF assms(1) shake]
    config
  show ?thesis by auto
qed

lemma client_end_verified:
  assumes "tls_library lib tls_version peer_chain valid_client valid_server"
    and "client_runtime rt available running finished version closed seen"
    and "client_startup host rt options channel receiver w = (Some (Ok (ctx, s0)), w')"
    and "(client_step host rt ctx)\<^sup>*\<^sup>* s0 s" "task \<in># running (l_sessions s)"
    and "tls_attempt (task_client_ops lib env pause ops task) (ct_name task) address v
      (Some (Ok tls)) v1"
  shows "\<exists>roots name. ch_server_name host (co_server_name options) = Ok name \<and>
     trusted_roots (ch_tls host) (co_server_ca_cert options) roots \<and>
     tls_version tls = TLS13 \<and> valid_server roots (peer_chain tls) name"
proof -
  from assms(4) obtain n where "(client_step host rt ctx ^^ n) s0 s"
    by (auto simp: rtranclp_power)
  from client_session_context [OF assms(2,3) this assms(5)] obtain w1 where
      config: "client_config (ch_tls host) (co_server_ca_cert options) (co_client_cert options)
         (co_client_key options) w = (Ok (ct_connector task), w1)"
    and name: "ch_server_name host (co_server_name options) = Ok (ct_name task)"
    by blast
  from client_config_facts [OF config] obtain roots where
      facts: "tc_versions (ct_connector task) = [TLS13]"
        "tc_peer (ct_connector task) = ServerRoots roots"
        "trusted_roots (ch_tls host) (co_server_ca_cert options) roots"
    by blast
  obtain stream v0 where
      shake: "e_connect lib (ct_connector task) CLIENT_TLS_HANDSHAKE_TIMEOUT (ct_name task) stream v0 =
        (Some (Ok tls), v1)"
    using assms(6) by (auto simp: tls_attempt_def task_client_ops_def)
  from tls_library.connect_version [OF assms(1) shake] tls_library.connect_verified [OF assms(1) shake]
    facts name
  show ?thesis by auto
qed


subsection \<open>The wires of the integration tests\<close>

interpretation test_server_wire: server_transport
    "task_session_ops test_library test_copy (test_session_ops redirect) task"
    "\<lambda>tls a. pp_lr" "\<lambda>tls a. pp_rl" for redirect task
  by (intro server_transport.intro server_transport_axioms.intro)
     (auto simp: task_session_ops_def test_session_ops_def test_library_def test_copy_def wire_defs
       agent_new_def peer_kept_def pipe.byte_copy_axioms)

interpretation test_client_wire: client_transport
    "task_client_ops test_library test_copy (\<lambda>r d w. (Slept, w)) (test_client_ops server) task"
    "\<lambda>sock tls. pp_lr" "\<lambda>sock tls. pp_rl" for server task
  by (intro client_transport.intro client_transport_axioms.intro)
     (auto simp: task_client_ops_def test_client_ops_def test_library_def test_copy_def wire_defs
       local_kept_def pipe.byte_copy_axioms)

lemma test_server_reached:
  "(server_step demo_runtime (test_server_context agent))\<^sup>*\<^sup>*
     ((test_server_loop agent)\<lparr>l_permits := 4, l_sessions := ([], [])\<rparr>) (test_server_loop agent)"
  using server_step.event [OF test_server_accept] by blast

lemma test_client_reached:
  "(client_step test_client_host demo_runtime test_client_context)\<^sup>*\<^sup>*
     (test_client_loop\<lparr>l_permits := 4, l_sessions := ([], []), cl_session_ids := 1\<rparr>) test_client_loop"
  using client_step.event [OF test_client_accept] by blast


subsection \<open>Properties\<close>

text \<open>C7: the bridge.  A client and a server, each started from its options and at any time after that,
  with a client session that relayed and a server session that reached the Gpg4win agent.  Then
  there are the connection of each to its peer and the server's to the agent, such that the client
  has verified its peer by the configured name and the anchors of its CA file, and the server its
  own by the anchors of its client CA file, and the agent was given the nonce of its redirect file
  and then the beginning of what the peer sent, and the application the beginning of what its peer
  sent.  If the two connections to a peer are the ends of one
  that hands over in order and unaltered what it was given, then these are the beginning of what
  the local application sent, and the application was given the beginning of what the agent
  answered.  If further both sessions completed and it delivered all it was given, in both
  directions, nothing is missing.\<close>

theorem bridge_connects_application_and_agent:
  assumes "tls_library slib s_version s_chain s_valid_client s_valid_server"
    and "tls_library clib c_version c_chain c_valid_client c_valid_server"
    and "server_transport (task_session_ops slib senv sops stask) s_up s_down"
    and "client_transport (task_client_ops clib cenv cpause cops ctask) c_up c_down"
    and "server_runtime srt s_available s_running s_finished s_ver s_closed s_seen"
    and "server_startup shost srt soptions s_channel s_receiver sw = (Some (Ok (lis, sctx, s0)), sw')"
    and "(server_step srt sctx)\<^sup>*\<^sup>* s0 s" "stask \<in># s_running (l_sessions s)"
    and "so_agent soptions = Gpg4winRedirect p"
    and "client_runtime crt c_available c_running c_finished c_ver c_closed c_seen"
    and "client_startup chost crt coptions c_channel c_receiver cw = (Some (Ok (cctx, c0)), cw')"
    and "(client_step chost crt cctx)\<^sup>*\<^sup>* c0 c" "ctask \<in># c_running (l_sessions c)"
    and "client_task_run clib cenv cpause cops ctask wc = Some (log, cout, wc')"
    and "\<And>tls. fl_in (c_up (ct_local ctask) tls wc) = [] \<and> fl_out (c_down (ct_local ctask) tls wc) = []"
    and "cout \<notin> {ClientExhausted, ClientStopped, ClientRejected}"
    and "server_task_run slib senv sops stask ws = Some (warnings, sout, ws')"
    and "\<not> refused sout" "\<And>e. sout \<noteq> AgentSetupFailed e"
  shows "\<exists>s_roots c_roots name remote tls agent md w0 w1 sent.
     trusted_roots (sh_tls shost) (so_client_ca_cert soptions) s_roots \<and>
     s_version tls = TLS13 \<and> s_valid_client s_roots (s_chain tls) \<and>
     ch_server_name chost (co_server_name coptions) = Ok name \<and>
     trusted_roots (ch_tls chost) (co_server_ca_cert coptions) c_roots \<and>
     c_version remote = TLS13 \<and> c_valid_server c_roots (c_chain remote) name \<and>
     e_alpn slib tls = Some ALPN_PROTOCOL \<and> e_alpn clib remote = Some ALPN_PROTOCOL \<and>
     load_metadata (s_agent sops) p w0 = (Ok md, w1) \<and>
     fl_out (s_up tls agent ws') = md_nonce md @ sent \<and>
     prefix sent (fl_in (s_up tls agent ws')) \<and>
     prefix (fl_out (c_down (ct_local ctask) remote wc')) (fl_in (c_down (ct_local ctask) remote wc')) \<and>
     (prefix (fl_in (s_up tls agent ws')) (fl_out (c_up (ct_local ctask) remote wc')) \<longrightarrow>
        prefix sent (fl_in (c_up (ct_local ctask) remote wc'))) \<and>
     (prefix (fl_in (c_down (ct_local ctask) remote wc')) (fl_out (s_down tls agent ws')) \<longrightarrow>
        prefix (fl_out (c_down (ct_local ctask) remote wc')) (fl_in (s_down tls agent ws'))) \<and>
     (\<forall>cst sst. cout = ClientCompleted cst \<longrightarrow> sout = SessionCompleted sst \<longrightarrow>
        fl_in (s_up tls agent ws') = fl_out (c_up (ct_local ctask) remote wc') \<longrightarrow>
        fl_in (c_down (ct_local ctask) remote wc') = fl_out (s_down tls agent ws') \<longrightarrow>
        sent = fl_in (c_up (ct_local ctask) remote wc') \<and>
        fl_out (c_down (ct_local ctask) remote wc') = fl_in (s_down tls agent ws'))"
proof -
  have "st_connector stask = ConnGpg4winRedirect p"
    using every_session_authenticates_its_peer [OF assms(5-8)] assms(9)
    by (simp add: connector_gpg4win_def)
  then have server: "session (task_session_ops slib senv sops stask) (st_stream stask)
      (ConnGpg4winRedirect p) ws = Some (warnings, sout, ws')"
    using assms(17) by (simp add: server_task_run_def)
  note client = assms(14) [unfolded client_task_run_def]
  have fields: "s_agent (task_session_ops slib senv sops stask) = s_agent sops"
    "s_alpn (task_session_ops slib senv sops stask) = e_alpn slib"
    "c_alpn (task_client_ops clib cenv cpause cops ctask) = e_alpn clib"
    by (simp_all add: task_session_ops_def task_client_ops_def)
  have joined: "\<exists>remote u v tls h agent md w0 w1 sent.
     tls_attempt (task_client_ops clib cenv cpause cops ctask) (ct_name ctask) (ct_address ctask) u
       (Some (Ok remote)) v \<and>
     e_alpn clib remote = Some ALPN_PROTOCOL \<and>
     handshake (task_session_ops slib senv sops stask) (st_stream stask) ws = (Some (Ok tls), h) \<and>
     e_alpn slib tls = Some ALPN_PROTOCOL \<and>
     load_metadata (s_agent sops) p w0 = (Ok md, w1) \<and>
     fl_out (s_up tls agent ws') = md_nonce md @ sent \<and>
     prefix sent (fl_in (s_up tls agent ws')) \<and>
     prefix (fl_out (c_down (ct_local ctask) remote wc')) (fl_in (c_down (ct_local ctask) remote wc')) \<and>
     (prefix (fl_in (s_up tls agent ws')) (fl_out (c_up (ct_local ctask) remote wc')) \<longrightarrow>
        prefix sent (fl_in (c_up (ct_local ctask) remote wc'))) \<and>
     (prefix (fl_in (c_down (ct_local ctask) remote wc')) (fl_out (s_down tls agent ws')) \<longrightarrow>
        prefix (fl_out (c_down (ct_local ctask) remote wc')) (fl_in (s_down tls agent ws'))) \<and>
     (\<forall>cst sst. cout = ClientCompleted cst \<longrightarrow> sout = SessionCompleted sst \<longrightarrow>
        fl_in (s_up tls agent ws') = fl_out (c_up (ct_local ctask) remote wc') \<longrightarrow>
        fl_in (c_down (ct_local ctask) remote wc') = fl_out (s_down tls agent ws') \<longrightarrow>
        sent = fl_in (c_up (ct_local ctask) remote wc') \<and>
        fl_out (c_down (ct_local ctask) remote wc') = fl_in (s_down tls agent ws'))"
    by (rule sessions_joined [OF assms(4,3) client assms(15,16) server assms(18,19),
        unfolded fields])
  then obtain remote u v tls h agent md w0 w1 sent where
      attempt: "tls_attempt (task_client_ops clib cenv cpause cops ctask) (ct_name ctask)
        (ct_address ctask) u (Some (Ok remote)) v"
    and shake: "handshake (task_session_ops slib senv sops stask) (st_stream stask) ws =
        (Some (Ok tls), h)"
    and alpn: "e_alpn clib remote = Some ALPN_PROTOCOL" "e_alpn slib tls = Some ALPN_PROTOCOL"
    and md: "load_metadata (s_agent sops) p w0 = (Ok md, w1)"
    and bytes: "fl_out (s_up tls agent ws') = md_nonce md @ sent"
      "prefix sent (fl_in (s_up tls agent ws'))"
      "prefix (fl_out (c_down (ct_local ctask) remote wc')) (fl_in (c_down (ct_local ctask) remote wc'))"
      "prefix (fl_in (s_up tls agent ws')) (fl_out (c_up (ct_local ctask) remote wc')) \<longrightarrow>
        prefix sent (fl_in (c_up (ct_local ctask) remote wc'))"
      "prefix (fl_in (c_down (ct_local ctask) remote wc')) (fl_out (s_down tls agent ws')) \<longrightarrow>
        prefix (fl_out (c_down (ct_local ctask) remote wc')) (fl_in (s_down tls agent ws'))"
    and all: "\<forall>cst sst. cout = ClientCompleted cst \<longrightarrow> sout = SessionCompleted sst \<longrightarrow>
        fl_in (s_up tls agent ws') = fl_out (c_up (ct_local ctask) remote wc') \<longrightarrow>
        fl_in (c_down (ct_local ctask) remote wc') = fl_out (s_down tls agent ws') \<longrightarrow>
        sent = fl_in (c_up (ct_local ctask) remote wc') \<and>
        fl_out (c_down (ct_local ctask) remote wc') = fl_in (s_down tls agent ws')"
    by blast
  from server_end_verified [OF assms(1,5-8) shake] obtain s_roots where
      s_end: "trusted_roots (sh_tls shost) (so_client_ca_cert soptions) s_roots"
        "s_version tls = TLS13" "s_valid_client s_roots (s_chain tls)" by blast
  from client_end_verified [OF assms(2,10-13) attempt] obtain c_roots name where
      c_end: "ch_server_name chost (co_server_name coptions) = Ok name"
        "trusted_roots (ch_tls chost) (co_server_ca_cert coptions) c_roots"
        "c_version remote = TLS13" "c_valid_server c_roots (c_chain remote) name" by blast
  show ?thesis
    by (intro exI conjI) (rule s_end c_end alpn md bytes all)+
qed

theorem bridge_connects_application_and_agent_witness:
  "\<exists>s_roots c_roots s_chain c_chain (md :: agent_metadata) (cw :: pipes) (sw :: pipes).
     trusted_roots (sh_tls test_server_host) ''ca.pem'' s_roots \<and>
     sim_valid_client s_roots s_chain \<and>
     trusted_roots (ch_tls test_client_host) ''ca.pem'' c_roots \<and>
     sim_valid_server c_roots c_chain (lit ''server.test'') \<and>
     fl_out (pp_lr sw) = md_nonce md @ [0, 255, 1, 2, 3] \<and>
     fl_out (pp_rl cw) = [3, 2, 1, 255, 0]"
proof -
  let ?agent = "Gpg4winRedirect ''S.gpg-agent.extra''"
  let ?redirect = "write_redirect 4321 (replicate 16 9)"
  let ?pipes = "test_pipes [0, 255, 1, 2, 3] [3, 2, 1, 255, 0]"
  obtain cst cw where client: "client_task_run test_library test_copy (\<lambda>r d w. (Slept, w))
        (test_client_ops (sim_peer_of test_acceptor)) test_client_task ?pipes =
      Some ([], ClientCompleted cst, cw)"
    and cw: "fl_out (pp_lr cw) = [0, 255, 1, 2, 3]" "fl_out (pp_rl cw) = [3, 2, 1, 255, 0]"
      "fl_in (pp_lr cw) = [0, 255, 1, 2, 3]" "fl_in (pp_rl cw) = [3, 2, 1, 255, 0]"
    using test_client_run [of "[0, 255, 1, 2, 3]" "[3, 2, 1, 255, 0]"] by auto
  obtain sst sw where server: "server_task_run test_library test_copy (test_session_ops ?redirect)
        (test_server_task ?agent) ?pipes = Some ([], SessionCompleted sst, sw)"
    and sw: "fl_out (pp_rl sw) = [3, 2, 1, 255, 0]"
      "fl_in (pp_lr sw) = [0, 255, 1, 2, 3]" "fl_in (pp_rl sw) = [3, 2, 1, 255, 0]"
    using test_server_run [of "[0, 255, 1, 2, 3]" "[3, 2, 1, 255, 0]", OF _ _
        test_agent_gpg4win [of 4321 "replicate 16 9"], of "''S.gpg-agent.extra''"] by auto
  obtain sw0 cw0 where
      s_start: "server_startup test_server_host demo_runtime (test_server_options ?agent)
        demo_channel 0 () = (Some (Ok ((), test_server_context ?agent,
          (test_server_loop ?agent)\<lparr>l_permits := 4, l_sessions := ([], [])\<rparr>)), sw0)"
    and c_start: "client_startup test_client_host demo_runtime test_client_options
        demo_channel 0 empty_directory = (Some (Ok (test_client_context,
          test_client_loop\<lparr>l_permits := 4, l_sessions := ([], []), cl_session_ids := 1\<rparr>)), cw0)"
    using test_server_start [of ?agent] test_client_start by (metis prod.collapse)
  have tasks: "test_server_task ?agent \<in># mset (fst (l_sessions (test_server_loop ?agent)))"
    "test_client_task \<in># mset (fst (l_sessions test_client_loop))"
    by (simp_all add: test_server_loop_def test_client_loop_def)
  have agent: "so_agent (test_server_options ?agent) = ?agent"
    by (simp add: test_server_options_def)
  have fresh: "fl_in (pp_lr ?pipes) = [] \<and> fl_out (pp_rl ?pipes) = []"
    by (simp add: test_pipes_def fresh_flow_def)
  have ends: "ClientCompleted cst \<notin> {ClientExhausted, ClientStopped, ClientRejected}"
    "\<not> refused (SessionCompleted sst)" "SessionCompleted sst \<noteq> AgentSetupFailed e" for e
    by simp_all
  from bridge_connects_application_and_agent [OF test_tls.tls_library_axioms
      test_tls.tls_library_axioms test_server_wire.server_transport_axioms
      test_client_wire.client_transport_axioms server_rt.server_runtime_axioms s_start
      test_server_reached tasks(1) agent client_rt.client_runtime_axioms c_start
      test_client_reached tasks(2) client fresh ends(1) server ends(2,3)]
  obtain s_roots c_roots name remote tls md sent where
      s_end: "trusted_roots (sh_tls test_server_host) (so_client_ca_cert (test_server_options ?agent)) s_roots"
        "sim_valid_client s_roots (tl_chain (tls :: sim_tls))"
    and c_end: "ch_server_name test_client_host (co_server_name test_client_options) = Ok name"
        "trusted_roots (ch_tls test_client_host) (co_server_ca_cert test_client_options) c_roots"
        "sim_valid_server c_roots (tl_chain (remote :: sim_tls)) name"
    and bytes: "fl_out (pp_lr sw) = md_nonce (md :: agent_metadata) @ sent"
    and all: "\<forall>cst' sst'. ClientCompleted cst = ClientCompleted cst' \<longrightarrow>
        SessionCompleted sst = SessionCompleted sst' \<longrightarrow>
        fl_in (pp_lr sw) = fl_out (pp_lr cw) \<longrightarrow> fl_in (pp_rl cw) = fl_out (pp_rl sw) \<longrightarrow>
        sent = fl_in (pp_lr cw) \<and> fl_out (pp_rl cw) = fl_in (pp_rl sw)"
    by (elim exE conjE) (rule that)
  have sent: "sent = [0, 255, 1, 2, 3]" "fl_out (pp_rl cw) = [3, 2, 1, 255, 0]"
    using all cw sw by simp_all
  have ca: "so_client_ca_cert (test_server_options ?agent) = ''ca.pem''"
    "co_server_ca_cert test_client_options = ''ca.pem''" "name = lit ''server.test''"
    using c_end(1)
    by (simp_all add: test_server_options_def test_client_options_def test_client_host_def)
  show ?thesis
    using s_end c_end(2,3) bytes sent(2) unfolding ca sent(1) by blast
qed

end
