(* ===== verification/Server_Shutdown.thy ===== *)
theory Server_Shutdown
  imports Drain
begin

section \<open>From the signal to the end of the server\<close>

text \<open>
  The shutdown handler, the accept loop and the drain together.  Once the handler has returned, the
  channel is closed for good, so the shutdown branch stays ready until the loop takes it.
\<close>

context server_runtime
begin

lemma server_on_closed:
  assumes "server_on rt ctx ev s = Some s'" "closed (l_channel s)"
  shows "closed (l_channel s')"
proof (cases ev)
  case (ServerAccepted r)
  with assms show ?thesis
    by (cases r) (auto simp: admit_def warn_def split: if_splits option.splits)
next
  case (ServerJoined panicked)
  with assms show ?thesis by (auto split: if_splits dest!: join_branch_eq)
qed (use assms in \<open>auto simp: shutdown_branch_def drain_one_def abort_sessions_def task_ends_def
      split: if_splits\<close>)

lemma server_steps_closed:
  "(server_step rt ctx)\<^sup>*\<^sup>* s s' \<Longrightarrow> closed (l_channel s) \<Longrightarrow> closed (l_channel s')"
  by (induction rule: rtranclp_induct) (auto elim!: server_stepE dest: server_on_closed)

lemma closed_shutdown_branch:
  assumes "closed (l_channel s)" "l_phase s = Accepting"
  shows "\<exists>t. server_on rt ctx ServerShutdown s = Some t \<and> l_phase t = Draining"
  using shutdown_branch_closed [of s] assms by auto

text \<open>What the handler does to the channel is what the loop's last two events do.\<close>

lemma notify_shutdown_steps:
  assumes "notify_shutdown (rt_watch rt) sig (l_channel s) w = (r, c, w')"
  shows "(server_step rt ctx)\<^sup>*\<^sup>* s (s\<lparr>l_channel := c\<rparr>) \<and> closed c"
proof -
  have "server_run rt ctx (case r of Ok _ \<Rightarrow> [ServerSignalled True, ServerSenderDropped]
      | Err _ \<Rightarrow> [ServerSenderDropped]) s = Some (s\<lparr>l_channel := c\<rparr>)"
    using assms by (auto simp: notify_shutdown_def split: prod.splits result.splits)
  with watch.notify_shutdown_closed [OF assms] show ?thesis using server_run_steps by blast
qed

end

text \<open>
  With the channel closed, an accepting server's shutdown branch is ready; taking it, the drain
  and the abort end the function.
\<close>

lemma closed_server_stops:
  assumes "server_runtime rt available running finished version closed seen"
    and "server_startup host rt options channel receiver w = (Some (Ok (lis, ctx, s0)), w')"
    and "(server_step rt ctx)\<^sup>*\<^sup>* s0 s'" "l_phase s' = Accepting" "closed (l_channel s')"
    and "drain_clock env now (now v + from_secs 10) slack"
  shows "\<exists>t u v'. server_on rt ctx ServerShutdown s' = Some t \<and>
     drain_and_abort rt env now t v = Some (u, v') \<and> now v' \<le> now v + from_secs 10 + slack \<and>
     running (l_sessions u) = {#} \<and> (server_step rt ctx)\<^sup>*\<^sup>* s' u \<and>
     run_server_until host rt options channel receiver w (Ok ())"
proof -
  have rt: "loop_runtime rt available running finished version closed seen"
    using assms(1) by (simp add: server_runtime_def)
  from server_runtime.closed_shutdown_branch [OF assms(1,5,4)] obtain t
    where t: "server_on rt ctx ServerShutdown s' = Some t" "l_phase t = Draining" by blast
  from loop_runtime.drain_returns [OF rt assms(6), of t v] obtain timed_out s1 v' where
      run: "drain rt env now (now v + from_secs 10) t v = Some (timed_out, s1, v')"
    and time: "now v' \<le> now v + from_secs 10 + slack"
    by (auto simp: max_def split: if_splits)
  let ?u = "abort_sessions rt s1"
  have s'_u: "(server_step rt ctx)\<^sup>*\<^sup>* s' ?u"
    using server_step.event [OF t(1)] server_drain_steps [OF run t(2), of ctx]
    by (rule converse_rtranclp_into_rtranclp)
  have "l_phase ?u = Stopped" by (simp add: abort_sessions_def)
  with assms(2) rtranclp_trans [OF assms(3) s'_u]
  have "run_server_until host rt options channel receiver w (Ok ())"
    by (rule run_server_until.stopped)
  moreover have "drain_and_abort rt env now t v = Some (?u, v')"
    using run by (simp add: drain_and_abort_def TASK_DRAIN_TIMEOUT_def)
  ultimately show ?thesis
    using t(1) time s'_u loop_runtime.abort_running [OF rt, of s1] by blast
qed


subsection \<open>Properties\<close>

text \<open>C4: the server stops when it is told to.  From any reachable state, when the shutdown handler
  has returned, with a signal or with an error, then whatever the loop does next, as long as it
  accepts its shutdown branch is ready; and once that branch is taken, the drain returns within
  ten seconds and the timer's slack, no session is left, and \<open>run_server_until\<close> returns
  successfully.\<close>

theorem server_stops_after_signal:
  assumes "server_runtime rt available running finished version closed seen"
    and "server_startup host rt options channel receiver w = (Some (Ok (lis, ctx, s0)), w')"
    and "(server_step rt ctx)\<^sup>*\<^sup>* s0 s"
    and "notify_shutdown (rt_watch rt) sig (l_channel s) w1 = (r, c, w2)"
    and "(server_step rt ctx)\<^sup>*\<^sup>* (s\<lparr>l_channel := c\<rparr>) s'" "l_phase s' = Accepting"
    and "drain_clock env now (now v + from_secs 10) slack"
  shows "\<exists>t u v'. server_on rt ctx ServerShutdown s' = Some t \<and>
     drain_and_abort rt env now t v = Some (u, v') \<and> now v' \<le> now v + from_secs 10 + slack \<and>
     running (l_sessions u) = {#} \<and> (server_step rt ctx)\<^sup>*\<^sup>* s' u \<and>
     run_server_until host rt options channel receiver w (Ok ())"
proof -
  note handler = server_runtime.notify_shutdown_steps [OF assms(1,4), of ctx]
  have reach: "(server_step rt ctx)\<^sup>*\<^sup>* s0 s'"
    using assms(3) handler assms(5) by (meson rtranclp_trans)
  have "closed (l_channel s')"
    using server_runtime.server_steps_closed [OF assms(1,5)] handler by simp
  then show ?thesis
    by (rule closed_server_stops [OF assms(1,2) reach assms(6) _ assms(7)])
qed

theorem server_stops_after_signal_witness:
  "\<exists>t u v'. server_on demo_runtime
       \<lparr>sx_acceptor = demo_tls_config, sx_connector = ConnGpg4winRedirect ''f''\<rparr> ServerShutdown
       ((demo_server 0 [demo_session_task ''a''])\<lparr>l_channel := \<lparr>wc_version = 0, wc_closed = True\<rparr>\<rparr>) = Some t \<and>
     drain_and_abort demo_runtime (second_env []) (\<lambda>v. v) t 5 = Some (u, v') \<and>
     v' \<le> 5 + from_secs 10 + 1000000000 \<and>
     run_server_until demo_host_tls
       (demo_runtime :: (nat, _, (string, nat list, nat, nat, nat) server_task, watch_chan, nat) runtime_ops)
       demo_options demo_chan 0 () (Ok ())"
proof -
  let ?sig = "\<lparr>sg_register_terminate = (\<lambda>w. (Err (io_error_new Unsupported []), w)),
        sg_wait = (\<lambda>w. (Terminated, w))\<rparr>"
  have handler: "notify_shutdown (rt_watch demo_runtime) ?sig (l_channel (demo_server 0 [demo_session_task ''a''])) () =
      (Err (io_error_new Unsupported []), \<lparr>wc_version = 0, wc_closed = True\<rparr>, ())"
    by (simp add: notify_shutdown_def wait_for_shutdown_def bind_io_def demo_runtime_defs
        demo_server_def demo_chan_def)
  have accepting: "l_phase ((demo_server 0 [demo_session_task ''a''])
      \<lparr>l_channel := \<lparr>wc_version = 0, wc_closed = True\<rparr>\<rparr>) = Accepting"
    by (simp add: demo_server_def)
  show ?thesis
    using server_stops_after_signal [OF server_rt.server_runtime_axioms demo_server_startup
      demo_server_session handler rtranclp.rtrancl_refl accepting
      seconds.drain_clock_axioms [where ks = "[]"], where v = 5]
    by blast
qed

end
