(* ===== verification/Spec2Isabelle.thy ===== *)
theory Spec2Isabelle
  imports Main_Cmd End_To_End Server_Shutdown
begin

text \<open>
  \<^bold>\<open>gpg-bridge: a verification development.\<close>

  gpg-bridge carries GnuPG agent connections over mutually authenticated TLS.  A Unix client
  accepts connections on an owner-only Unix socket and forwards each through TLS to the server; the
  server (Unix or Windows) connects every authenticated peer to the local GnuPG agent, on Windows
  through the port and nonce of Gpg4win's redirect file, and copies bytes both ways.  On Windows the
  server can run as a service, and a second service renews its certificate.

  \<^bold>\<open>Conventions.\<close>  The code under src/src is translated function by function, under its own names.
  A call into the operating system, the runtime (tokio), rustls, clap, the log or windows-service
  crate is a field of an operations record; it takes and returns the state of the world, whose type
  is left open, so anything else may happen in it meanwhile.  What the code relies on of such a
  call is the assumption of a locale, and every locale is interpreted on a concrete instance.
  \<open>Result\<close> is the datatype \<open>result\<close>, a panic or a loop that never ends is \<open>None\<close>, integers are
  words of their width, a text is the list of its scalar values, a \<open>Duration\<close> is its number of
  nanoseconds.

  \<^bold>\<open>Theories and sources.\<close>
  \<^item> \<open>Bridge_Prelude\<close>: results, the question-mark operator over a world (with the inversion rules
    \<open>io_splits\<close>), I/O errors, durations, checked and saturating arithmetic.
  \<^item> \<open>Rust_Text\<close>: the standard library's UTF-8 decoding, trimming, lines, decimal and IPv4
    parsing, with their inverses.
  \<^item> \<open>Retry\<close> (retry.rs): the reconnect backoff; its caps are those of an unbounded counter.
  \<^item> \<open>Options\<close> (lib.rs, error.rs): the validated options of both roles.
  \<^item> \<open>Agent_Metadata\<close>, \<open>Agent_Connect\<close> (agent.rs): the redirect file, decided exactly by its
    layout; the connection loop, its time bound, its recovery, and the nonce before anything else.
  \<^item> \<open>Tls\<close> (tls.rs): PEM files, key permissions, the two configurations.
  \<^item> \<open>Runtime\<close>: the laws of the watch channel, the semaphore and the task set.
  \<^item> \<open>Relay\<close> (relay.rs, shutdown.rs): the copy raced against shutdown; the signal handler.
  \<^item> \<open>Server_Session\<close> (server.rs 19-91), \<open>Client_Session\<close> (client.rs 23-112): one session of each
    role, from the socket to its end.
  \<^item> \<open>Session_Gate\<close>: the state the two accept loops share, the abstract gate (a phase and a number
    of running sessions below a limit), and the invariant.  \<open>Server_Loop\<close> (server.rs 93-161) and
    \<open>Client_Loop\<close> (client.rs 114-164): startup and the event-driven loops, which keep the invariant
    and implement the gate.
    \<open>Client_Identity\<close>: every client session verifies its server and has an id of its own.
  \<^item> \<open>Drain\<close>: the end of both loops in time, the ten-second timeout around \<open>join_next\<close> and the abort;
    it returns in time and is a run of the loops' events.  \<open>Server_Shutdown\<close>, \<open>Client_Shutdown\<close>: once
    the shutdown handler has returned, the server stops in time with no session left, and the client
    also with its own socket closed.
  \<^item> \<open>Byte_Flow\<close>, \<open>Session_Flow\<close>: the bytes.  What the runtime's copy promises of one wake-up
    (\<open>byte_copy\<close>) and what the sessions rely on of their connections (\<open>server_transport\<close>,
    \<open>client_transport\<close>) give what the agent and the application receive, also where the two
    sessions are the ends of one connection.
  \<^item> \<open>Unix_Socket\<close> (unix\_socket.rs): the owned listener over a namespace of sockets
    (\<open>socket_namespace\<close>); what a bind takes from others while they act between its calls
    (\<open>interfered\<close>, \<open>shared_namespace\<close>), and the one gap in which its checks are overtaken.
  \<^item> \<open>Tailscale\<close> (tailscale.rs), \<open>Windows_Log\<close> (windows\_logging.rs), \<open>Windows_Service\<close>
    (windows\_service.rs; it runs the server's \<open>run_server_until\<close>), \<open>Windows_Renewal\<close>
    (windows\_renewal\_service.rs), \<open>Main_Cmd\<close> (main.rs).
  \<^item> \<open>Mutual_Auth\<close>: a session task run with what the accept loop gave it.  With what the TLS library
    promises of a handshake that succeeds (\<open>tls_library\<close>), start-up, loop and session together say
    who reaches the agent and to whom the application speaks.
  \<^item> \<open>Unit_Tests\<close>, \<open>Tls_Duplex\<close>, \<open>Integration_Tests\<close> (tests/bridge.rs): the tests, evaluated on the
    model.  \<open>tls_duplex\<close> is the joint handshake of the two configurations; the integration tests run options, start-up, sessions, signal and end of both programs.
  \<^item> \<open>End_To_End\<close>: the two started programs with one session each at the ends of a connection: whom
    each has verified, and which bytes the agent and the application receive.
  \<^item> \<open>Spec2Isabelle\<close>: a stop control of the Windows service, from the handler through the thread,
    the server's loop and the drain to the last reported state.

  \<^bold>\<open>Loops, fuel and bounds.\<close>  Loops that may run forever are \<open>partial_function\<close>s.  The agent
  connection loop returns within 76 attempts: fifteen seconds at 200 milliseconds are 75 pauses.
  The client session ends because every attempt takes time and the window is sixty seconds; no
  bound on the number of attempts follows, since a drawn delay may be zero.  The drain returns
  because time passes between two wake-ups.  The accept loops are
  step relations (\<open>server_step\<close>, \<open>client_step\<close>) over executable handlers (\<open>server_on\<close>,
  \<open>client_on\<close>): one event is one branch of the \<open>select!\<close>, or something that happens outside it.

  \<^bold>\<open>Not modelled.\<close>  The inside of the runtime's \<open>copy_bidirectional\<close> and of the TLS handshake (their
  promises are assumptions of locales), argument parsing, the log messages other than the warnings
  that record an outcome, the length of the monitor's interval (a tick is an event), the PowerShell
  and shell scripts, the systemd and Nix files, the tests' generation of certificates.

  \<^bold>\<open>What the model showed.\<close>  A connection limit above \<open>2 ^ 61 - 1\<close> is accepted by the options and makes
  the semaphore panic (\<open>server_startup_decides\<close>); a stop request that arrives while the renewal
  script runs is lost when killing the script fails (\<open>renewal_stop_request\<close>); a failed Tailscale
  lookup ends the service function in the state start pending (\<open>service_status_sequence\<close>); a
  socket bound between the last look of another bind and its removal loses its name to that bind
  (\<open>bind_replaced_meanwhile\<close>); a message with a newline breaks the documented form of the log file (\<open>log_record_lines\<close>); the connector's
  documentation promises metadata errors that the connector never returns
  (\<open>gpg4win_connect_outcome\<close>).
\<close>

section \<open>A Windows service from the stop control to its last state\<close>

text \<open>
  The service host, the server and its drain together: what a stop control does to a service whose
  server accepts connections.
\<close>

lemma run_service_stopped:
  assumes "service_prepare ops dbg options (w, []) = (Ok server, w1, states)"
    and "wt_channel (rt_watch rt) False = (sender, receiver)"
    and "run_server_until host rt server sender receiver w1 (Ok ())"
    and "v_set_status ops (status ServiceStopped False) w2 = (Ok (), w3)"
  shows "run_service ops dbg host rt options (w, []) (Ok ()) []
    (w3, [StartPending, ServiceRunning, ServiceStopped])"
  using run_service.served [of ops dbg options "(w, [])" server "(w1, states)" rt sender receiver
      host "Ok ()" w2] assms prepare_Ok [OF assms(1)]
  by (simp add: report_def)

lemma stop_thread_closes:
  assumes "server_runtime rt available running finished version closed seen"
    and "stop_thread (rt_watch rt) alive stops (l_channel s) = Some (c, left)"
  shows "(server_step rt ctx)\<^sup>*\<^sup>* s (s\<lparr>l_channel := c\<rparr>) \<and> closed c"
proof -
  have watch: "watch_channel (rt_watch rt) version closed seen"
    using assms(1) by (simp add: server_runtime_def loop_runtime_def)
  have "server_run rt ctx [ServerSignalled True, ServerSenderDropped] s = Some (s\<lparr>l_channel := c\<rparr>)"
    using assms(2) by (auto simp: stop_thread_def split: if_splits)
  moreover have "closed c"
    using assms(2) watch_channel.closed_drop [OF watch] by (auto simp: stop_thread_def split: if_splits)
  ultimately show ?thesis using server_run_steps by blast
qed

text \<open>C6: a stop control stops the service.  The handler answers it with success and leaves a message,
  and the waiting thread finds it, whatever the server is doing; a control of another kind leaves
  none, and without one the thread waits.  After the thread, whatever the server's loop does next,
  as long as it accepts its shutdown branch is ready; once that is taken, the drain returns within
  ten seconds and the timer's slack, and the loop has stopped with no session left.  That run of
  the server, with the options the service prepared and the channel it made, is one with which the
  service ends: it has reported start pending and running, and when the manager accepts its last
  report too, that it has stopped, and it returns success with nothing logged.\<close>

theorem stop_control_stops_service:
  assumes "server_runtime rt available running finished version closed seen"
    and "service_prepare ops dbg options (w, []) = (Ok server, w1, states)"
    and "wt_channel (rt_watch rt) False = (channel, receiver)"
    and "server_startup host rt server channel receiver w1 = (Some (Ok (lis, ctx, s0)), w1')"
    and "(server_step rt ctx)\<^sup>*\<^sup>* s0 s"
    and "control_handler control True stops = (answer, stops')"
    and "drain_clock env now (now v + from_secs 10) slack"
  shows "(control = ControlStop \<longrightarrow> answer = NoError \<and>
       (\<exists>c. stop_thread (rt_watch rt) alive stops' (l_channel s) = Some (c, stops) \<and>
          (\<forall>s'. (server_step rt ctx)\<^sup>*\<^sup>* (s\<lparr>l_channel := c\<rparr>) s' \<and> l_phase s' = Accepting \<longrightarrow>
             (\<exists>t u v'. server_on rt ctx ServerShutdown s' = Some t \<and>
                drain_and_abort rt env now t v = Some (u, v') \<and>
                now v' \<le> now v + from_secs 10 + slack \<and> running (l_sessions u) = {#} \<and>
                (server_step rt ctx)\<^sup>*\<^sup>* s0 u \<and> l_phase u = Stopped \<and>
                (\<forall>w2 w3. v_set_status ops (status ServiceStopped False) w2 = (Ok (), w3) \<longrightarrow>
                   run_service ops dbg host rt options (w, []) (Ok ()) []
                     (w3, [StartPending, ServiceRunning, ServiceStopped])))))) \<and>
     (control \<noteq> ControlStop \<longrightarrow> stops' = stops \<and>
       (stops = 0 \<longrightarrow> stop_thread (rt_watch rt) True stops' (l_channel s) = None))"
proof (cases control)
  case ControlStop
  with assms(6) have handled: "answer = NoError" "stops' = Suc stops"
    by (simp_all add: control_handler_def)
  then obtain c where woken: "stop_thread (rt_watch rt) alive stops' (l_channel s) = Some (c, stops)"
    by (simp add: stop_thread_def)
  note thread = stop_thread_closes [OF assms(1) woken, of ctx]
  have "\<exists>t u v'. server_on rt ctx ServerShutdown s' = Some t \<and>
      drain_and_abort rt env now t v = Some (u, v') \<and>
      now v' \<le> now v + from_secs 10 + slack \<and> running (l_sessions u) = {#} \<and>
      (server_step rt ctx)\<^sup>*\<^sup>* s0 u \<and> l_phase u = Stopped \<and>
      (\<forall>w2 w3. v_set_status ops (status ServiceStopped False) w2 = (Ok (), w3) \<longrightarrow>
         run_service ops dbg host rt options (w, []) (Ok ()) []
           (w3, [StartPending, ServiceRunning, ServiceStopped]))"
    if later: "(server_step rt ctx)\<^sup>*\<^sup>* (s\<lparr>l_channel := c\<rparr>) s'" and accepting: "l_phase s' = Accepting" for s'
  proof -
    have s': "(server_step rt ctx)\<^sup>*\<^sup>* s0 s'"
      using assms(5) thread later by (meson rtranclp_trans)
    moreover have "closed (l_channel s')"
      using server_runtime.server_steps_closed [OF assms(1) later] thread by simp
    ultimately obtain t u v' where stop: "server_on rt ctx ServerShutdown s' = Some t"
        "drain_and_abort rt env now t v = Some (u, v')" "now v' \<le> now v + from_secs 10 + slack"
        "running (l_sessions u) = {#}" "(server_step rt ctx)\<^sup>*\<^sup>* s' u"
      using closed_server_stops [OF assms(1,4) _ accepting _ assms(7)] by meson
    have u: "(server_step rt ctx)\<^sup>*\<^sup>* s0 u" "l_phase u = Stopped"
      using s' stop(2,5) by (auto simp: drain_and_abort_def abort_sessions_def)
    have "run_service ops dbg host rt options (w, []) (Ok ()) []
        (w3, [StartPending, ServiceRunning, ServiceStopped])"
      if "v_set_status ops (status ServiceStopped False) w2 = (Ok (), w3)" for w2 w3
      by (rule run_service_stopped [OF assms(2,3) run_server_until.stopped [OF assms(4) u] that])
    with stop u show ?thesis by blast
  qed
  with ControlStop handled woken show ?thesis by blast
qed (use assms(6) in \<open>auto simp: control_handler_def stop_thread_def\<close>)

theorem stop_control_stops_service_witness:
  "\<exists>c t u v'. stop_thread versioned_watch True 1 demo_chan = Some (c, 0) \<and>
     server_on demo_runtime
       \<lparr>sx_acceptor = demo_tls_config, sx_connector = ConnGpg4winRedirect ''f''\<rparr> ServerShutdown
       ((demo_server 0 [demo_session_task ''a''])\<lparr>l_channel := c\<rparr>) = Some t \<and>
     drain_and_abort demo_runtime (second_env []) (\<lambda>v. v) t 5 = Some (u, v') \<and>
     v' \<le> 5 + from_secs 10 + 1000000000 \<and>
     run_service demo_service_ops (\<lambda>d. []) demo_host_tls
       (demo_runtime :: (nat, _, (string, nat list, nat, nat, nat) server_task, watch_chan, nat) runtime_ops)
       \<lparr>sv_server = demo_options, sv_tailscale_listen_port = None\<rparr> ((), []) (Ok ()) []
       ((), [StartPending, ServiceRunning, ServiceStopped])"
proof -
  let ?options = "\<lparr>sv_server = demo_options, sv_tailscale_listen_port = None\<rparr>"
  let ?rt = "demo_runtime ::
    (nat, _, (string, nat list, nat, nat, nat) server_task, watch_chan, nat) runtime_ops"
  let ?s = "demo_server 0 [demo_session_task ''a'']"
  have prepared: "service_prepare demo_service_ops (\<lambda>d. []) ?options ((), []) =
      (Ok demo_options, (), [StartPending, ServiceRunning])"
    by (simp add: service_prepare_def demo_service_ops_def bind_io_def map_err_io_def
        return_io_def quietly_def report_def)
  have channel: "wt_channel (rt_watch demo_runtime) False = (demo_chan, 0)"
    by (simp add: demo_runtime_def versioned_watch_def demo_chan_def)
  have handled: "control_handler ControlStop True 0 = (NoError, 1)"
    by (simp add: control_handler_def)
  have accepted: "v_set_status demo_service_ops (status ServiceStopped False) () = (Ok (), ())"
    by (simp add: demo_service_ops_def)
  have here: "rt_watch demo_runtime = versioned_watch" "l_channel ?s = demo_chan"
    "l_phase (?s\<lparr>l_channel := c\<rparr>) = Accepting" for c
    by (simp_all add: demo_runtime_def demo_server_def)
  note stops = stop_control_stops_service [OF server_rt.server_runtime_axioms prepared channel
      demo_server_startup demo_server_session [of "''a''"] handled
      seconds.drain_clock_axioms [where ks = "[]"], where v = 5 and alive = True, unfolded here]
  then obtain c where woken: "stop_thread versioned_watch True 1 demo_chan = Some (c, 0)"
    and "\<exists>t u v'. server_on demo_runtime
         \<lparr>sx_acceptor = demo_tls_config, sx_connector = ConnGpg4winRedirect ''f''\<rparr> ServerShutdown
         (?s\<lparr>l_channel := c\<rparr>) = Some t \<and>
       drain_and_abort demo_runtime (second_env []) (\<lambda>v. v) t 5 = Some (u, v') \<and>
       v' \<le> 5 + from_secs 10 + 1000000000 \<and>
       (\<forall>w2 w3. v_set_status demo_service_ops (status ServiceStopped False) w2 = (Ok (), w3) \<longrightarrow>
          run_service demo_service_ops (\<lambda>d. []) demo_host_tls ?rt ?options ((), []) (Ok ()) []
            (w3, [StartPending, ServiceRunning, ServiceStopped]))"
    using here(3) by blast
  then obtain t u v' where
      "server_on demo_runtime
         \<lparr>sx_acceptor = demo_tls_config, sx_connector = ConnGpg4winRedirect ''f''\<rparr> ServerShutdown
         (?s\<lparr>l_channel := c\<rparr>) = Some t"
      "drain_and_abort demo_runtime (second_env []) (\<lambda>v. v) t 5 = Some (u, v')"
      "v' \<le> 5 + from_secs 10 + 1000000000"
      "run_service demo_service_ops (\<lambda>d. []) demo_host_tls ?rt ?options ((), []) (Ok ()) []
         ((), [StartPending, ServiceRunning, ServiceStopped])"
    using accepted by blast
  with woken show ?thesis by (intro exI conjI)
qed

end
